theory Spec2Isabelle
  imports Complex_Main "HOL-Library.Sublist" "HOL-Library.AList"
begin

section \<open>Numbers\<close>

text \<open>
  A JavaScript number is an IEEE 754 double.  It is modelled by the real number it
  denotes, and every arithmetic operation of the source by the exact operation followed by
  \<open>fl\<close>, the rounding to the nearest double, a tie going to the even significand: a double
  is an integer multiple of the unit in the last place \<open>ulp\<close> of its binade, and the
  significand has 53 bits (binades below \<open>2\<^sup>-\<^sup>1\<^sup>0\<^sup>2\<^sup>2\<close> share the unit \<open>2\<^sup>-\<^sup>1\<^sup>0\<^sup>7\<^sup>4\<close> of the
  subnormal numbers).  What is left out: \<open>NaN\<close>, the sign of zero, and overflow (beyond the
  largest double the source yields \<open>Infinity\<close>, the model the rounding of the finite value;
  the only places of these programs where such a value can arise, the sub-scores of the
  quality score, clamp it to the same bound in both).  Counts that are always integral and
  far below \<open>2\<^sup>5\<^sup>3\<close> (line counts, file counts, milliseconds) are kept as \<^typ>\<open>int\<close>.
\<close>

definition rne :: "real \<Rightarrow> int" where
  "rne q = (let f = \<lfloor>q\<rfloor>; d = q - real_of_int f
            in if d < 1 / 2 then f else if d > 1 / 2 then f + 1
               else if even f then f else f + 1)"

definition binade :: "real \<Rightarrow> int" where
  "binade x = max \<lfloor>log 2 x\<rfloor> (- 1022)"

definition ulp :: "real \<Rightarrow> real" where
  "ulp x = 2 powr (real_of_int (binade x) - 52)"

definition flAbs :: "real \<Rightarrow> real" where
  "flAbs x = (if x = 0 then 0 else real_of_int (rne (x / ulp x)) * ulp x)"

definition fl :: "real \<Rightarrow> real" where
  "fl x = (if x < 0 then - flAbs (- x) else flAbs x)"

text \<open>The four arithmetic operators on numbers, and a decimal literal of the source text
  (\<open>0.35\<close> is \<open>lit (35 / 100)\<close>).\<close>

definition jsAdd :: "real \<Rightarrow> real \<Rightarrow> real" where
  "jsAdd a b = fl (a + b)"

definition jsSub :: "real \<Rightarrow> real \<Rightarrow> real" where
  "jsSub a b = fl (a - b)"

definition jsMul :: "real \<Rightarrow> real \<Rightarrow> real" where
  "jsMul a b = fl (a * b)"

definition jsDiv :: "real \<Rightarrow> real \<Rightarrow> real" where
  "jsDiv a b = fl (a / b)"

definition lit :: "real \<Rightarrow> real" where
  "lit x = fl x"

section \<open>Dates and the local time zone\<close>

text \<open>
  A \<open>Date\<close> is its time value \<open>getTime()\<close>: milliseconds since the epoch, an \<^typ>\<open>int\<close> (so
  only valid dates are modelled).  The methods that read or set local fields go through the
  two operations of the language specification, \<open>LocalTime(t)\<close> (the wall-clock reading of
  the instant \<open>t\<close>, as milliseconds since the local epoch) and \<open>UTC(l)\<close> (the instant meant by
  the wall-clock reading \<open>l\<close>).  A zone is any pair of such functions for which the same
  wall-clock time on the next calendar day is a later instant; the offset may change at
  any instant (daylight-saving switches), so a local day need not last 24 hours.
\<close>

type_synonym timestamp = int

definition MS_PER_HOUR :: int where
  "MS_PER_HOUR = 1000 * 60 * 60"

definition MS_PER_DAY :: int where
  "MS_PER_DAY = 24 * MS_PER_HOUR"

typedef zone = "{z :: (int \<Rightarrow> int) \<times> (int \<Rightarrow> int). \<forall>t. t < snd z (fst z t + MS_PER_DAY)}"
proof
  show "(\<lambda>t. t, \<lambda>l. l) \<in> {z :: (int \<Rightarrow> int) \<times> (int \<Rightarrow> int). \<forall>t. t < snd z (fst z t + MS_PER_DAY)}"
    by (simp add: MS_PER_DAY_def MS_PER_HOUR_def)
qed

definition LocalTime :: "zone \<Rightarrow> timestamp \<Rightarrow> int" where
  "LocalTime z = fst (Rep_zone z)"

definition UTC :: "zone \<Rightarrow> int \<Rightarrow> timestamp" where
  "UTC z = snd (Rep_zone z)"

text \<open>A zone that keeps one offset \<open>tz\<close> (milliseconds ahead of UTC) for ever.\<close>

definition fixedZone :: "int \<Rightarrow> zone" where
  "fixedZone tz = Abs_zone (\<lambda>t. t + tz, \<lambda>l. l - tz)"

text \<open>A zone whose offset is \<open>before\<close> up to the instant \<open>switch\<close> and \<open>after\<close> from then on.
  A wall-clock reading that the switch skips or repeats is read with the offset in force
  before the switch, as the language specification prescribes.  (Offsets a day or more
  apart make no zone; the first offset is then kept.)\<close>

definition switchZone :: "int \<Rightarrow> timestamp \<Rightarrow> int \<Rightarrow> zone" where
  "switchZone before switch after =
     (if \<bar>before - after\<bar> < MS_PER_DAY
      then Abs_zone (\<lambda>t. t + (if t < switch then before else after),
                     \<lambda>l. if l - before < switch \<or> l - after < switch
                         then l - before else l - after)
      else fixedZone before)"

text \<open>The number of the local calendar day a date falls on (day 0 is 1 January 1970).\<close>

definition localDay :: "zone \<Rightarrow> timestamp \<Rightarrow> int" where
  "localDay z t = LocalTime z t div MS_PER_DAY"

text \<open>\<open>d.setHours(h, 0, 0, 0)\<close>: the same local day, at \<open>h\<close> o'clock sharp.\<close>

definition setHours :: "zone \<Rightarrow> timestamp \<Rightarrow> int \<Rightarrow> timestamp" where
  "setHours z t h = UTC z (localDay z t * MS_PER_DAY + h * MS_PER_HOUR)"

text \<open>\<open>d.getDay()\<close>: 0 is Sunday, 6 is Saturday; 1 January 1970 was a Thursday.\<close>

definition getDay :: "zone \<Rightarrow> timestamp \<Rightarrow> int" where
  "getDay z t = (localDay z t + 4) mod 7"

text \<open>\<open>d.setDate(d.getDate() + 1)\<close>: the same wall-clock time on the next calendar day.\<close>

definition nextDate :: "zone \<Rightarrow> timestamp \<Rightarrow> timestamp" where
  "nextDate z t = UTC z (LocalTime z t + MS_PER_DAY)"

text \<open>\<open>(b - a) / MS_PER_HOUR\<close> for two time values: the subtraction and the division are
  operations on numbers.\<close>

definition hoursBetween :: "timestamp \<Rightarrow> timestamp \<Rightarrow> real" where
  "hoursBetween a b = jsDiv (jsSub (real_of_int b) (real_of_int a)) (real_of_int MS_PER_HOUR)"

text \<open>One pass of the body of the \<open>while\<close> loop: the value of \<open>hoursToRemove\<close> after the
  day starting at \<open>currentDay\<close>.  On a weekday the evening is added first, then the
  morning.\<close>

definition dayHoursToRemove ::
  "zone \<Rightarrow> timestamp \<Rightarrow> timestamp \<Rightarrow> timestamp \<Rightarrow> real \<Rightarrow> real" where
  "dayHoursToRemove z startT endT currentDay hoursToRemove =
     (let dayOfWeek = getDay z currentDay;
          dayStart = currentDay;
          dayEnd = nextDate z currentDay
      in if dayOfWeek = 0 \<or> dayOfWeek = 6 then
           (let overlapStart = max startT dayStart;
                overlapEnd = min endT dayEnd
            in if overlapEnd > overlapStart
               then jsAdd hoursToRemove (hoursBetween overlapStart overlapEnd)
               else hoursToRemove)
         else
           (let eveningStart = setHours z currentDay 18;
                eveningEnd = dayEnd;
                eveningOverlapStart = max startT eveningStart;
                eveningOverlapEnd = min endT eveningEnd;
                hoursToRemove =
                  (if eveningOverlapEnd > eveningOverlapStart
                   then jsAdd hoursToRemove (hoursBetween eveningOverlapStart eveningOverlapEnd)
                   else hoursToRemove);
                morningStart = dayStart;
                morningEnd = setHours z currentDay 10;
                morningOverlapStart = max startT morningStart;
                morningOverlapEnd = min endT morningEnd
            in if morningOverlapEnd > morningOverlapStart
               then jsAdd hoursToRemove (hoursBetween morningOverlapStart morningOverlapEnd)
               else hoursToRemove))"

text \<open>The \<open>while (currentDay < end)\<close> loop, with \<open>hoursToRemove\<close> as accumulator.  It ends
  because every pass moves \<open>currentDay\<close> to a later instant.\<close>

function walkDays :: "zone \<Rightarrow> timestamp \<Rightarrow> timestamp \<Rightarrow> timestamp \<Rightarrow> real \<Rightarrow> real" where
  "walkDays z startT endT currentDay hoursToRemove =
     (if currentDay < endT
      then walkDays z startT endT (nextDate z currentDay)
             (dayHoursToRemove z startT endT currentDay hoursToRemove)
      else hoursToRemove)"
  by pat_completeness auto
termination
proof (relation "measure (\<lambda>(z, startT, endT, currentDay, hoursToRemove). nat (endT - currentDay))")
  fix z :: zone and startT endT currentDay :: timestamp and hoursToRemove :: real
  assume "currentDay < endT"
  moreover have "currentDay < nextDate z currentDay"
    using Rep_zone[of z] by (simp add: nextDate_def UTC_def LocalTime_def)
  ultimately show "((z, startT, endT, nextDate z currentDay,
                     dayHoursToRemove z startT endT currentDay hoursToRemove),
                    (z, startT, endT, currentDay, hoursToRemove))
                   \<in> measure (\<lambda>(z, startT, endT, currentDay, hoursToRemove). nat (endT - currentDay))"
    by simp
qed simp

declare walkDays.simps [simp del]

text \<open>\<open>calculateWorkingHours\<close> of the collector script.\<close>

definition calculateWorkingHours :: "zone \<Rightarrow> timestamp \<Rightarrow> timestamp \<Rightarrow> real" where
  "calculateWorkingHours z startISO endISO =
     (let startT = startISO; endT = endISO
      in if endT \<le> startT then 0
         else
           (let totalCalendarHours = hoursBetween startT endT;
                currentDay = setHours z startT 0;
                hoursToRemove = walkDays z startT endT currentDay 0
            in max 0 (jsSub totalCalendarHours hoursToRemove)))"

text \<open>\<open>calculateWorkingHours\<close> of the dashboard (\<open>lib/utils.ts\<close>): the same walk behind
  a guard for a missing timestamp (\<open>null\<close>, \<open>undefined\<close>, the empty string).\<close>

definition calculateWorkingHours_utils ::
  "zone \<Rightarrow> timestamp option \<Rightarrow> timestamp option \<Rightarrow> real" where
  "calculateWorkingHours_utils z startISO endISO =
     (case (startISO, endISO) of
        (Some startT, Some endT) \<Rightarrow>
          if endT \<le> startT then 0
          else
            (let totalCalendarHours = hoursBetween startT endT;
                 currentDay = setHours z startT 0;
                 hoursToRemove = walkDays z startT endT currentDay 0
             in max 0 (jsSub totalCalendarHours hoursToRemove))
      | _ \<Rightarrow> 0)"

text \<open>The instant at which the wall clock reads \<open>h\<close>:00 on local day \<open>d\<close> (what
  \<open>new Date(year, month, day, h)\<close> denotes).\<close>

definition wall :: "zone \<Rightarrow> int \<Rightarrow> int \<Rightarrow> timestamp" where
  "wall z d h = UTC z (d * MS_PER_DAY + h * MS_PER_HOUR)"

text \<open>Local day \<open>d\<close> is plain: from its midnight to the next the zone keeps one offset, so
  every wall-clock reading of the day is the reading of exactly the instant it denotes.\<close>

definition plainDay :: "zone \<Rightarrow> int \<Rightarrow> bool" where
  "plainDay z d =
     (\<exists>off. \<forall>l. d * MS_PER_DAY \<le> l \<and> l \<le> (d + 1) * MS_PER_DAY
               \<longrightarrow> UTC z l = l - off \<and> LocalTime z (l - off) = l)"

text \<open>Local day \<open>d\<close> starts at a midnight that the wall clock shows, and lasts \<open>q\<close>
  quarters of an hour.\<close>

definition MS_PER_QUARTER :: int where
  "MS_PER_QUARTER = 1000 * 60 * 15"

definition dayLasts :: "zone \<Rightarrow> int \<Rightarrow> int \<Rightarrow> bool" where
  "dayLasts z d q =
     (LocalTime z (wall z d 0) = d * MS_PER_DAY \<and>
      wall z (d + 1) 0 - wall z d 0 = q * MS_PER_QUARTER)"

text \<open>The United States' Eastern zone around the start of daylight-saving time in 2026:
  five hours behind UTC until Sunday 8 March, 07:00 UTC (02:00 on the wall clock, which then
  jumps to 03:00), four hours behind from then on.\<close>

definition usEastern2026 :: zone where
  "usEastern2026 = switchZone (- 5 * MS_PER_HOUR) 1772953200000 (- 4 * MS_PER_HOUR)"
section \<open>Number formatting\<close>

text \<open>The decimal number that the text \<open>x.toFixed(digits)\<close> spells: the double \<open>x\<close>
  rounded to \<open>digits\<close> decimals, a tie rounded away from zero; the sign is split off first,
  as \<open>Number.prototype.toFixed\<close> does.  The rounding is that of the exact value of the
  double, a multiple of \<open>10\<close> to the power \<open>- digits\<close> and in general not a double.\<close>

definition toFixedNum :: "nat \<Rightarrow> real \<Rightarrow> real" where
  "toFixedNum digits x =
     (if x < 0 then - (real_of_int \<lfloor>(- x) * 10 ^ digits + 1 / 2\<rfloor> / 10 ^ digits)
      else real_of_int \<lfloor>x * 10 ^ digits + 1 / 2\<rfloor> / 10 ^ digits)"

text \<open>\<open>parseFloat\<close> on the text of a decimal number: the nearest double.\<close>

definition parseFloat :: "real \<Rightarrow> real" where
  "parseFloat x = fl x"

text \<open>\<open>Math.round\<close>: the nearest integer, a tie rounded up.\<close>

definition Math_round :: "real \<Rightarrow> int" where
  "Math_round x = \<lfloor>x + 1 / 2\<rfloor>"

section \<open>Churn analyzer\<close>

record FileChange =
  filename :: string
  additions :: int
  deletions :: int
  status :: string

record Commit =
  sha :: string
  date :: timestamp
  files :: "FileChange list"

record ChurnMetrics =
  cm_churnPercentage :: real
  cm_fileChurnCount :: int

text \<open>The three local variables of \<open>calculateChurnMetrics\<close>.  The \<open>Map\<close> from file name to
  \<open>Set\<close> of commit indices is an association list in insertion order; a \<open>Set\<close> is a
  duplicate-free list (\<open>List.insert\<close> adds an element only when it is absent).\<close>

record ChurnState =
  fileSeenInCommit :: "(string \<times> nat list) list"
  churnTotalAdditions :: int
  reWorkAdditions :: int

text \<open>The body of the inner loop \<open>for (const file of commit.files)\<close>.\<close>

definition churnFile :: "nat \<Rightarrow> ChurnState \<Rightarrow> FileChange \<Rightarrow> ChurnState" where
  "churnFile idx st file =
     (let total = churnTotalAdditions st + additions file;
          m = (if map_of (fileSeenInCommit st) (filename file) = None
               then AList.update (filename file) [] (fileSeenInCommit st)
               else fileSeenInCommit st);
          seen = (case map_of m (filename file) of None \<Rightarrow> [] | Some s \<Rightarrow> s);
          rework = (if length seen > 0 then reWorkAdditions st + additions file
                    else reWorkAdditions st)
      in \<lparr> fileSeenInCommit = AList.update (filename file) (List.insert idx seen) m,
           churnTotalAdditions = total,
           reWorkAdditions = rework \<rparr>)"

text \<open>The callback of \<open>commits.forEach((commit, idx) => ...)\<close>.\<close>

definition churnCommit :: "ChurnState \<Rightarrow> nat \<times> Commit \<Rightarrow> ChurnState" where
  "churnCommit st ic = foldl (churnFile (fst ic)) st (files (snd ic))"

definition churnWalk :: "Commit list \<Rightarrow> ChurnState" where
  "churnWalk commits =
     foldl churnCommit \<lparr> fileSeenInCommit = [], churnTotalAdditions = 0, reWorkAdditions = 0 \<rparr>
       (enumerate 0 commits)"

text \<open>\<open>calculateChurnMetrics\<close>; an absent list (\<open>!commits\<close>) is \<open>None\<close>.\<close>

definition calculateChurnMetrics :: "Commit list option \<Rightarrow> ChurnMetrics" where
  "calculateChurnMetrics commits =
     (case commits of
        None \<Rightarrow> \<lparr> cm_churnPercentage = 0, cm_fileChurnCount = 0 \<rparr>
      | Some cs \<Rightarrow>
          if length cs \<le> 1 then \<lparr> cm_churnPercentage = 0, cm_fileChurnCount = 0 \<rparr>
          else
            (let st = churnWalk cs;
                 fileChurnCount =
                   length (filter (\<lambda>s. length s > 1) (map snd (fileSeenInCommit st)))
             in \<lparr> cm_churnPercentage =
                    (if churnTotalAdditions st > 0
                     then parseFloat (toFixedNum 1
                            (jsMul (jsDiv (real_of_int (reWorkAdditions st))
                                          (real_of_int (churnTotalAdditions st))) 100))
                     else 0),
                  cm_fileChurnCount = int fileChurnCount \<rparr>))"

text \<open>The rework rule in the words of the specification: a file's additions count as rework
  exactly when an earlier commit of the list (an index below \<open>i\<close>) touched the same file
  name; and the plain total of all additions.\<close>

definition touchedBefore :: "Commit list \<Rightarrow> nat \<Rightarrow> string \<Rightarrow> bool" where
  "touchedBefore cs i name = (name \<in> set (map filename (concat (map files (take i cs)))))"

definition reworkAdditionsSpec :: "Commit list \<Rightarrow> int" where
  "reworkAdditionsSpec cs =
     (\<Sum>i\<leftarrow>[0..<length cs]. \<Sum>f\<leftarrow>files (cs ! i).
        if touchedBefore cs i (filename f) then additions f else 0)"

definition totalAdditionsSpec :: "Commit list \<Rightarrow> int" where
  "totalAdditionsSpec cs = (\<Sum>c\<leftarrow>cs. \<Sum>f\<leftarrow>files c. additions f)"

text \<open>Two facts about the state between loop passes: no file name is mapped to an empty
  set, and the file names seen so far are the keys of the map.\<close>

definition noEmptySeen :: "ChurnState \<Rightarrow> bool" where
  "noEmptySeen st = (\<forall>k s. map_of (fileSeenInCommit st) k = Some s \<longrightarrow> s \<noteq> [])"

definition seenNames :: "ChurnState \<Rightarrow> string set" where
  "seenNames st = dom (map_of (fileSeenInCommit st))"

text \<open>Three commit lists.  In \<open>thirdReworked\<close> the second commit touches file \<open>a\<close> again
  and file \<open>b\<close> for the first time: 1 of 3 added lines is rework.  In \<open>reworked23of80\<close>
  23 of 80 added lines are rework.  In \<open>repeatedName\<close> one commit lists file \<open>a\<close> twice and
  no later commit touches it.\<close>

definition thirdReworked :: "Commit list" where
  "thirdReworked =
     [\<lparr>sha = ''c1'', date = 0, files =
         [\<lparr>filename = ''a'', additions = 1, deletions = 0, status = ''added''\<rparr>]\<rparr>,
      \<lparr>sha = ''c2'', date = 1, files =
         [\<lparr>filename = ''a'', additions = 1, deletions = 1, status = ''modified''\<rparr>,
          \<lparr>filename = ''b'', additions = 1, deletions = 0, status = ''added''\<rparr>]\<rparr>]"

definition reworked23of80 :: "Commit list" where
  "reworked23of80 =
     [\<lparr>sha = ''c1'', date = 0, files =
         [\<lparr>filename = ''a'', additions = 57, deletions = 0, status = ''added''\<rparr>]\<rparr>,
      \<lparr>sha = ''c2'', date = 1, files =
         [\<lparr>filename = ''a'', additions = 23, deletions = 4, status = ''modified''\<rparr>]\<rparr>]"

definition repeatedName :: "Commit list" where
  "repeatedName =
     [\<lparr>sha = ''c1'', date = 0, files =
         [\<lparr>filename = ''a'', additions = 5, deletions = 0, status = ''modified''\<rparr>,
          \<lparr>filename = ''a'', additions = 3, deletions = 0, status = ''modified''\<rparr>]\<rparr>,
      \<lparr>sha = ''c2'', date = 1, files = []\<rparr>]"

section \<open>Change classifier\<close>

text \<open>\<open>config.testFilePatterns\<close> of \<open>scripts/config.js\<close>.\<close>

definition testFilePatterns :: "string list" where
  "testFilePatterns =
     [''*.test.*'', ''*.spec.*'', ''__tests__/'', ''__mocks__/'', ''e2e/'', ''tests/'',
      ''test/'', ''*.stories.*'', ''integration/'', ''fixtures/'', ''.test/'', ''.spec/'']"

text \<open>\<open>s.includes(pattern)\<close>: the pattern occurs in \<open>s\<close> as a contiguous substring.\<close>

definition str_includes :: "string \<Rightarrow> string \<Rightarrow> bool" where
  "str_includes s pattern = sublist pattern s"

text \<open>\<open>isTestFile\<close>: both branches of the source's \<open>if (pattern.endsWith('/'))\<close> return the
  same containment test.\<close>

definition isTestFile :: "string \<Rightarrow> bool" where
  "isTestFile name =
     list_ex (\<lambda>pattern. if suffix ''/'' pattern then str_includes name pattern
                          else str_includes name pattern) testFilePatterns"

record FileMetrics =
  fm_totalAdditions :: int
  fm_totalDeletions :: int
  fm_prodAdditions :: int
  fm_prodDeletions :: int
  fm_testAdditions :: int
  fm_testDeletions :: int
  fm_filesChanged :: int
  fm_testFilesChanged :: int
  fm_prodFilesChanged :: int

text \<open>The body of the loop \<open>for (const file of files)\<close>.\<close>

definition classifyFile :: "FileMetrics \<Rightarrow> FileChange \<Rightarrow> FileMetrics" where
  "classifyFile result file =
     (let r = result\<lparr> fm_totalAdditions := fm_totalAdditions result + additions file,
                      fm_totalDeletions := fm_totalDeletions result + deletions file \<rparr>
      in if isTestFile (filename file)
         then r\<lparr> fm_testAdditions := fm_testAdditions r + additions file,
                 fm_testDeletions := fm_testDeletions r + deletions file,
                 fm_testFilesChanged := fm_testFilesChanged r + 1 \<rparr>
         else r\<lparr> fm_prodAdditions := fm_prodAdditions r + additions file,
                 fm_prodDeletions := fm_prodDeletions r + deletions file,
                 fm_prodFilesChanged := fm_prodFilesChanged r + 1 \<rparr>)"

definition classifyFileChanges :: "FileChange list \<Rightarrow> FileMetrics" where
  "classifyFileChanges fs =
     foldl classifyFile
       \<lparr> fm_totalAdditions = 0, fm_totalDeletions = 0, fm_prodAdditions = 0,
         fm_prodDeletions = 0, fm_testAdditions = 0, fm_testDeletions = 0,
         fm_filesChanged = int (length fs), fm_testFilesChanged = 0,
         fm_prodFilesChanged = 0 \<rparr> fs"

section \<open>Enriched pull-request records\<close>

datatype ReviewState = APPROVED | CHANGES_REQUESTED | COMMENTED | DISMISSED

text \<open>An enriched review, as \<open>processPR\<close> pushes it onto \<open>processedReviews\<close>.  A timestamp
  that may be missing (\<open>undefined\<close>, \<open>null\<close>) is an option.  The text of a review is kept as
  the list of its UTF-16 code units, the characters \<open>trim\<close> looks at.\<close>

type_synonym utf16 = "nat list"

record Review =
  reviewer :: string
  state :: ReviewState
  submittedAt :: "timestamp option"
  firstActivityAt :: "timestamp option"
  hasComments :: bool
  inlineCommentCount :: int
  conversationCommentCount :: int
  body :: utf16

text \<open>An enriched pull request (\<open>PRDetail\<close> of the dashboard's types).  The fields the type
  marks optional (\<open>error\<close>, \<open>firstResponseAt\<close>, \<open>commitCount\<close>, \<open>churnPercentage\<close>,
  \<open>fileChurnCount\<close>) are options; the others are always present.\<close>

record PRDetail =
  repo :: string
  number :: int
  title :: string
  author :: string
  createdAt :: timestamp
  mergedAt :: timestamp
  url :: string
  totalAdditions :: int
  totalDeletions :: int
  prodAdditions :: int
  prodDeletions :: int
  testAdditions :: int
  testDeletions :: int
  filesChanged :: int
  testFilesChanged :: int
  prodFilesChanged :: int
  iterationCount :: int
  reviews :: "Review list"
  error :: "string option"
  firstResponseAt :: "timestamp option"
  commitCount :: "int option"
  churnPercentage :: "real option"
  fileChurnCount :: "int option"

text \<open>JavaScript truthiness of an optional string (\<open>if (pr.error)\<close>): a missing value and
  the empty string are falsy.\<close>

definition truthyStr :: "string option \<Rightarrow> bool" where
  "truthyStr s = (case s of None \<Rightarrow> False | Some v \<Rightarrow> v \<noteq> [])"

text \<open>Truthiness of a number that may be \<open>null\<close> (\<open>x ? ... : null\<close>): \<open>null\<close> and 0 are falsy.\<close>

definition truthyNum :: "real option \<Rightarrow> bool" where
  "truthyNum x = (case x of None \<Rightarrow> False | Some v \<Rightarrow> v \<noteq> 0)"

section \<open>Statistics helpers\<close>

text \<open>\<open>avg\<close>, \<open>median\<close> and \<open>percentile\<close>, the arrow functions shared by the aggregators,
  and \<open>Math.min(...arr)\<close> on a non-empty array.  The sum of \<open>avg\<close> is accumulated from
  the left, as \<open>reduce\<close> does.\<close>

definition avg :: "real list \<Rightarrow> real" where
  "avg arr = (if length arr > 0 then jsDiv (foldl jsAdd 0 arr) (real (length arr)) else 0)"

definition median :: "real list \<Rightarrow> real option" where
  "median arr =
     (if length arr = 0 then None
      else (let sorted = sort arr in Some (sorted ! (length sorted div 2))))"

definition percentile :: "real list \<Rightarrow> real \<Rightarrow> real option" where
  "percentile arr p =
     (if length arr = 0 then None
      else (let sorted = sort arr
            in Some (sorted ! nat \<lfloor>jsMul (real (length sorted)) p\<rfloor>)))"

definition Math_min :: "real list \<Rightarrow> real" where
  "Math_min arr = Min (set arr)"

text \<open>The text of \<open>x.toFixed(digits)\<close> for \<open>digits > 0\<close> (below the magnitude where
  JavaScript switches to exponent notation).\<close>

fun showNat :: "nat \<Rightarrow> string" where
  "showNat n = (if n < 10 then [''0123456789'' ! n]
                else showNat (n div 10) @ [''0123456789'' ! (n mod 10)])"

declare showNat.simps [simp del]

fun padDigits :: "nat \<Rightarrow> nat \<Rightarrow> string" where
  "padDigits 0 n = []"
| "padDigits (Suc k) n = padDigits k (n div 10) @ [''0123456789'' ! (n mod 10)]"

definition toFixed :: "nat \<Rightarrow> real \<Rightarrow> string" where
  "toFixed digits x =
     (let a = \<bar>x\<bar>;
          n = nat \<lfloor>a * 10 ^ digits + 1 / 2\<rfloor>;
          txt = showNat (n div 10 ^ digits) @ ''.'' @ padDigits digits n
      in if x < 0 then ''-'' @ txt else txt)"

section \<open>Reviewer aggregation\<close>

text \<open>The accumulator object kept per reviewer in the \<open>reviewerStats\<close> map.  The set
  \<open>prsReviewed\<close> is a duplicate-free list of PR numbers, \<open>prsByRepo\<close> an association list.\<close>

record ReviewerStats =
  st_reviewer :: string
  st_totalReviews :: int
  st_approvals :: int
  st_changesRequested :: int
  st_commentOnlyReviews :: int
  st_noCommentApprovals :: int
  st_totalInlineComments :: int
  st_totalConversationComments :: int
  st_responseTimes :: "real list"
  st_prSizesReviewed :: "int list"
  st_prProdLinesReviewed :: "int list"
  st_prTestLinesReviewed :: "int list"
  st_iterationsPerPr :: "int list"
  st_prsReviewed :: "int list"
  st_prsByRepo :: "(string \<times> int) list"
  st_reviewedPrCloseTimes :: "real list"

definition newReviewerStats :: "string \<Rightarrow> ReviewerStats" where
  "newReviewerStats r =
     \<lparr> st_reviewer = r, st_totalReviews = 0, st_approvals = 0, st_changesRequested = 0,
       st_commentOnlyReviews = 0, st_noCommentApprovals = 0, st_totalInlineComments = 0,
       st_totalConversationComments = 0, st_responseTimes = [], st_prSizesReviewed = [],
       st_prProdLinesReviewed = [], st_prTestLinesReviewed = [], st_iterationsPerPr = [],
       st_prsReviewed = [], st_prsByRepo = [], st_reviewedPrCloseTimes = [] \<rparr>"

text \<open>\<open>obj[key] = (obj[key] || 0) + 1\<close> on a per-repository counter object.\<close>

definition bumpRepo :: "string \<Rightarrow> (string \<times> int) list \<Rightarrow> (string \<times> int) list" where
  "bumpRepo r counts =
     AList.update r ((case map_of counts r of None \<Rightarrow> 0 | Some c \<Rightarrow> c) + 1) counts"

text \<open>The counters a review changes by its state.\<close>

definition countState :: "Review \<Rightarrow> ReviewerStats \<Rightarrow> ReviewerStats" where
  "countState review stats =
     (if state review = APPROVED then
        (let s = stats\<lparr> st_approvals := st_approvals stats + 1 \<rparr>
         in if \<not> hasComments review
            then s\<lparr> st_noCommentApprovals := st_noCommentApprovals s + 1 \<rparr> else s)
      else if state review = CHANGES_REQUESTED
        then stats\<lparr> st_changesRequested := st_changesRequested stats + 1 \<rparr>
      else if state review = COMMENTED
        then stats\<lparr> st_commentOnlyReviews := st_commentOnlyReviews stats + 1 \<rparr>
      else stats)"

text \<open>The response-time sample of a review.\<close>

definition addResponseTime :: "zone \<Rightarrow> PRDetail \<Rightarrow> Review \<Rightarrow> ReviewerStats \<Rightarrow> ReviewerStats" where
  "addResponseTime z pr review stats =
     (case firstActivityAt review of
        None \<Rightarrow> stats
      | Some fa \<Rightarrow>
          (let responseHours = calculateWorkingHours z (createdAt pr) fa
           in if responseHours \<ge> 0
              then stats\<lparr> st_responseTimes := st_responseTimes stats @ [responseHours] \<rparr>
              else stats))"

text \<open>The PR-level samples, guarded by \<open>if (!stats.prsReviewed.has(pr.number))\<close>.\<close>

definition addPrSamples :: "zone \<Rightarrow> PRDetail \<Rightarrow> ReviewerStats \<Rightarrow> ReviewerStats" where
  "addPrSamples z pr stats =
     (if number pr \<notin> set (st_prsReviewed stats) then
        (let closeTime = calculateWorkingHours z (createdAt pr) (mergedAt pr)
         in stats\<lparr> st_prsReviewed := st_prsReviewed stats @ [number pr],
                   st_prSizesReviewed :=
                     st_prSizesReviewed stats @ [totalAdditions pr + totalDeletions pr],
                   st_prProdLinesReviewed :=
                     st_prProdLinesReviewed stats @ [prodAdditions pr + prodDeletions pr],
                   st_prTestLinesReviewed :=
                     st_prTestLinesReviewed stats @ [testAdditions pr + testDeletions pr],
                   st_iterationsPerPr := st_iterationsPerPr stats @ [iterationCount pr],
                   st_reviewedPrCloseTimes := st_reviewedPrCloseTimes stats @ [closeTime],
                   st_prsByRepo := bumpRepo (repo pr) (st_prsByRepo stats) \<rparr>)
      else stats)"

text \<open>The body of the loop \<open>for (const review of pr.reviews)\<close>: the reviewer's accumulator
  is created on first sight and updated in place.\<close>

definition reviewerReview ::
  "zone \<Rightarrow> PRDetail \<Rightarrow> (string \<times> ReviewerStats) list \<Rightarrow> Review
     \<Rightarrow> (string \<times> ReviewerStats) list" where
  "reviewerReview z pr reviewerStats review =
     (let r = reviewer review;
          m = (if map_of reviewerStats r = None
               then AList.update r (newReviewerStats r) reviewerStats else reviewerStats);
          stats = (case map_of m r of None \<Rightarrow> newReviewerStats r | Some s \<Rightarrow> s);
          stats = stats\<lparr> st_totalReviews := st_totalReviews stats + 1 \<rparr>;
          stats = countState review stats;
          stats = stats\<lparr> st_totalInlineComments :=
                            st_totalInlineComments stats + inlineCommentCount review,
                          st_totalConversationComments :=
                            st_totalConversationComments stats
                              + conversationCommentCount review \<rparr>;
          stats = addResponseTime z pr review stats;
          stats = addPrSamples z pr stats
      in AList.update r stats m)"

text \<open>The body of the loop \<open>for (const pr of prDetails)\<close>, with its \<open>if (pr.error) continue\<close>.\<close>

definition reviewerPR ::
  "zone \<Rightarrow> (string \<times> ReviewerStats) list \<Rightarrow> PRDetail \<Rightarrow> (string \<times> ReviewerStats) list" where
  "reviewerPR z reviewerStats pr =
     (if truthyStr (error pr) then reviewerStats
      else foldl (reviewerReview z pr) reviewerStats (reviews pr))"

definition collectReviewerStats :: "zone \<Rightarrow> PRDetail list \<Rightarrow> (string \<times> ReviewerStats) list" where
  "collectReviewerStats z prDetails = foldl (reviewerPR z) [] prDetails"

text \<open>A row of the reviewer summary.  The per-repository counts that the source spreads
  into the row (\<open>...stats.prsByRepo\<close>) are kept in a field of their own; repository names
  are taken to differ from the names of the fixed fields.\<close>

record ReviewerSummary =
  rs_reviewer :: string
  rs_totalReviews :: int
  rs_prsReviewedCount :: int
  rs_approvals :: int
  rs_changesRequested :: int
  rs_commentOnlyReviews :: int
  rs_noCommentApprovals :: int
  rs_noCommentApprovalPct :: real
  rs_totalInlineComments :: int
  rs_totalConversationComments :: int
  rs_medianResponseHours :: "string option"
  rs_p90ResponseHours :: "string option"
  rs_fastestResponseHours :: "string option"
  rs_avgPrSizeReviewed :: int
  rs_avgPrProdLinesReviewed :: int
  rs_avgPrTestLinesReviewed :: int
  rs_avgIterationsPerPr :: string
  rs_avgReviewedPrCloseTime :: "string option"
  rs_prsWithMultipleRounds :: int
  rs_prsByRepo :: "(string \<times> int) list"

text \<open>The four statistics that the row prints with \<open>x ? x.toFixed(2) : null\<close>, as computed
  before printing.\<close>

definition medianResponse :: "ReviewerStats \<Rightarrow> real option" where
  "medianResponse stats = median (st_responseTimes stats)"

definition p90Response :: "ReviewerStats \<Rightarrow> real option" where
  "p90Response stats = percentile (st_responseTimes stats) (lit (9 / 10))"

definition fastestResponse :: "ReviewerStats \<Rightarrow> real option" where
  "fastestResponse stats =
     (if length (st_responseTimes stats) > 0 then Some (Math_min (st_responseTimes stats))
      else None)"

definition avgReviewedPrCloseTime :: "ReviewerStats \<Rightarrow> real option" where
  "avgReviewedPrCloseTime stats =
     (let a = avg (st_reviewedPrCloseTimes stats) in if a \<noteq> 0 then Some a else None)"

text \<open>\<open>x ? x.toFixed(2) : null\<close>.\<close>

definition fixed2OrNull :: "real option \<Rightarrow> string option" where
  "fixed2OrNull x = (if truthyNum x then map_option (toFixed 2) x else None)"

text \<open>The body of the loop \<open>for (const [reviewer, stats] of reviewerStats)\<close>.\<close>

definition reviewerRow :: "string \<times> ReviewerStats \<Rightarrow> ReviewerSummary" where
  "reviewerRow entry =
     (let stats = snd entry;
          avgPrSize = avg (map real_of_int (st_prSizesReviewed stats));
          avgProdLines = avg (map real_of_int (st_prProdLinesReviewed stats));
          avgTestLines = avg (map real_of_int (st_prTestLinesReviewed stats));
          avgIterations = avg (map real_of_int (st_iterationsPerPr stats));
          prsWithMultipleRounds = length (filter (\<lambda>i. i > 1) (st_iterationsPerPr stats));
          noCommentApprovalPct =
            (if st_approvals stats > 0
             then parseFloat (toFixedNum 1
                    (jsMul (jsDiv (real_of_int (st_noCommentApprovals stats))
                                  (real_of_int (st_approvals stats))) 100))
             else 0)
      in \<lparr> rs_reviewer = fst entry,
           rs_totalReviews = st_totalReviews stats,
           rs_prsReviewedCount = int (length (st_prsReviewed stats)),
           rs_approvals = st_approvals stats,
           rs_changesRequested = st_changesRequested stats,
           rs_commentOnlyReviews = st_commentOnlyReviews stats,
           rs_noCommentApprovals = st_noCommentApprovals stats,
           rs_noCommentApprovalPct = noCommentApprovalPct,
           rs_totalInlineComments = st_totalInlineComments stats,
           rs_totalConversationComments = st_totalConversationComments stats,
           rs_medianResponseHours = fixed2OrNull (medianResponse stats),
           rs_p90ResponseHours = fixed2OrNull (p90Response stats),
           rs_fastestResponseHours = fixed2OrNull (fastestResponse stats),
           rs_avgPrSizeReviewed = Math_round avgPrSize,
           rs_avgPrProdLinesReviewed = Math_round avgProdLines,
           rs_avgPrTestLinesReviewed = Math_round avgTestLines,
           rs_avgIterationsPerPr = toFixed 2 avgIterations,
           rs_avgReviewedPrCloseTime = fixed2OrNull (avgReviewedPrCloseTime stats),
           rs_prsWithMultipleRounds = int prsWithMultipleRounds,
           rs_prsByRepo = st_prsByRepo stats \<rparr>)"

text \<open>\<open>calculateReviewerSummary\<close>: collect, print, and sort by \<open>totalReviews\<close>, largest
  first (the sort is stable).\<close>

definition calculateReviewerSummary :: "zone \<Rightarrow> PRDetail list \<Rightarrow> ReviewerSummary list" where
  "calculateReviewerSummary z prDetails =
     (let reviewerStats = collectReviewerStats z prDetails;
          summary = map reviewerRow reviewerStats
      in sort_key (\<lambda>row. - rs_totalReviews row) summary)"

section \<open>Author aggregation\<close>

record AuthorStats =
  ast_author :: string
  ast_prsAuthored :: int
  ast_prSizes :: "int list"
  ast_prodLines :: "int list"
  ast_testLines :: "int list"
  ast_reviewTimes :: "real list"
  ast_closeTimes :: "real list"
  ast_reviewCounts :: "int list"
  ast_iterations :: "int list"
  ast_commitCounts :: "int list"
  ast_churnPercentages :: "real list"
  ast_fileChurnCounts :: "int list"
  ast_prsByRepo :: "(string \<times> int) list"

definition newAuthorStats :: "string \<Rightarrow> AuthorStats" where
  "newAuthorStats a =
     \<lparr> ast_author = a, ast_prsAuthored = 0, ast_prSizes = [], ast_prodLines = [],
       ast_testLines = [], ast_reviewTimes = [], ast_closeTimes = [], ast_reviewCounts = [],
       ast_iterations = [], ast_commitCounts = [], ast_churnPercentages = [],
       ast_fileChurnCounts = [], ast_prsByRepo = [] \<rparr>"

text \<open>\<open>pr.commitCount || 1\<close>, \<open>pr.churnPercentage || 0\<close> and \<open>pr.fileChurnCount || 0\<close>.\<close>

definition commitCountOr1 :: "PRDetail \<Rightarrow> int" where
  "commitCountOr1 pr = (case commitCount pr of None \<Rightarrow> 1 | Some c \<Rightarrow> if c = 0 then 1 else c)"

definition churnPercentageOr0 :: "PRDetail \<Rightarrow> real" where
  "churnPercentageOr0 pr = (case churnPercentage pr of None \<Rightarrow> 0 | Some c \<Rightarrow> c)"

definition fileChurnCountOr0 :: "PRDetail \<Rightarrow> int" where
  "fileChurnCountOr0 pr = (case fileChurnCount pr of None \<Rightarrow> 0 | Some c \<Rightarrow> c)"

text \<open>The body of the loop \<open>for (const pr of prDetails)\<close> of \<open>calculateAuthorSummary\<close>.\<close>

definition authorPR ::
  "zone \<Rightarrow> (string \<times> AuthorStats) list \<Rightarrow> PRDetail \<Rightarrow> (string \<times> AuthorStats) list" where
  "authorPR z authorStats pr =
     (if truthyStr (error pr) then authorStats
      else
        (let a = author pr;
             m = (if map_of authorStats a = None
                  then AList.update a (newAuthorStats a) authorStats else authorStats);
             stats = (case map_of m a of None \<Rightarrow> newAuthorStats a | Some s \<Rightarrow> s);
             stats = stats\<lparr>
               ast_prsAuthored := ast_prsAuthored stats + 1,
               ast_prSizes := ast_prSizes stats @ [totalAdditions pr + totalDeletions pr],
               ast_prodLines := ast_prodLines stats @ [prodAdditions pr + prodDeletions pr],
               ast_testLines := ast_testLines stats @ [testAdditions pr + testDeletions pr],
               ast_reviewCounts := ast_reviewCounts stats @ [int (length (reviews pr))],
               ast_iterations := ast_iterations stats @ [iterationCount pr],
               ast_commitCounts := ast_commitCounts stats @ [commitCountOr1 pr],
               ast_churnPercentages := ast_churnPercentages stats @ [churnPercentageOr0 pr],
               ast_fileChurnCounts := ast_fileChurnCounts stats @ [fileChurnCountOr0 pr] \<rparr>;
             stats =
               (case firstResponseAt pr of
                  None \<Rightarrow> stats
                | Some fr \<Rightarrow>
                    (let firstResponseTime = calculateWorkingHours z (createdAt pr) fr
                     in if firstResponseTime \<ge> 0
                        then stats\<lparr> ast_reviewTimes :=
                                      ast_reviewTimes stats @ [firstResponseTime] \<rparr>
                        else stats));
             closeTime = calculateWorkingHours z (createdAt pr) (mergedAt pr);
             stats = stats\<lparr> ast_closeTimes := ast_closeTimes stats @ [closeTime],
                             ast_prsByRepo := bumpRepo (repo pr) (ast_prsByRepo stats) \<rparr>
         in AList.update a stats m))"

record AuthorSummary =
  as_author :: string
  as_prsAuthored :: int
  as_authoredPrAvgSize :: int
  as_authoredPrAvgProdLines :: int
  as_authoredPrAvgTestLines :: int
  as_authoredPrAvgReviewTime :: "string option"
  as_authoredPrAvgCloseTime :: string
  as_authoredPrAvgReviewCount :: string
  as_authoredPrAvgIterations :: string
  as_authoredPrAvgCommits :: string
  as_authoredPrAvgChurnPct :: string
  as_authoredPrAvgFileChurn :: string
  as_prsByRepo :: "(string \<times> int) list"

definition authorRow :: "string \<times> AuthorStats \<Rightarrow> AuthorSummary" where
  "authorRow entry =
     (let stats = snd entry;
          avgSize = avg (map real_of_int (ast_prSizes stats));
          avgProdLines = avg (map real_of_int (ast_prodLines stats));
          avgTestLines = avg (map real_of_int (ast_testLines stats));
          avgReviewTime = (if length (ast_reviewTimes stats) > 0
                           then Some (avg (ast_reviewTimes stats)) else None);
          avgCloseTime = avg (ast_closeTimes stats);
          avgReviewCount = avg (map real_of_int (ast_reviewCounts stats));
          avgIterations = avg (map real_of_int (ast_iterations stats));
          avgCommits = avg (map real_of_int (ast_commitCounts stats));
          avgChurnPct = avg (ast_churnPercentages stats);
          avgFileChurn = avg (map real_of_int (ast_fileChurnCounts stats))
      in \<lparr> as_author = fst entry,
           as_prsAuthored = ast_prsAuthored stats,
           as_authoredPrAvgSize = Math_round avgSize,
           as_authoredPrAvgProdLines = Math_round avgProdLines,
           as_authoredPrAvgTestLines = Math_round avgTestLines,
           as_authoredPrAvgReviewTime = fixed2OrNull avgReviewTime,
           as_authoredPrAvgCloseTime = toFixed 2 avgCloseTime,
           as_authoredPrAvgReviewCount = toFixed 2 avgReviewCount,
           as_authoredPrAvgIterations = toFixed 2 avgIterations,
           as_authoredPrAvgCommits = toFixed 2 avgCommits,
           as_authoredPrAvgChurnPct = toFixed 1 avgChurnPct,
           as_authoredPrAvgFileChurn = toFixed 1 avgFileChurn,
           as_prsByRepo = ast_prsByRepo stats \<rparr>)"

definition collectAuthorStats :: "zone \<Rightarrow> PRDetail list \<Rightarrow> (string \<times> AuthorStats) list" where
  "collectAuthorStats z prDetails = foldl (authorPR z) [] prDetails"

definition calculateAuthorSummary :: "zone \<Rightarrow> PRDetail list \<Rightarrow> AuthorSummary list" where
  "calculateAuthorSummary z prDetails =
     (let authorStats = collectAuthorStats z prDetails;
          summary = map authorRow authorStats
      in sort_key (\<lambda>row. - as_prsAuthored row) summary)"

section \<open>Team aggregation\<close>

record TeamAuthored =
  ta_totalPRs :: int
  ta_totalDevelopers :: int
  ta_avgPrSize :: int
  ta_avgProdLines :: int
  ta_avgTestLines :: int
  ta_avgCloseTime :: "real option"
  ta_avgIterations :: real
  ta_avgChurnPct :: real
  ta_avgFileChurn :: real
  ta_avgCommitsPerPr :: real

record TeamReviewed =
  tr_totalReviews :: int
  tr_totalReviewers :: int
  tr_avgPrSizeReviewed :: int
  tr_avgProdLinesReviewed :: int
  tr_avgTestLinesReviewed :: int
  tr_medianResponseTime :: "real option"
  tr_overallNoCommentPct :: real
  tr_avgInlineComments :: real
  tr_avgIterationsPerPr :: real

record TeamSummary =
  authored :: TeamAuthored
  reviewed :: TeamReviewed

text \<open>\<open>weightedAvg(items, valueField, weightField)\<close>; a field name is the function that
  reads the field as a number (\<open>parseFloat(item[valueField]) || 0\<close>, \<open>item[weightField] || 0\<close>).\<close>

definition weightedAvg ::
  "ReviewerSummary list \<Rightarrow> (ReviewerSummary \<Rightarrow> real) \<Rightarrow> (ReviewerSummary \<Rightarrow> real) \<Rightarrow> real" where
  "weightedAvg items valueField weightField =
     (let acc = foldl (\<lambda>(totalWeight, weightedSum) item.
                         (jsAdd totalWeight (weightField item),
                          jsAdd weightedSum (jsMul (valueField item) (weightField item))))
                  (0, 0) items;
          totalWeight = fst acc;
          weightedSum = snd acc
      in if totalWeight > 0 then jsDiv weightedSum totalWeight else 0)"

text \<open>The four counters of the nested loop over the reviews of the valid PRs:
  \<open>(totalReviews, totalApprovals, totalNoCommentApprovals, totalInlineComments)\<close>.\<close>

definition countReview :: "int \<times> int \<times> int \<times> int \<Rightarrow> Review \<Rightarrow> int \<times> int \<times> int \<times> int" where
  "countReview c review =
     (case c of (totalReviews, totalApprovals, totalNoCommentApprovals, totalInlineComments) \<Rightarrow>
        (totalReviews + 1,
         (if state review = APPROVED then totalApprovals + 1 else totalApprovals),
         (if state review = APPROVED \<and> \<not> hasComments review
          then totalNoCommentApprovals + 1 else totalNoCommentApprovals),
         totalInlineComments + inlineCommentCount review))"

definition countReviews :: "PRDetail list \<Rightarrow> int \<times> int \<times> int \<times> int" where
  "countReviews validPRs =
     foldl (\<lambda>c pr. foldl countReview c (reviews pr)) (0, 0, 0, 0) validPRs"

text \<open>\<open>calculateTeamSummary\<close> of the collector.  The pool \<open>allResponseTimes\<close> is taken from
  the valid PRs that have a \<open>firstResponseAt\<close> (so the \<open>None\<close> branch of the \<open>case\<close> is never
  reached) and keeps the samples \<open>t > 0\<close>.\<close>

definition calculateTeamSummary ::
  "zone \<Rightarrow> AuthorSummary list \<Rightarrow> ReviewerSummary list \<Rightarrow> PRDetail list \<Rightarrow> TeamSummary" where
  "calculateTeamSummary z authorSummary reviewerSummary prDetails =
     (let validPRs = filter (\<lambda>p. \<not> truthyStr (error p)) prDetails;
          totalPRs = length validPRs;
          prSizes = map (\<lambda>p. real_of_int (totalAdditions p + totalDeletions p)) validPRs;
          prodLines = map (\<lambda>p. real_of_int (prodAdditions p + prodDeletions p)) validPRs;
          testLines = map (\<lambda>p. real_of_int (testAdditions p + testDeletions p)) validPRs;
          iterations = map (\<lambda>p. real_of_int (iterationCount p)) validPRs;
          closeTimes =
            filter (\<lambda>h. h > 0)
              (map (\<lambda>p. calculateWorkingHours z (createdAt p) (mergedAt p)) validPRs);
          churnPercentages =
            map churnPercentageOr0 (filter (\<lambda>p. churnPercentage p \<noteq> None) validPRs);
          fileChurnCounts =
            map (\<lambda>p. real_of_int (fileChurnCountOr0 p))
              (filter (\<lambda>p. fileChurnCount p \<noteq> None) validPRs);
          commitCounts = map (\<lambda>p. real_of_int (commitCountOr1 p)) validPRs;
          allResponseTimes =
            filter (\<lambda>t. t > 0)
              (map (\<lambda>p. calculateWorkingHours z (createdAt p)
                          (case firstResponseAt p of Some fr \<Rightarrow> fr | None \<Rightarrow> 0))
                 (filter (\<lambda>p. firstResponseAt p \<noteq> None) validPRs));
          c = countReviews validPRs;
          totalReviews = fst c;
          totalApprovals = fst (snd c);
          totalNoCommentApprovals = fst (snd (snd c));
          totalInlineComments = snd (snd (snd c));
          prsReviewedCount = (\<lambda>r. real_of_int (rs_prsReviewedCount r))
      in \<lparr> authored =
             \<lparr> ta_totalPRs = int totalPRs,
               ta_totalDevelopers = int (length authorSummary),
               ta_avgPrSize = Math_round (avg prSizes),
               ta_avgProdLines = Math_round (avg prodLines),
               ta_avgTestLines = Math_round (avg testLines),
               ta_avgCloseTime = (if length closeTimes > 0
                                  then Some (parseFloat (toFixedNum 2 (avg closeTimes)))
                                  else None),
               ta_avgIterations = parseFloat (toFixedNum 2 (avg iterations)),
               ta_avgChurnPct = (if length churnPercentages > 0
                                 then parseFloat (toFixedNum 1 (avg churnPercentages))
                                 else 0),
               ta_avgFileChurn = (if length fileChurnCounts > 0
                                  then parseFloat (toFixedNum 1 (avg fileChurnCounts))
                                  else 0),
               ta_avgCommitsPerPr = parseFloat (toFixedNum 2 (avg commitCounts)) \<rparr>,
           reviewed =
             \<lparr> tr_totalReviews = totalReviews,
               tr_totalReviewers = int (length reviewerSummary),
               tr_avgPrSizeReviewed =
                 Math_round (weightedAvg reviewerSummary
                               (\<lambda>r. real_of_int (rs_avgPrSizeReviewed r)) prsReviewedCount),
               tr_avgProdLinesReviewed =
                 Math_round (weightedAvg reviewerSummary
                               (\<lambda>r. real_of_int (rs_avgPrProdLinesReviewed r))
                               prsReviewedCount),
               tr_avgTestLinesReviewed =
                 Math_round (weightedAvg reviewerSummary
                               (\<lambda>r. real_of_int (rs_avgPrTestLinesReviewed r))
                               prsReviewedCount),
               tr_medianResponseTime =
                 (if length allResponseTimes > 0
                  then map_option (\<lambda>m. parseFloat (toFixedNum 2 m)) (median allResponseTimes)
                  else None),
               tr_overallNoCommentPct =
                 (if totalApprovals > 0
                  then parseFloat (toFixedNum 1
                         (jsMul (jsDiv (real_of_int totalNoCommentApprovals)
                                       (real_of_int totalApprovals)) 100))
                  else 0),
               tr_avgInlineComments =
                 (if totalReviews > 0
                  then parseFloat (toFixedNum 2
                         (jsDiv (real_of_int totalInlineComments) (real_of_int totalReviews)))
                  else 0),
               tr_avgIterationsPerPr = parseFloat (toFixedNum 2 (avg iterations)) \<rparr> \<rparr>)"

section \<open>The dashboard's fallback\<close>

record MetricsData =
  month :: string
  org :: string
  repos :: "string list"
  generatedAt :: string
  summary :: "ReviewerSummary list"
  authorSummary :: "AuthorSummary list"
  teamSummary :: "TeamSummary option"
  details :: "PRDetail list"

text \<open>\<open>computeTeamSummaryFallback\<close> of \<open>lib/utils.ts\<close>, which calls the dashboard's
  \<open>calculateWorkingHours\<close>.  Its pool \<open>allResponseTimes\<close> keeps the samples \<open>h >= 0\<close>.\<close>

definition computeTeamSummaryFallback ::
  "zone \<Rightarrow> MetricsData \<Rightarrow> TeamSummary" where
  "computeTeamSummaryFallback z data =
     (let validPRs = filter (\<lambda>p. \<not> truthyStr (error p)) (details data);
          totalPRs = length validPRs;
          prSizes = map (\<lambda>p. real_of_int (totalAdditions p + totalDeletions p)) validPRs;
          prodLines = map (\<lambda>p. real_of_int (prodAdditions p + prodDeletions p)) validPRs;
          testLines = map (\<lambda>p. real_of_int (testAdditions p + testDeletions p)) validPRs;
          iterations = map (\<lambda>p. real_of_int (iterationCount p)) validPRs;
          closeTimes =
            filter (\<lambda>h. h > 0)
              (map (\<lambda>p. calculateWorkingHours_utils z (Some (createdAt p)) (Some (mergedAt p))) validPRs);
          churnPercentages =
            map churnPercentageOr0 (filter (\<lambda>p. churnPercentage p \<noteq> None) validPRs);
          fileChurnCounts =
            map (\<lambda>p. real_of_int (fileChurnCountOr0 p))
              (filter (\<lambda>p. fileChurnCount p \<noteq> None) validPRs);
          commitCounts = map (\<lambda>p. real_of_int (commitCountOr1 p)) validPRs;
          allResponseTimes =
            filter (\<lambda>h. h \<ge> 0)
              (map (\<lambda>p. calculateWorkingHours_utils z (Some (createdAt p))
                          (firstResponseAt p))
                 (filter (\<lambda>p. firstResponseAt p \<noteq> None) validPRs));
          c = countReviews validPRs;
          totalReviews = fst c;
          totalApprovals = fst (snd c);
          totalNoCommentApprovals = fst (snd (snd c));
          totalInlineComments = snd (snd (snd c));
          prsReviewedCount = (\<lambda>r. real_of_int (rs_prsReviewedCount r))
      in \<lparr> authored =
             \<lparr> ta_totalPRs = int totalPRs,
               ta_totalDevelopers = int (length (authorSummary data)),
               ta_avgPrSize = Math_round (avg prSizes),
               ta_avgProdLines = Math_round (avg prodLines),
               ta_avgTestLines = Math_round (avg testLines),
               ta_avgCloseTime = (if length closeTimes > 0
                                  then Some (parseFloat (toFixedNum 2 (avg closeTimes)))
                                  else None),
               ta_avgIterations = parseFloat (toFixedNum 2 (avg iterations)),
               ta_avgChurnPct = (if length churnPercentages > 0
                                 then parseFloat (toFixedNum 1 (avg churnPercentages))
                                 else 0),
               ta_avgFileChurn = (if length fileChurnCounts > 0
                                  then parseFloat (toFixedNum 1 (avg fileChurnCounts))
                                  else 0),
               ta_avgCommitsPerPr = parseFloat (toFixedNum 2 (avg commitCounts)) \<rparr>,
           reviewed =
             \<lparr> tr_totalReviews = totalReviews,
               tr_totalReviewers = int (length (summary data)),
               tr_avgPrSizeReviewed =
                 Math_round (weightedAvg (summary data)
                               (\<lambda>r. real_of_int (rs_avgPrSizeReviewed r)) prsReviewedCount),
               tr_avgProdLinesReviewed =
                 Math_round (weightedAvg (summary data)
                               (\<lambda>r. real_of_int (rs_avgPrProdLinesReviewed r))
                               prsReviewedCount),
               tr_avgTestLinesReviewed =
                 Math_round (weightedAvg (summary data)
                               (\<lambda>r. real_of_int (rs_avgPrTestLinesReviewed r))
                               prsReviewedCount),
               tr_medianResponseTime =
                 (if length allResponseTimes > 0
                  then map_option (\<lambda>m. parseFloat (toFixedNum 2 m)) (median allResponseTimes)
                  else None),
               tr_overallNoCommentPct =
                 (if totalApprovals > 0
                  then parseFloat (toFixedNum 1
                         (jsMul (jsDiv (real_of_int totalNoCommentApprovals)
                                       (real_of_int totalApprovals)) 100))
                  else 0),
               tr_avgInlineComments =
                 (if totalReviews > 0
                  then parseFloat (toFixedNum 2
                         (jsDiv (real_of_int totalInlineComments) (real_of_int totalReviews)))
                  else 0),
               tr_avgIterationsPerPr = parseFloat (toFixedNum 2 (avg iterations)) \<rparr> \<rparr>)"

section \<open>Quality score\<close>

record Dev =
  avgSrcSize :: real
  avgSrcFiles :: real
  avgIterations :: real
  avgWorkingHoursToClose :: "real option"
  churnPct :: real

definition linesScore :: "Dev \<Rightarrow> real" where
  "linesScore dev =
     max 0 (min 100 (jsMul 100 (jsSub 1 (jsDiv (jsSub (avgSrcSize dev) 100) 300))))"

definition filesScore :: "Dev \<Rightarrow> real" where
  "filesScore dev =
     max 0 (min 100 (jsMul 100 (jsSub 1 (jsDiv (jsSub (avgSrcFiles dev) 4) 6))))"

definition sizeScore :: "Dev \<Rightarrow> real" where
  "sizeScore dev = jsDiv (jsAdd (linesScore dev) (filesScore dev)) 2"

definition closeTimeScore :: "Dev \<Rightarrow> real" where
  "closeTimeScore dev =
     (case avgWorkingHoursToClose dev of
        Some h \<Rightarrow> max 0 (min 100 (jsMul 100 (jsSub 1 (jsDiv (jsSub h 2) 6))))
      | None \<Rightarrow> 50)"

definition iterationScore :: "Dev \<Rightarrow> real" where
  "iterationScore dev =
     max 0 (min 100 (jsMul 100 (jsSub 1 (jsDiv (max 0 (jsSub (avgIterations dev) 1)) 3))))"

definition churnScore :: "Dev \<Rightarrow> real" where
  "churnScore dev = max 0 (jsMul 100 (jsSub 1 (jsDiv (churnPct dev) 50)))"

text \<open>\<open>calculateQualityScore\<close>; the team baseline \<open>teamAvg\<close> is not read.  The four
  products are added from the left.\<close>

definition calculateQualityScore :: "Dev \<Rightarrow> TeamAuthored \<Rightarrow> int" where
  "calculateQualityScore dev teamAvg =
     Math_round
       (jsAdd (jsAdd (jsAdd (jsMul (sizeScore dev) (lit (35 / 100)))
                            (jsMul (closeTimeScore dev) (lit (30 / 100))))
                     (jsMul (iterationScore dev) (lit (20 / 100))))
              (jsMul (churnScore dev) (lit (15 / 100))))"

text \<open>The score in the words of the specification, over the real numbers and without
  any rounding before the last step.  A sub-score is 100 up to a lower mark, 0 from an upper
  mark on and linear in between: source lines from 100 to 400 and source files from 4 to 10
  (the size score is their average), working hours to close from 2 to 8 (50 when there is
  no close-time data), iterations from 1 to 4, churn from 0 to 50 percent.  The score is
  the weighted sum of the four, rounded to the nearest integer.\<close>

definition ramp :: "real \<Rightarrow> real \<Rightarrow> real \<Rightarrow> real" where
  "ramp lo hi x =
     (if x \<le> lo then 100 else if hi \<le> x then 0 else 100 * (hi - x) / (hi - lo))"

definition sizeScoreSpec :: "Dev \<Rightarrow> real" where
  "sizeScoreSpec dev = (ramp 100 400 (avgSrcSize dev) + ramp 4 10 (avgSrcFiles dev)) / 2"

definition closeTimeScoreSpec :: "Dev \<Rightarrow> real" where
  "closeTimeScoreSpec dev =
     (case avgWorkingHoursToClose dev of Some h \<Rightarrow> ramp 2 8 h | None \<Rightarrow> 50)"

definition iterationScoreSpec :: "Dev \<Rightarrow> real" where
  "iterationScoreSpec dev = ramp 1 4 (avgIterations dev)"

definition churnScoreSpec :: "Dev \<Rightarrow> real" where
  "churnScoreSpec dev = ramp 0 50 (churnPct dev)"

definition weightedSumSpec :: "Dev \<Rightarrow> real" where
  "weightedSumSpec dev =
     sizeScoreSpec dev * (35 / 100) + closeTimeScoreSpec dev * (30 / 100)
       + iterationScoreSpec dev * (20 / 100) + churnScoreSpec dev * (15 / 100)"

definition qualityScoreSpec :: "Dev \<Rightarrow> int" where
  "qualityScoreSpec dev = Math_round (weightedSumSpec dev)"

section \<open>Review activity reducer (\<open>processPR\<close>)\<close>

text \<open>The records the fetch layer hands to \<open>processPR\<close>.  \<open>comment.user?.login\<close> and
  \<open>review.user\<close> may be missing; so may \<open>submitted_at\<close>, \<open>created_at\<close> of an inline comment and
  the review body.  A review carries the inline comments fetched for it (none when that
  fetch fails).\<close>

record RawPR =
  pr_repo :: string
  pr_number :: int
  pr_title :: string
  pr_author :: string
  pr_createdAt :: timestamp
  pr_mergedAt :: timestamp
  pr_url :: string

record RawComment =
  cc_user :: "string option"
  cc_created_at :: timestamp

record RawInlineComment =
  ic_created_at :: "timestamp option"

record RawReview =
  rr_user :: "string option"
  rr_state :: ReviewState
  rr_submitted_at :: "timestamp option"
  rr_body :: "utf16 option"
  rr_inlineComments :: "RawInlineComment list"

text \<open>The map \<open>userConversationCommentTimestamps\<close>, in insertion order; a comment without a
  (truthy) login is skipped.\<close>

definition addConversationComment ::
  "(string \<times> timestamp list) list \<Rightarrow> RawComment \<Rightarrow> (string \<times> timestamp list) list" where
  "addConversationComment m comment =
     (if truthyStr (cc_user comment) then
        (case cc_user comment of
           None \<Rightarrow> m
         | Some user \<Rightarrow>
             AList.update user
               ((case map_of m user of None \<Rightarrow> [] | Some ts \<Rightarrow> ts) @ [cc_created_at comment]) m)
      else m)"

definition conversationTimestampsMap :: "RawComment list \<Rightarrow> (string \<times> timestamp list) list" where
  "conversationTimestampsMap prConversationComments =
     foldl addConversationComment [] prConversationComments"

text \<open>\<open>ts.sort((a, b) => new Date(a) - new Date(b))[0]\<close> on a non-empty array: the earliest
  timestamp.\<close>

definition earliest :: "timestamp list \<Rightarrow> timestamp option" where
  "earliest ts = (case sort ts of [] \<Rightarrow> None | t # _ \<Rightarrow> Some t)"

text \<open>The code units that \<open>String.prototype.trim\<close> strips: the white space and the line
  terminators of the language specification (tab, line feed, vertical tab, form feed,
  carriage return, space, no-break space, the space separators of Unicode, line and
  paragraph separator, byte-order mark).\<close>

definition isWhiteSpace :: "nat \<Rightarrow> bool" where
  "isWhiteSpace c =
     (c \<in> set [0x09, 0x0A, 0x0B, 0x0C, 0x0D, 0x20, 0xA0, 0x1680, 0x2028, 0x2029, 0x202F,
                0x205F, 0x3000, 0xFEFF]
      \<or> (0x2000 \<le> c \<and> c \<le> 0x200A))"

text \<open>\<open>review.body && review.body.trim().length > 0\<close>: some character survives the
  trimming.\<close>

definition hasReviewBodyComment :: "utf16 option \<Rightarrow> bool" where
  "hasReviewBodyComment b =
     (case b of None \<Rightarrow> False
      | Some txt \<Rightarrow> list_ex (\<lambda>c. \<not> isWhiteSpace c) txt)"

text \<open>The activity timestamps of one review, in the order the source pushes them.\<close>

definition reviewerActivityTimestamps ::
  "(string \<times> timestamp list) list \<Rightarrow> string \<Rightarrow> RawReview \<Rightarrow> timestamp list" where
  "reviewerActivityTimestamps m login review =
     (case rr_submitted_at review of None \<Rightarrow> [] | Some s \<Rightarrow> [s])
     @ concat (map (\<lambda>ic. case ic_created_at ic of None \<Rightarrow> [] | Some t \<Rightarrow> [t])
                 (rr_inlineComments review))
     @ (case map_of m login of None \<Rightarrow> [] | Some ts \<Rightarrow> ts)"

definition processReview ::
  "(string \<times> timestamp list) list \<Rightarrow> string \<Rightarrow> RawReview \<Rightarrow> Review" where
  "processReview m login review =
     (let inlineComments = rr_inlineComments review;
          conversationTimestamps = (case map_of m login of None \<Rightarrow> [] | Some ts \<Rightarrow> ts);
          activity = reviewerActivityTimestamps m login review;
          firstActivity = (if length activity > 0 then earliest activity
                           else rr_submitted_at review)
      in \<lparr> reviewer = login,
           state = rr_state review,
           submittedAt = rr_submitted_at review,
           firstActivityAt = firstActivity,
           hasComments = (hasReviewBodyComment (rr_body review) \<or> length inlineComments > 0
                            \<or> length conversationTimestamps > 0),
           inlineCommentCount = int (length inlineComments),
           conversationCommentCount = int (length conversationTimestamps),
           body = (case rr_body review of None \<Rightarrow> [] | Some b \<Rightarrow> b) \<rparr>)"

text \<open>The loop \<open>for (const review of reviews)\<close> over the pair
  \<open>(processedReviews, allResponseTimestamps)\<close>.  Reading \<open>review.user.login\<close> of a review
  without user throws; the \<open>catch\<close> of \<open>processPR\<close> turns that into an error record, here
  \<open>Inl\<close> of the message.\<close>

fun reviewLoop ::
  "string \<Rightarrow> (string \<times> timestamp list) list \<Rightarrow> RawReview list
     \<Rightarrow> Review list \<times> timestamp list \<Rightarrow> string + Review list \<times> timestamp list" where
  "reviewLoop prAuthor m [] acc = Inr acc"
| "reviewLoop prAuthor m (review # rest) acc =
     (case rr_user review of
        None \<Rightarrow> Inl ''Cannot read properties of null (reading 'login')''
      | Some login \<Rightarrow>
          reviewLoop prAuthor m rest
            (fst acc @ [processReview m login review],
             if login \<noteq> prAuthor
             then snd acc @ sort (reviewerActivityTimestamps m login review)
             else snd acc))"

text \<open>\<open>processPR\<close> on the fetched data of one pull request: its files, its reviews, its
  conversation comments and its commits.\<close>

definition processPR ::
  "RawPR \<Rightarrow> FileChange list \<Rightarrow> RawReview list \<Rightarrow> RawComment list \<Rightarrow> Commit list
     \<Rightarrow> string + PRDetail" where
  "processPR pr prFiles rawReviews prConversationComments commits =
     (let fileMetrics = classifyFileChanges prFiles;
          m = conversationTimestampsMap prConversationComments;
          nonAuthor = concat (map snd (filter (\<lambda>entry. fst entry \<noteq> pr_author pr) m))
      in case reviewLoop (pr_author pr) m rawReviews ([], nonAuthor) of
           Inl msg \<Rightarrow> Inl msg
         | Inr (processedReviews, allResponseTimestamps) \<Rightarrow>
             (let firstResponse = (if length allResponseTimestamps > 0
                                   then earliest allResponseTimestamps else None);
                  churnMetrics = calculateChurnMetrics (Some commits)
              in Inr \<lparr> repo = pr_repo pr, number = pr_number pr, title = pr_title pr,
                       author = pr_author pr, createdAt = pr_createdAt pr,
                       mergedAt = pr_mergedAt pr, url = pr_url pr,
                       totalAdditions = fm_totalAdditions fileMetrics,
                       totalDeletions = fm_totalDeletions fileMetrics,
                       prodAdditions = fm_prodAdditions fileMetrics,
                       prodDeletions = fm_prodDeletions fileMetrics,
                       testAdditions = fm_testAdditions fileMetrics,
                       testDeletions = fm_testDeletions fileMetrics,
                       filesChanged = fm_filesChanged fileMetrics,
                       testFilesChanged = fm_testFilesChanged fileMetrics,
                       prodFilesChanged = fm_prodFilesChanged fileMetrics,
                       iterationCount = int (length processedReviews),
                       reviews = processedReviews,
                       error = None,
                       firstResponseAt = firstResponse,
                       commitCount = Some (if length commits = 0 then 1
                                           else int (length commits)),
                       churnPercentage = Some (cm_churnPercentage churnMetrics),
                       fileChurnCount = Some (cm_fileChurnCount churnMetrics) \<rparr>))"

text \<open>The response timestamps in the words of the specification: the activity timestamps
  of a review are its submission time, the creation times of its inline comments and the
  conversation-comment times of its reviewer; the response timestamps of a pull request are
  those of every review and every conversation comment whose login differs from the
  author's.  A conversation comment without login belongs to no participant.\<close>

definition conversationTimesOf :: "RawComment list \<Rightarrow> string \<Rightarrow> timestamp set" where
  "conversationTimesOf conv user =
     {t. \<exists>c\<in>set conv. cc_user c = Some user \<and> user \<noteq> [] \<and> cc_created_at c = t}"

definition reviewActivitySpec :: "RawComment list \<Rightarrow> string \<Rightarrow> RawReview \<Rightarrow> timestamp set" where
  "reviewActivitySpec conv user review =
     {t. rr_submitted_at review = Some t}
     \<union> {t. \<exists>ic\<in>set (rr_inlineComments review). ic_created_at ic = Some t}
     \<union> conversationTimesOf conv user"

definition responseTimestampsSpec ::
  "string \<Rightarrow> RawComment list \<Rightarrow> RawReview list \<Rightarrow> timestamp set" where
  "responseTimestampsSpec prAuthor conv rs =
     {t. \<exists>user. user \<noteq> prAuthor \<and> t \<in> conversationTimesOf conv user}
     \<union> {t. \<exists>review\<in>set rs. \<exists>user. rr_user review = Some user \<and> user \<noteq> prAuthor
              \<and> t \<in> reviewActivitySpec conv user review}"

text \<open>The conversation timestamps the map holds for a login (none for an unknown login).\<close>

definition tsOf :: "(string \<times> timestamp list) list \<Rightarrow> string \<Rightarrow> timestamp list" where
  "tsOf m user = (case map_of m user of None \<Rightarrow> [] | Some ts \<Rightarrow> ts)"

text \<open>A pull request by \<open>ann\<close>: the author comments on it at time 100 and reviews it at
  200; \<open>bob\<close> comments at 300, writes an inline comment at 400 and submits a review at
  500.\<close>

definition selfCommentPR :: RawPR where
  "selfCommentPR = \<lparr> pr_repo = ''fe-redesign'', pr_number = 7, pr_title = ''Add login form'',
     pr_author = ''ann'', pr_createdAt = 0, pr_mergedAt = 900, pr_url = ''u'' \<rparr>"

definition selfCommentConversation :: "RawComment list" where
  "selfCommentConversation =
     [\<lparr> cc_user = Some ''ann'', cc_created_at = 100 \<rparr>,
      \<lparr> cc_user = Some ''bob'', cc_created_at = 300 \<rparr>]"

definition selfCommentReviews :: "RawReview list" where
  "selfCommentReviews =
     [\<lparr> rr_user = Some ''ann'', rr_state = COMMENTED, rr_submitted_at = Some 200,
        rr_body = Some (map of_char ''note to self''), rr_inlineComments = [] \<rparr>,
      \<lparr> rr_user = Some ''bob'', rr_state = APPROVED, rr_submitted_at = Some 500,
        rr_body = None, rr_inlineComments = [\<lparr> ic_created_at = Some 400 \<rparr>] \<rparr>]"

text \<open>Three developers and a team baseline for the quality score.  For \<open>tieDev\<close> the size
  score is 90 and the other three sub-scores are 0, so the weighted sum of the
  specification is exactly 31.5; for \<open>nearTieDev\<close> it is exactly 62.5.\<close>

definition sampleDev :: Dev where
  "sampleDev = \<lparr> avgSrcSize = 250, avgSrcFiles = 7, avgIterations = 2,
     avgWorkingHoursToClose = None, churnPct = 10 \<rparr>"

definition tieDev :: Dev where
  "tieDev = \<lparr> avgSrcSize = 160, avgSrcFiles = 4, avgIterations = 4,
     avgWorkingHoursToClose = Some 8, churnPct = 50 \<rparr>"

definition nearTieDev :: Dev where
  "nearTieDev = \<lparr> avgSrcSize = 110, avgSrcFiles = 5, avgIterations = 1,
     avgWorkingHoursToClose = Some 7, churnPct = 30 \<rparr>"

definition sampleBaseline :: TeamAuthored where
  "sampleBaseline = \<lparr> ta_totalPRs = 10, ta_totalDevelopers = 3, ta_avgPrSize = 200,
     ta_avgProdLines = 150, ta_avgTestLines = 50, ta_avgCloseTime = Some 5,
     ta_avgIterations = 2, ta_avgChurnPct = 10, ta_avgFileChurn = 1,
     ta_avgCommitsPerPr = 3 \<rparr>"

section \<open>Example batches\<close>

text \<open>Timestamps of the examples, in the zone with offset 0: Thursday 1 January 1970 at
  10:00, 11:00 and 12:00 are 36000000, 39600000 and 43200000; Saturday 3 January 1970 at
  12:00, 13:00 and 14:00 are 216000000, 219600000 and 223200000.\<close>

definition approvalBy :: "string \<Rightarrow> timestamp \<Rightarrow> Review" where
  "approvalBy r t =
     \<lparr> reviewer = r, state = APPROVED, submittedAt = Some t, firstActivityAt = Some t,
       hasComments = False, inlineCommentCount = 0, conversationCommentCount = 0, body = [] \<rparr>"

text \<open>Pull request 12 of repository \<open>fe-redesign\<close>: opened on Thursday at 10:00, approved by
  \<open>bob\<close> at 11:00, merged at 12:00; 30 lines.\<close>

definition prFrontend12 :: PRDetail where
  "prFrontend12 =
     \<lparr> repo = ''fe-redesign'', number = 12, title = ''Add login form'', author = ''ann'',
       createdAt = 36000000, mergedAt = 43200000, url = ''https://example.org/fe/12'',
       totalAdditions = 20, totalDeletions = 10, prodAdditions = 20, prodDeletions = 10,
       testAdditions = 0, testDeletions = 0, filesChanged = 2, testFilesChanged = 0,
       prodFilesChanged = 2, iterationCount = 1,
       reviews = [approvalBy ''bob'' 39600000],
       error = None, firstResponseAt = Some 39600000, commitCount = Some 1,
       churnPercentage = Some 0, fileChurnCount = Some 0 \<rparr>"

text \<open>Pull request 12 of repository \<open>be-revamp\<close>: another pull request with the same number,
  400 lines, approved by \<open>bob\<close> as well.\<close>

definition prBackend12 :: PRDetail where
  "prBackend12 =
     prFrontend12 \<lparr> repo := ''be-revamp'', title := ''Rework billing'',
       url := ''https://example.org/be/12'', totalAdditions := 300, totalDeletions := 100,
       prodAdditions := 300, prodDeletions := 100 \<rparr>"

text \<open>A pull request opened, approved and merged on a Saturday: no working hours pass
  between any two of its timestamps.\<close>

definition prWeekend :: PRDetail where
  "prWeekend =
     prFrontend12 \<lparr> createdAt := 216000000, mergedAt := 223200000,
       reviews := [approvalBy ''bob'' 219600000], firstResponseAt := Some 219600000 \<rparr>"

text \<open>A record that carries an error field holding the empty string, and one that carries
  an error message.\<close>

definition prEmptyError :: PRDetail where
  "prEmptyError = prFrontend12 \<lparr> error := Some [] \<rparr>"

definition prFailed :: PRDetail where
  "prFailed = prFrontend12 \<lparr> error := Some ''Command failed: gh api'' \<rparr>"

definition weekendData :: MetricsData where
  "weekendData =
     \<lparr> month = ''1970-01'', org = ''thgenergy'', repos = [''fe-redesign''],
       generatedAt = ''1970-02-01T00:00:00.000Z'',
       summary = calculateReviewerSummary (fixedZone 0) [prWeekend],
       authorSummary = calculateAuthorSummary (fixedZone 0) [prWeekend],
       teamSummary = None, details = [prWeekend] \<rparr>"

section \<open>Properties of the rounding to a double\<close>

lemma rne_of_int [simp]: "rne (real_of_int n) = n"
  by (simp add: rne_def)

lemma rne_bounds: "\<lfloor>q\<rfloor> \<le> rne q" "rne q \<le> \<lfloor>q\<rfloor> + 1"
  by (simp_all add: rne_def Let_def)

lemma rne_mono: "q \<le> r \<Longrightarrow> rne q \<le> rne r"
proof -
  assume qr: "q \<le> r"
  have fm: "\<lfloor>q\<rfloor> \<le> \<lfloor>r\<rfloor>" using qr by (rule floor_mono)
  show ?thesis
  proof (cases "\<lfloor>q\<rfloor> = \<lfloor>r\<rfloor>")
    case True
    then have "q - real_of_int \<lfloor>q\<rfloor> \<le> r - real_of_int \<lfloor>r\<rfloor>" using qr by simp
    then show ?thesis using True by (auto simp: rne_def Let_def)
  next
    case False
    then have "\<lfloor>q\<rfloor> + 1 \<le> \<lfloor>r\<rfloor>" using fm by simp
    then show ?thesis using rne_bounds(2)[of q] rne_bounds(1)[of r] by linarith
  qed
qed

lemma ulp_pos: "0 < ulp x" by (simp add: ulp_def)

lemma binade_mono: "0 < x \<Longrightarrow> x \<le> y \<Longrightarrow> binade x \<le> binade y"
  by (simp add: binade_def floor_mono max.coboundedI1)

lemma binade_lower: "0 < x \<Longrightarrow> \<lfloor>log 2 x\<rfloor> = binade x \<Longrightarrow> 2 powr real_of_int (binade x) \<le> x"
proof -
  assume x: "0 < x" and b: "\<lfloor>log 2 x\<rfloor> = binade x"
  have "real_of_int (binade x) \<le> log 2 x" using b[symmetric] by simp
  then have "2 powr real_of_int (binade x) \<le> 2 powr log 2 x" by simp
  then show ?thesis using x by simp
qed

lemma binade_upper: "0 < x \<Longrightarrow> x < 2 powr (real_of_int (binade x) + 1)"
proof -
  assume x: "0 < x"
  have "log 2 x < real_of_int \<lfloor>log 2 x\<rfloor> + 1" by linarith
  also have "\<dots> \<le> real_of_int (binade x) + 1" by (simp add: binade_def)
  finally have "2 powr log 2 x < 2 powr (real_of_int (binade x) + 1)" by simp
  then show ?thesis using x by simp
qed

lemma flAbs_nonneg: "0 \<le> x \<Longrightarrow> 0 \<le> flAbs x"
proof -
  assume x: "0 \<le> x"
  have "0 \<le> x / ulp x" using x ulp_pos[of x] by simp
  then have "rne 0 \<le> rne (x / ulp x)" by (rule rne_mono)
  then have "0 \<le> rne (x / ulp x)" using rne_of_int[of 0] by simp
  then show ?thesis using ulp_pos[of x] by (simp add: flAbs_def)
qed

lemma two_powr_int: "2 powr real_of_int (int n) = 2 ^ n"
  by (simp add: powr_realpow)

lemma flAbs_upper:
  assumes "0 < x"
  shows "flAbs x \<le> 2 powr (real_of_int (binade x) + 1)"
proof -
  have "x / ulp x < 2 powr (real_of_int (binade x) + 1) / ulp x"
    using binade_upper[OF assms] ulp_pos[of x] by (simp add: divide_strict_right_mono)
  also have "\<dots> = 2 powr 53"
    by (simp add: ulp_def powr_diff[symmetric])
  also have "\<dots> = real_of_int (2 ^ 53)"
    using two_powr_int[of 53] by simp
  finally have "rne (x / ulp x) \<le> rne (real_of_int (2 ^ 53))"
    by (intro rne_mono) simp
  then have "real_of_int (rne (x / ulp x)) \<le> 2 powr 53"
    using two_powr_int[of 53] by (simp only: rne_of_int) simp
  then have "real_of_int (rne (x / ulp x)) * ulp x \<le> 2 powr 53 * ulp x"
    using ulp_pos[of x] by simp
  also have "\<dots> = 2 powr (real_of_int (binade x) + 1)"
    unfolding ulp_def powr_add[symmetric] by (simp add: ac_simps)
  finally show ?thesis using assms by (simp add: flAbs_def)
qed

lemma flAbs_lower:
  assumes "0 < x" and "\<lfloor>log 2 x\<rfloor> = binade x"
  shows "2 powr real_of_int (binade x) \<le> flAbs x"
proof -
  have "2 powr real_of_int (binade x) / ulp x \<le> x / ulp x"
    using binade_lower[OF assms] ulp_pos[of x] by (simp add: divide_right_mono)
  moreover have "2 powr real_of_int (binade x) / ulp x = real_of_int (2 ^ 52)"
    using two_powr_int[of 52] by (simp add: ulp_def powr_diff[symmetric])
  ultimately have "rne (real_of_int (2 ^ 52)) \<le> rne (x / ulp x)"
    by (intro rne_mono) simp
  then have "2 powr 52 \<le> real_of_int (rne (x / ulp x))"
    using two_powr_int[of 52] by (simp only: rne_of_int) simp
  then have "2 powr 52 * ulp x \<le> real_of_int (rne (x / ulp x)) * ulp x"
    using ulp_pos[of x] by simp
  moreover have "2 powr 52 * ulp x = 2 powr real_of_int (binade x)"
    unfolding ulp_def powr_add[symmetric] by simp
  ultimately show ?thesis using assms by (simp add: flAbs_def)
qed

lemma flAbs_mono:
  assumes "0 \<le> x" and "x \<le> y"
  shows "flAbs x \<le> flAbs y"
proof (cases "x = 0")
  case True
  then show ?thesis using flAbs_nonneg[of y] assms by (simp add: flAbs_def)
next
  case False
  then have x: "0 < x" and y: "0 < y" using assms by simp_all
  have bm: "binade x \<le> binade y" using binade_mono[OF x assms(2)] .
  show ?thesis
  proof (cases "binade x = binade y")
    case True
    then have u: "ulp x = ulp y" by (simp add: ulp_def)
    have "x / ulp y \<le> y / ulp y" using assms(2) ulp_pos[of y] by (simp add: divide_right_mono)
    then have "rne (x / ulp y) \<le> rne (y / ulp y)" by (rule rne_mono)
    then show ?thesis using x y u ulp_pos[of y] by (simp add: flAbs_def)
  next
    case False
    then have lt: "binade x + 1 \<le> binade y" using bm by simp
    have "- 1022 \<le> binade x" by (simp add: binade_def)
    then have gt: "- 1022 < binade y" using lt by linarith
    have "\<lfloor>log 2 y\<rfloor> = binade y"
      using gt unfolding binade_def by (simp add: max_def split: if_splits)
    then have "2 powr real_of_int (binade y) \<le> flAbs y" using flAbs_lower[OF y] by simp
    moreover have "2 powr (real_of_int (binade x) + 1) \<le> 2 powr real_of_int (binade y)"
      using lt by simp
    ultimately show ?thesis using flAbs_upper[OF x] by linarith
  qed
qed

lemma fl_mono: "x \<le> y \<Longrightarrow> fl x \<le> fl y"
proof -
  assume xy: "x \<le> y"
  consider "0 \<le> x" | "x < 0" "y < 0" | "x < 0" "0 \<le> y" by linarith
  then show ?thesis
  proof cases
    case 1
    then show ?thesis using xy flAbs_mono[of x y] by (simp add: fl_def)
  next
    case 2
    then show ?thesis using xy flAbs_mono[of "- y" "- x"] by (simp add: fl_def)
  next
    case 3
    then show ?thesis using flAbs_nonneg[of "- x"] flAbs_nonneg[of y] by (simp add: fl_def)
  qed
qed


lemma fl_0 [simp]: "fl 0 = 0"
  by (simp add: fl_def flAbs_def)

lemma fl_minus: "fl (- x) = - fl x"
  by (simp add: fl_def flAbs_def)

lemma fl_nonneg: "0 \<le> x \<Longrightarrow> 0 \<le> fl x"
  using fl_mono[of 0 x] by simp

lemma two_powr_nat: "0 \<le> k \<Longrightarrow> 2 powr real_of_int k = real_of_int (2 ^ nat k)"
  using two_powr_int[of "nat k"] by simp

lemma flAbs_exact:
  assumes "0 < m" and "m < 2 ^ 53" and "- 1074 \<le> j"
  shows "flAbs (real_of_int m * 2 powr real_of_int j) = real_of_int m * 2 powr real_of_int j"
proof -
  define x where "x = real_of_int m * 2 powr real_of_int j"
  have x: "0 < x" using assms(1) by (simp add: x_def)
  have "real_of_int m < real_of_int (2 ^ 53)" using assms(2) by (simp only: of_int_less_iff)
  then have "real_of_int m < 2 powr 53" using two_powr_int[of 53] by simp
  then have "x < 2 powr 53 * 2 powr real_of_int j" by (simp add: x_def)
  also have "\<dots> = 2 powr (53 + real_of_int j)" by (simp only: powr_add)
  finally have "log 2 x < 53 + real_of_int j" using x by (simp add: log_less_iff)
  then have "log 2 x < real_of_int (53 + j)" by simp
  then have "\<lfloor>log 2 x\<rfloor> < 53 + j" by (simp only: floor_less_iff)
  then have b: "binade x \<le> j + 52" using assms(3) by (simp add: binade_def)
  define k where "k = j + 52 - binade x"
  have k: "0 \<le> k" using b by (simp add: k_def)
  have "x / ulp x = real_of_int m * (2 powr real_of_int j / 2 powr (real_of_int (binade x) - 52))"
    by (simp add: x_def ulp_def)
  also have "2 powr real_of_int j / 2 powr (real_of_int (binade x) - 52) = 2 powr real_of_int k"
  proof -
    have "real_of_int j - (real_of_int (binade x) - 52) = real_of_int k" by (simp add: k_def)
    then show ?thesis unfolding powr_diff[symmetric] by (simp only:)
  qed
  also have "\<dots> = real_of_int (2 ^ nat k)" using two_powr_nat[OF k] .
  finally have "x / ulp x = real_of_int (m * 2 ^ nat k)" by simp
  then have "rne (x / ulp x) = m * 2 ^ nat k" by (simp only: rne_of_int)
  then have "real_of_int (rne (x / ulp x)) * ulp x = (x / ulp x) * ulp x"
    using \<open>x / ulp x = real_of_int (m * 2 ^ nat k)\<close> by simp
  also have "\<dots> = x" using ulp_pos[of x] by simp
  finally show ?thesis using x by (simp add: flAbs_def x_def)
qed

lemma fl_exact:
  assumes "\<bar>m\<bar> < 2 ^ 53" and "- 1074 \<le> j"
  shows "fl (real_of_int m * 2 powr real_of_int j) = real_of_int m * 2 powr real_of_int j"
proof -
  consider "m = 0" | "0 < m" | "m < 0" by linarith
  then show ?thesis
  proof cases
    case 1 then show ?thesis by simp
  next
    case 2
    then have "\<not> real_of_int m * 2 powr real_of_int j < 0" by (simp add: not_less)
    then show ?thesis using flAbs_exact[of m j] 2 assms by (simp add: fl_def)
  next
    case 3
    then have neg: "real_of_int m * 2 powr real_of_int j < 0" by (simp add: mult_neg_pos)
    have "flAbs (real_of_int (- m) * 2 powr real_of_int j) = real_of_int (- m) * 2 powr real_of_int j"
      using 3 assms by (intro flAbs_exact) simp_all
    then show ?thesis using neg by (simp add: fl_def)
  qed
qed

lemma fl_of_int: "\<bar>m\<bar> < 2 ^ 53 \<Longrightarrow> fl (real_of_int m) = real_of_int m"
  using fl_exact[of m 0] by simp

lemma fl_numeral [simp]: "(numeral k :: int) < 2 ^ 53 \<Longrightarrow> fl (numeral k) = numeral k"
  using fl_of_int[of "numeral k"] by simp

lemma fl_1 [simp]: "fl 1 = 1"
  using fl_of_int[of 1] by simp

lemma fl_dyadic:
  assumes "\<bar>m\<bar> < 2 ^ 53" and "n \<le> 1074"
  shows "fl (real_of_int m / 2 ^ n) = real_of_int m / 2 ^ n"
proof -
  have "2 powr real_of_int (- int n) = 1 / 2 ^ n"
    using two_powr_int[of n] by (simp add: powr_minus_divide)
  then show ?thesis using fl_exact[of m "- int n"] assms by simp
qed

lemma fl_scale_up:
  assumes "2 ^ 52 \<le> x * 2 ^ n" and "x * 2 ^ n < 2 ^ 53" and "n \<le> 1074"
  shows "fl x = real_of_int (rne (x * 2 ^ n)) / 2 ^ n"
proof -
  have x: "0 < x" using assms(1) by (smt (verit) mult_le_0_iff zero_less_power)
  have p: "2 powr real_of_int (52 - int n) = 2 ^ 52 / 2 ^ n"
    using two_powr_int[of n] two_powr_int[of 52] by (simp add: powr_diff)
  have q: "2 powr real_of_int (53 - int n) = 2 ^ 53 / 2 ^ n"
    using two_powr_int[of n] two_powr_int[of 53] by (simp add: powr_diff)
  have lo: "2 powr real_of_int (52 - int n) \<le> x"
    unfolding p using assms(1) by (simp add: field_simps)
  have hi: "x < 2 powr real_of_int (53 - int n)"
    unfolding q using assms(2) by (simp add: field_simps)
  have "real_of_int (52 - int n) \<le> log 2 x" using lo x by (simp add: le_log_iff)
  moreover have "log 2 x < real_of_int (53 - int n)" using hi x by (simp add: log_less_iff)
  ultimately have "\<lfloor>log 2 x\<rfloor> = 52 - int n" by (intro floor_unique) simp_all
  then have "binade x = 52 - int n" using assms(3) by (simp add: binade_def)
  then have "ulp x = 2 powr (- real n)" by (simp add: ulp_def)
  then have u: "ulp x = 1 / 2 ^ n" using two_powr_int[of n] by (simp add: powr_minus_divide)
  show ?thesis using x by (simp add: fl_def flAbs_def u)
qed

lemma fl_scale_down:
  assumes "2 ^ 52 \<le> x / 2 ^ n" and "x / 2 ^ n < 2 ^ 53"
  shows "fl x = real_of_int (rne (x / 2 ^ n)) * 2 ^ n"
proof -
  have x: "0 < x" using assms(1) by (smt (verit) divide_le_0_iff zero_less_power)
  have p: "2 powr real_of_int (52 + int n) = 2 ^ 52 * 2 ^ n"
    using two_powr_int[of n] two_powr_int[of 52] by (simp add: powr_add)
  have q: "2 powr real_of_int (53 + int n) = 2 ^ 53 * 2 ^ n"
    using two_powr_int[of n] two_powr_int[of 53] by (simp add: powr_add)
  have lo: "2 powr real_of_int (52 + int n) \<le> x"
    unfolding p using assms(1) by (simp add: field_simps)
  have hi: "x < 2 powr real_of_int (53 + int n)"
    unfolding q using assms(2) by (simp add: field_simps)
  have "real_of_int (52 + int n) \<le> log 2 x" using lo x by (simp add: le_log_iff)
  moreover have "log 2 x < real_of_int (53 + int n)" using hi x by (simp add: log_less_iff)
  ultimately have "\<lfloor>log 2 x\<rfloor> = 52 + int n" by (intro floor_unique) simp_all
  then have "binade x = 52 + int n" by (simp add: binade_def)
  then have "ulp x = 2 powr (real n)" by (simp add: ulp_def)
  then have u: "ulp x = 2 ^ n" using two_powr_int[of n] by simp
  show ?thesis using x by (simp add: fl_def flAbs_def u)
qed

lemma rne_error: "\<bar>real_of_int (rne q) - q\<bar> \<le> 1 / 2"
proof -
  have "real_of_int \<lfloor>q\<rfloor> \<le> q" "q < real_of_int \<lfloor>q\<rfloor> + 1" by linarith+
  then show ?thesis by (auto simp: rne_def Let_def)
qed

lemma flAbs_error:
  assumes "0 < x" and "x < 2 ^ k"
  shows "\<bar>flAbs x - x\<bar> \<le> 2 ^ k / 2 ^ 54"
proof -
  have "x < 2 powr real_of_int (int k)" using assms(2) two_powr_int[of k] by simp
  then have "log 2 x < real_of_int (int k)" using assms(1) by (simp add: log_less_iff)
  then have "\<lfloor>log 2 x\<rfloor> < int k" by (simp only: floor_less_iff)
  then have b: "binade x \<le> int k - 1" by (simp add: binade_def)
  have "ulp x \<le> 2 powr (real_of_int (int k - 1) - 52)"
    unfolding ulp_def using b by simp
  also have "\<dots> = 2 powr real_of_int (int k) / 2 powr 53"
    unfolding powr_diff[symmetric] by simp
  also have "\<dots> = 2 ^ k / 2 ^ 53" using two_powr_int[of k] two_powr_int[of 53] by simp
  finally have u: "ulp x \<le> 2 ^ k / 2 ^ 53" .
  have "\<bar>flAbs x - x\<bar> = \<bar>real_of_int (rne (x / ulp x)) - x / ulp x\<bar> * ulp x"
  proof -
    have "flAbs x - x = (real_of_int (rne (x / ulp x)) - x / ulp x) * ulp x"
      using assms(1) ulp_pos[of x] by (simp add: flAbs_def algebra_simps)
    then show ?thesis using ulp_pos[of x] by (simp add: abs_mult)
  qed
  also have "\<dots> \<le> 1 / 2 * ulp x"
    using rne_error[of "x / ulp x"] ulp_pos[of x] by (intro mult_right_mono) simp_all
  also have "\<dots> \<le> 1 / 2 * (2 ^ k / 2 ^ 53)" using u by simp
  finally show ?thesis by simp
qed

lemma fl_error:
  assumes "\<bar>x\<bar> < 2 ^ k"
  shows "\<bar>fl x - x\<bar> \<le> 2 ^ k / 2 ^ 54"
proof -
  consider "x = 0" | "0 < x" | "x < 0" by linarith
  then show ?thesis
  proof cases
    case 1 then show ?thesis by simp
  next
    case 2
    then show ?thesis using flAbs_error[of x k] assms by (simp add: fl_def)
  next
    case 3
    have "\<bar>- flAbs (- x) - x\<bar> = \<bar>flAbs (- x) - (- x)\<bar>" by (simp add: abs_minus_commute)
    then show ?thesis using 3 flAbs_error[of "- x" k] assms by (simp add: fl_def)
  qed
qed


section \<open>Properties of the time zones\<close>

lemma fixedZone_rep: "Rep_zone (fixedZone tz) = (\<lambda>t. t + tz, \<lambda>l. l - tz)"
  unfolding fixedZone_def
  by (rule Abs_zone_inverse) (simp add: MS_PER_DAY_def MS_PER_HOUR_def)

lemma LocalTime_fixedZone [simp]: "LocalTime (fixedZone tz) t = t + tz"
  by (simp add: LocalTime_def fixedZone_rep)

lemma UTC_fixedZone [simp]: "UTC (fixedZone tz) l = l - tz"
  by (simp add: UTC_def fixedZone_rep)

lemma switchZone_rep:
  assumes "\<bar>before - after\<bar> < MS_PER_DAY"
  shows "Rep_zone (switchZone before switch after) =
           (\<lambda>t. t + (if t < switch then before else after),
            \<lambda>l. if l - before < switch \<or> l - after < switch then l - before else l - after)"
proof -
  have "(\<lambda>t. t + (if t < switch then before else after),
         \<lambda>l. if l - before < switch \<or> l - after < switch then l - before else l - after)
        \<in> {z :: (int \<Rightarrow> int) \<times> (int \<Rightarrow> int). \<forall>t. t < snd z (fst z t + MS_PER_DAY)}"
    using assms by auto
  then show ?thesis using assms by (simp add: switchZone_def Abs_zone_inverse)
qed

lemma LocalTime_switchZone:
  "\<bar>before - after\<bar> < MS_PER_DAY \<Longrightarrow>
   LocalTime (switchZone before switch after) t = t + (if t < switch then before else after)"
  by (simp add: LocalTime_def switchZone_rep)

lemma UTC_switchZone:
  "\<bar>before - after\<bar> < MS_PER_DAY \<Longrightarrow>
   UTC (switchZone before switch after) l =
     (if l - before < switch \<or> l - after < switch then l - before else l - after)"
  by (simp add: UTC_def switchZone_rep)

lemma nextDate_later: "t < nextDate z t"
  using Rep_zone[of z] by (simp add: nextDate_def UTC_def LocalTime_def)

section \<open>Properties of the working-hours calculator\<close>

lemma calculateWorkingHours_utils_eq:
  "calculateWorkingHours_utils z (Some s) (Some e) = calculateWorkingHours z s e"
  by (simp add: calculateWorkingHours_utils_def calculateWorkingHours_def)

lemma walkDays_stop: "\<not> c < e \<Longrightarrow> walkDays z s e c h = h"
  by (subst walkDays.simps) simp

lemma walkDays_step:
  "c < e \<Longrightarrow> walkDays z s e c h = walkDays z s e (nextDate z c) (dayHoursToRemove z s e c h)"
  by (subst walkDays.simps) simp

lemma dayHoursToRemove_weekend:
  "getDay z c = 0 \<or> getDay z c = 6 \<Longrightarrow>
   dayHoursToRemove z s e c h =
     (if max s c < min e (nextDate z c)
      then jsAdd h (hoursBetween (max s c) (min e (nextDate z c))) else h)"
  by (simp add: dayHoursToRemove_def Let_def)

lemma dayHoursToRemove_weekday:
  "getDay z c \<noteq> 0 \<Longrightarrow> getDay z c \<noteq> 6 \<Longrightarrow>
   dayHoursToRemove z s e c h =
     (let h1 = (if max s (setHours z c 18) < min e (nextDate z c)
                then jsAdd h (hoursBetween (max s (setHours z c 18)) (min e (nextDate z c)))
                else h)
      in if max s c < min e (setHours z c 10)
         then jsAdd h1 (hoursBetween (max s c) (min e (setHours z c 10))) else h1)"
  by (simp add: dayHoursToRemove_def Let_def)

text \<open>A span of \<open>q\<close> quarters of an hour is \<open>q / 4\<close> hours, without rounding; so are sums
  and differences of such numbers.\<close>

lemma hoursBetween_quarters:
  assumes "b - a = q * MS_PER_QUARTER" and "\<bar>q\<bar> \<le> 1000000"
  shows "hoursBetween a b = real_of_int q / 4"
proof -
  have "real_of_int b - real_of_int a = real_of_int (q * 900000)"
    using assms(1) by (simp add: MS_PER_QUARTER_def flip: of_int_diff)
  moreover have "\<bar>q * 900000\<bar> < 2 ^ 53" using assms(2) by (simp add: abs_mult)
  ultimately have 1: "jsSub (real_of_int b) (real_of_int a) = real_of_int (q * 900000)"
    unfolding jsSub_def using fl_of_int[of "q * 900000"] by (simp only:)
  have 2: "real_of_int (q * 900000) / real_of_int MS_PER_HOUR = real_of_int q / 2 ^ 2"
    by (simp add: MS_PER_HOUR_def)
  have 3: "fl (real_of_int q / 2 ^ 2) = real_of_int q / 2 ^ 2"
    using assms(2) by (intro fl_dyadic) simp_all
  show ?thesis unfolding hoursBetween_def jsDiv_def 1 2 3 by simp
qed

lemma jsAdd_quarters:
  assumes "\<bar>p\<bar> \<le> 1000000" and "\<bar>q\<bar> \<le> 1000000"
  shows "jsAdd (real_of_int p / 4) (real_of_int q / 4) = real_of_int (p + q) / 4"
proof -
  have "fl (real_of_int (p + q) / 2 ^ 2) = real_of_int (p + q) / 2 ^ 2"
    using assms by (intro fl_dyadic) simp_all
  moreover have "real_of_int p / 4 + real_of_int q / 4 = real_of_int (p + q) / 2 ^ 2" by simp
  ultimately show ?thesis unfolding jsAdd_def by (simp only:) simp
qed

lemma jsSub_quarters:
  assumes "\<bar>p\<bar> \<le> 1000000" and "\<bar>q\<bar> \<le> 1000000"
  shows "jsSub (real_of_int p / 4) (real_of_int q / 4) = real_of_int (p - q) / 4"
proof -
  have "fl (real_of_int (p - q) / 2 ^ 2) = real_of_int (p - q) / 2 ^ 2"
    using assms by (intro fl_dyadic) simp_all
  moreover have "real_of_int p / 4 - real_of_int q / 4 = real_of_int (p - q) / 2 ^ 2"
    by (simp add: diff_divide_distrib)
  ultimately show ?thesis unfolding jsSub_def by (simp only:) simp
qed

text \<open>What a plain day says about the wall-clock readings the walk uses.\<close>

lemma plainDay_wall:
  assumes "plainDay z d"
  obtains off where
    "\<And>h. 0 \<le> h \<Longrightarrow> h \<le> 24 \<Longrightarrow> wall z d h = d * MS_PER_DAY + h * MS_PER_HOUR - off"
    "\<And>h. 0 \<le> h \<Longrightarrow> h \<le> 24 \<Longrightarrow> LocalTime z (wall z d h) = d * MS_PER_DAY + h * MS_PER_HOUR"
    "wall z (d + 1) 0 = wall z d 24"
proof -
  from assms obtain off where off:
    "\<And>l. d * MS_PER_DAY \<le> l \<Longrightarrow> l \<le> (d + 1) * MS_PER_DAY
          \<Longrightarrow> UTC z l = l - off \<and> LocalTime z (l - off) = l"
    unfolding plainDay_def by blast
  have r: "d * MS_PER_DAY \<le> d * MS_PER_DAY + h * MS_PER_HOUR \<and>
           d * MS_PER_DAY + h * MS_PER_HOUR \<le> (d + 1) * MS_PER_DAY"
    if "0 \<le> h" "h \<le> 24" for h
    using that by (simp add: MS_PER_DAY_def MS_PER_HOUR_def algebra_simps)
  have 1: "wall z d h = d * MS_PER_DAY + h * MS_PER_HOUR - off" if "0 \<le> h" "h \<le> 24" for h
    using off[of "d * MS_PER_DAY + h * MS_PER_HOUR"] r[OF that] by (simp add: wall_def)
  have 2: "LocalTime z (wall z d h) = d * MS_PER_DAY + h * MS_PER_HOUR"
    if "0 \<le> h" "h \<le> 24" for h
    using off[of "d * MS_PER_DAY + h * MS_PER_HOUR"] r[OF that] 1[OF that] by simp
  have 3: "wall z (d + 1) 0 = wall z d 24"
    by (simp add: wall_def MS_PER_DAY_def algebra_simps)
  show thesis using that[of off] 1 2 3 by blast
qed

lemma localDay_readings:
  assumes "LocalTime z t = d * MS_PER_DAY + h * MS_PER_HOUR" and "0 \<le> h" and "h < 24"
  shows "localDay z t = d"
proof -
  have "(d * 86400000 + h * 3600000) div 86400000 = d + (h * 3600000) div (86400000::int)"
    by (metis add.commute div_mult_self2 mult.commute zero_neq_numeral)
  moreover have "(h * 3600000) div (86400000::int) = 0"
    using assms(2,3) by (simp add: div_pos_pos_trivial)
  ultimately show ?thesis
    using assms(1) unfolding localDay_def MS_PER_DAY_def MS_PER_HOUR_def by simp
qed
lemma localDay_midnight:
  assumes "LocalTime z t = d * MS_PER_DAY"
  shows "localDay z t = d" "nextDate z t = wall z (d + 1) 0" "setHours z t h = wall z d h"
proof -
  show 1: "localDay z t = d"
    using localDay_readings[of z t d 0] assms by simp
  show "nextDate z t = wall z (d + 1) 0"
    using assms by (simp add: nextDate_def wall_def algebra_simps)
  show "setHours z t h = wall z d h"
    using 1 by (simp add: setHours_def wall_def)
qed

text \<open>
  \<^bold>\<open>C1\<close> (weekend-spanning scenario).  In every zone, for a start on a Friday at 16:00
  local time (local day \<open>d\<close>, \<open>getDay\<close> 5) and an end on the following Monday (local day
  \<open>d + 3\<close>) at 11:00 local time, \<open>calculateWorkingHours\<close> returns exactly 3, provided the
  zone keeps one offset during the Friday and one during the Monday, and the Saturday and
  the Sunday in between start at midnight and last a whole number of quarters of an hour
  (at most 48 hours each): 96 and 96 quarters on an ordinary weekend, 92 or 100 for the
  day of a daylight-saving switch.  The walk removes 6 hours of Friday evening, the whole
  Saturday and Sunday, whatever they last, and 10 hours of Monday morning.
\<close>

theorem calculateWorkingHours_friday_to_monday:
  assumes fri: "getDay z (wall z d 16) = 5"
    and pF: "plainDay z d" and sat: "dayLasts z (d + 1) a" and sun: "dayLasts z (d + 2) b"
    and pM: "plainDay z (d + 3)" and a: "a \<le> 192" and b: "b \<le> 192"
  shows "calculateWorkingHours z (wall z d 16) (wall z (d + 3) 11) = 3"
proof -
  obtain oF where
    F1: "\<And>h. 0 \<le> h \<Longrightarrow> h \<le> 24 \<Longrightarrow> wall z d h = d * MS_PER_DAY + h * MS_PER_HOUR - oF" and
    F2: "\<And>h. 0 \<le> h \<Longrightarrow> h \<le> 24 \<Longrightarrow> LocalTime z (wall z d h) = d * MS_PER_DAY + h * MS_PER_HOUR" and
    F3: "wall z (d + 1) 0 = wall z d 24"
    using plainDay_wall[OF pF] by blast
  obtain oM where
    M1: "\<And>h. 0 \<le> h \<Longrightarrow> h \<le> 24 \<Longrightarrow>
           wall z (d + 3) h = (d + 3) * MS_PER_DAY + h * MS_PER_HOUR - oM" and
    M2: "\<And>h. 0 \<le> h \<Longrightarrow> h \<le> 24 \<Longrightarrow>
           LocalTime z (wall z (d + 3) h) = (d + 3) * MS_PER_DAY + h * MS_PER_HOUR" and
    M3: "wall z (d + 3 + 1) 0 = wall z (d + 3) 24"
    using plainDay_wall[OF pM] by blast
  define S E c0 c1 c2 c3 c4 where
    "S = wall z d 16" and "E = wall z (d + 3) 11" and "c0 = wall z d 0" and
    "c1 = wall z (d + 1) 0" and "c2 = wall z (d + 2) 0" and "c3 = wall z (d + 3) 0" and
    "c4 = wall z (d + 3) 24"
  note defs = S_def E_def c0_def c1_def c2_def c3_def c4_def
  text \<open>The days of the week.\<close>
  have dS: "localDay z S = d"
    using localDay_readings[of z S d 16] F2[of 16] by (simp add: S_def)
  then have m: "(d + 4) mod 7 = 5" using fri by (simp add: getDay_def S_def)
  have l0: "LocalTime z c0 = d * MS_PER_DAY" using F2[of 0] by (simp add: c0_def)
  have l1: "LocalTime z c1 = (d + 1) * MS_PER_DAY" using sat by (simp add: dayLasts_def c1_def)
  have l2: "LocalTime z c2 = (d + 2) * MS_PER_DAY" using sun by (simp add: dayLasts_def c2_def)
  have l3: "LocalTime z c3 = (d + 3) * MS_PER_DAY" using M2[of 0] by (simp add: c3_def)
  have g0: "getDay z c0 = 5" using m localDay_midnight(1)[OF l0] by (simp add: getDay_def)
  have g1: "getDay z c1 = 6"
    using m localDay_midnight(1)[OF l1] by (simp add: getDay_def) presburger
  have g2: "getDay z c2 = 0"
    using m localDay_midnight(1)[OF l2] by (simp add: getDay_def) presburger
  have g3: "getDay z c3 = 1"
    using m localDay_midnight(1)[OF l3] by (simp add: getDay_def) presburger
  text \<open>The steps of the walk.\<close>
  have start: "setHours z S 0 = c0" using dS by (simp add: setHours_def wall_def c0_def)
  have n0: "nextDate z c0 = c1" using localDay_midnight(2)[OF l0] by (simp add: c1_def)
  have n1: "nextDate z c1 = c2"
    using localDay_midnight(2)[OF l1] by (simp add: c2_def add.commute)
  have n2: "nextDate z c2 = c3"
    using localDay_midnight(2)[OF l2] by (simp add: c3_def add.commute)
  have n3: "nextDate z c3 = c4"
    using localDay_midnight(2)[OF l3] M3 by (simp add: c4_def add.commute)
  have e0: "setHours z c0 18 = wall z d 18" "setHours z c0 10 = wall z d 10"
    using localDay_midnight(3)[OF l0] by simp_all
  have e3: "setHours z c3 18 = wall z (d + 3) 18" "setHours z c3 10 = wall z (d + 3) 10"
    using localDay_midnight(3)[OF l3] by simp_all
  text \<open>The instants, as numbers.\<close>
  have vS: "S = d * 86400000 + 57600000 - oF"
    using F1[of 16] by (simp add: S_def MS_PER_DAY_def MS_PER_HOUR_def)
  have v0: "c0 = d * 86400000 - oF"
    using F1[of 0] by (simp add: c0_def MS_PER_DAY_def MS_PER_HOUR_def)
  have v10: "wall z d 10 = d * 86400000 + 36000000 - oF"
    using F1[of 10] by (simp add: MS_PER_DAY_def MS_PER_HOUR_def)
  have v18: "wall z d 18 = d * 86400000 + 64800000 - oF"
    using F1[of 18] by (simp add: MS_PER_DAY_def MS_PER_HOUR_def)
  have v1: "c1 = d * 86400000 + 86400000 - oF"
    using F1[of 24] F3 by (simp add: c1_def MS_PER_DAY_def MS_PER_HOUR_def)
  have v2: "c2 = c1 + a * 900000"
    using sat by (simp add: dayLasts_def c1_def c2_def MS_PER_QUARTER_def add.commute)
  have v3: "c3 = c2 + b * 900000"
    using sun by (simp add: dayLasts_def c2_def c3_def MS_PER_QUARTER_def add.commute)
  have w3: "c3 = d * 86400000 + 259200000 - oM"
    using M1[of 0] by (simp add: c3_def MS_PER_DAY_def MS_PER_HOUR_def algebra_simps)
  have w10: "wall z (d + 3) 10 = c3 + 36000000"
    using M1[of 10] w3 by (simp add: MS_PER_DAY_def MS_PER_HOUR_def algebra_simps)
  have w18: "wall z (d + 3) 18 = c3 + 64800000"
    using M1[of 18] w3 by (simp add: MS_PER_DAY_def MS_PER_HOUR_def algebra_simps)
  have vE: "E = c3 + 39600000"
    using M1[of 11] w3 by (simp add: E_def MS_PER_DAY_def MS_PER_HOUR_def algebra_simps)
  have v4: "c4 = c3 + 86400000"
    using M1[of 24] w3 by (simp add: c4_def MS_PER_DAY_def MS_PER_HOUR_def algebra_simps)
  have a0: "0 < a" using nextDate_later[of c1 z] n1 v2 by simp
  have b0: "0 < b" using nextDate_later[of c2 z] n2 v3 by simp
  text \<open>The four passes of the loop.\<close>
  have fri_evening: "hoursBetween (wall z d 18) c1 = real_of_int 24 / 4"
    by (rule hoursBetween_quarters) (simp_all add: v18 v1 MS_PER_QUARTER_def)
  have r0: "dayHoursToRemove z S E c0 0 = real_of_int 24 / 4"
  proof -
    have o: "max S (wall z d 18) = wall z d 18" "min E c1 = c1" "wall z d 18 < c1"
         "\<not> S < wall z d 10"
      using a0 b0 by (simp_all add: vS v18 v1 vE v2 v3 v0 v10)
    show ?thesis
      by (simp add: dayHoursToRemove_weekday g0 n0 e0 o fri_evening jsAdd_def)
  qed
  have saturday: "hoursBetween c1 c2 = real_of_int a / 4"
    by (rule hoursBetween_quarters) (use a a0 in \<open>simp_all add: v2 MS_PER_QUARTER_def\<close>)
  have r1: "dayHoursToRemove z S E c1 (real_of_int 24 / 4) = real_of_int (24 + a) / 4"
  proof -
    have o: "max S c1 = c1" "min E c2 = c2" "c1 < c2"
      using a0 b0 by (simp_all add: vS v1 vE v2 v3)
    have "dayHoursToRemove z S E c1 h = jsAdd h (hoursBetween c1 c2)" for h
      by (simp add: dayHoursToRemove_weekend g1 n1 o)
    then show ?thesis
      unfolding saturday by (simp only:) (rule jsAdd_quarters, use a a0 in simp_all)
  qed
  have sunday: "hoursBetween c2 c3 = real_of_int b / 4"
    by (rule hoursBetween_quarters) (use b b0 in \<open>simp_all add: v3 MS_PER_QUARTER_def\<close>)
  have r2: "dayHoursToRemove z S E c2 (real_of_int (24 + a) / 4) = real_of_int (24 + a + b) / 4"
  proof -
    have o: "max S c2 = c2" "min E c3 = c3" "c2 < c3"
      using a0 b0 by (simp_all add: vS v1 vE v2 v3)
    have "dayHoursToRemove z S E c2 h = jsAdd h (hoursBetween c2 c3)" for h
      by (simp add: dayHoursToRemove_weekend g2 n2 o)
    then show ?thesis
      unfolding sunday by (simp only:) (rule jsAdd_quarters, use a a0 b b0 in simp_all)
  qed
  have mon_morning: "hoursBetween c3 (wall z (d + 3) 10) = real_of_int 40 / 4"
    by (rule hoursBetween_quarters) (simp_all add: w10 MS_PER_QUARTER_def)
  have r3: "dayHoursToRemove z S E c3 (real_of_int (24 + a + b) / 4)
              = real_of_int (64 + a + b) / 4"
  proof -
    have o: "\<not> wall z (d + 3) 18 < E" "max S c3 = c3"
         "min E (wall z (d + 3) 10) = wall z (d + 3) 10" "c3 < wall z (d + 3) 10"
      using a0 b0 by (simp_all add: vS v1 vE v2 v3 v4 w10 w18)
    have "dayHoursToRemove z S E c3 h = jsAdd h (hoursBetween c3 (wall z (d + 3) 10))" for h
      by (simp add: dayHoursToRemove_weekday g3 n3 e3 o)
    moreover have "jsAdd (real_of_int (24 + a + b) / 4) (real_of_int 40 / 4)
            = real_of_int (24 + a + b + 40) / 4"
      by (rule jsAdd_quarters) (use a a0 b b0 in simp_all)
    moreover have "24 + a + b + 40 = 64 + a + b" by simp
    ultimately show ?thesis
      unfolding mon_morning by (simp only:)
  qed
  have lt: "c0 < E" "c1 < E" "c2 < E" "c3 < E" "\<not> c4 < E"
    using a0 b0 by (simp_all add: v0 v1 vE v2 v3 v4)
  have walk: "walkDays z S E c0 0 = real_of_int (64 + a + b) / 4"
    by (simp only: walkDays_step walkDays_stop lt n0 n1 n2 n3 r0 r1 r2 r3 simp_thms)
  have total: "hoursBetween S E = real_of_int (76 + a + b) / 4"
    by (rule hoursBetween_quarters)
       (use a a0 b b0 in \<open>simp_all add: vS vE v3 v2 v1 MS_PER_QUARTER_def\<close>)
  have "jsSub (real_of_int (76 + a + b) / 4) (real_of_int (64 + a + b) / 4)
          = real_of_int (76 + a + b - (64 + a + b)) / 4"
    by (rule jsSub_quarters) (use a a0 b b0 in simp_all)
  then have diff: "jsSub (real_of_int (76 + a + b) / 4) (real_of_int (64 + a + b) / 4) = 3"
    by simp
  have "\<not> E \<le> S" using a0 b0 by (simp add: vS vE v3 v2 v1)
  then show ?thesis
    unfolding calculateWorkingHours_def Let_def S_def[symmetric] E_def[symmetric]
    by (simp only: if_False start walk total diff)
qed

text \<open>The scenario on the weekend on which daylight-saving time started in the United
  States in 2026.  Friday 6 March 2026 is local day 20518; 16:00 Eastern Standard Time is
  21:00 UTC.  Monday 9 March, 11:00 Eastern Daylight Time, is 15:00 UTC, 66 hours later:
  the Saturday lasts 96 quarters of an hour, the Sunday 92.\<close>

lemma LocalTime_usEastern2026:
  "LocalTime usEastern2026 t = t + (if t < 1772953200000 then - 18000000 else - 14400000)"
  unfolding usEastern2026_def
  by (subst LocalTime_switchZone) (simp_all add: MS_PER_DAY_def MS_PER_HOUR_def)

lemma UTC_usEastern2026:
  "UTC usEastern2026 l =
     (if l + 18000000 < 1772953200000 \<or> l + 14400000 < 1772953200000
      then l + 18000000 else l + 14400000)"
  unfolding usEastern2026_def
  by (subst UTC_switchZone) (simp_all add: MS_PER_DAY_def MS_PER_HOUR_def)

lemma plainDay_usEastern2026: "plainDay usEastern2026 20518" "plainDay usEastern2026 20521"
proof -
  have "\<forall>l. 20518 * MS_PER_DAY \<le> l \<and> l \<le> (20518 + 1) * MS_PER_DAY
          \<longrightarrow> UTC usEastern2026 l = l - (- 18000000)
              \<and> LocalTime usEastern2026 (l - (- 18000000)) = l"
    by (simp add: UTC_usEastern2026 LocalTime_usEastern2026 MS_PER_DAY_def MS_PER_HOUR_def)
  then show "plainDay usEastern2026 20518" unfolding plainDay_def by (rule exI)
  have "\<forall>l. 20521 * MS_PER_DAY \<le> l \<and> l \<le> (20521 + 1) * MS_PER_DAY
          \<longrightarrow> UTC usEastern2026 l = l - (- 14400000)
              \<and> LocalTime usEastern2026 (l - (- 14400000)) = l"
    by (simp add: UTC_usEastern2026 LocalTime_usEastern2026 MS_PER_DAY_def MS_PER_HOUR_def)
  then show "plainDay usEastern2026 20521" unfolding plainDay_def by (rule exI)
qed

lemma dayLasts_usEastern2026: "dayLasts usEastern2026 20519 96" "dayLasts usEastern2026 20520 92"
  by (simp_all add: dayLasts_def wall_def UTC_usEastern2026 LocalTime_usEastern2026
        MS_PER_DAY_def MS_PER_HOUR_def MS_PER_QUARTER_def)

theorem calculateWorkingHours_friday_to_monday_witness:
  "LocalTime usEastern2026 1772830800000 = 20518 * MS_PER_DAY + 16 * MS_PER_HOUR \<and>
   getDay usEastern2026 1772830800000 = 5 \<and>
   LocalTime usEastern2026 1773068400000 = 20521 * MS_PER_DAY + 11 * MS_PER_HOUR \<and>
   1773068400000 - 1772830800000 = 66 * MS_PER_HOUR \<and>
   calculateWorkingHours usEastern2026 1772830800000 1773068400000 = 3"
proof -
  have w: "wall usEastern2026 20518 16 = 1772830800000"
          "wall usEastern2026 20521 11 = 1773068400000"
    by (simp_all add: wall_def UTC_usEastern2026 MS_PER_DAY_def MS_PER_HOUR_def)
  have g: "getDay usEastern2026 1772830800000 = 5"
    by (simp add: getDay_def localDay_def LocalTime_usEastern2026 MS_PER_DAY_def
          MS_PER_HOUR_def)
  have "calculateWorkingHours usEastern2026 1772830800000 1773068400000 = 3"
    using calculateWorkingHours_friday_to_monday [of usEastern2026 20518 96 92]
          plainDay_usEastern2026 dayLasts_usEastern2026 g
    by (simp add: w)
  then show ?thesis
    using g by (simp add: LocalTime_usEastern2026 MS_PER_DAY_def MS_PER_HOUR_def)
qed

text \<open>
  \<^bold>\<open>C2\<close> (non-negativity).  In every zone and for every pair of timestamps the result of
  \<open>calculateWorkingHours\<close> is non-negative, and it is exactly 0 whenever \<open>end \<le> start\<close>; the
  same holds for the dashboard's copy, which also returns 0 when a timestamp is missing.
  Both are total functions: the day walk terminates (the termination proof of \<open>walkDays\<close>),
  so a number is returned for every pair.
\<close>

theorem calculateWorkingHours_nonneg:
  "0 \<le> calculateWorkingHours z s e \<and>
   (e \<le> s \<longrightarrow> calculateWorkingHours z s e = 0) \<and>
   0 \<le> calculateWorkingHours_utils z so eo \<and>
   (e \<le> s \<longrightarrow> calculateWorkingHours_utils z (Some s) (Some e) = 0) \<and>
   calculateWorkingHours_utils z None eo = 0 \<and>
   calculateWorkingHours_utils z so None = 0"
  by (simp add: calculateWorkingHours_def calculateWorkingHours_utils_def Let_def
      split: option.splits)

theorem calculateWorkingHours_nonneg_witness:
  "(5::int) \<le> 7 \<and> calculateWorkingHours (fixedZone 0) 7 5 = 0 \<and>
   calculateWorkingHours_utils (fixedZone 0) (Some 7) (Some 5) = 0 \<and>
   0 \<le> calculateWorkingHours (fixedZone 0) 5 7"
  using calculateWorkingHours_nonneg [of "fixedZone 0" 7 5 None None]
        calculateWorkingHours_nonneg [of "fixedZone 0" 5 7 None None]
  by simp

text \<open>The quotients are rounded one by one, so hours that are removed in full need not
  cancel.  From Tuesday 6 January 1970, 23:18:16, to Wednesday, 01:03:22 (zone with offset
  0) every hour is a night hour; the span is \<open>1.7516666666666667\<close> hours, the two removed
  pieces add up to \<open>1.7516666666666665\<close>, and the result is not 0 but the difference of
  the two doubles.\<close>

lemma calculateWorkingHours_night_residue:
  "calculateWorkingHours (fixedZone 0) 515896000 522202000 = 1 / 2 ^ 52"
proof -
  let ?z = "fixedZone 0"
  have h1: "hoursBetween 515896000 518400000 = 6265007481630957 / 2 ^ 53"
    by (simp add: hoursBetween_def jsSub_def jsDiv_def MS_PER_HOUR_def
          fl_scale_up[where n=53] rne_def)
  have h2: "hoursBetween 518400000 522202000 = 297268850403865 / 2 ^ 48"
    by (simp add: hoursBetween_def jsSub_def jsDiv_def MS_PER_HOUR_def
          fl_scale_up[where n=52] rne_def)
  have h3: "hoursBetween 515896000 522202000 = 7888805347277319 / 2 ^ 52"
    by (simp add: hoursBetween_def jsSub_def jsDiv_def MS_PER_HOUR_def
          fl_scale_up[where n=52] rne_def)
  have a1: "jsAdd 0 (6265007481630957 / 2 ^ 53) = 6265007481630957 / 2 ^ 53"
    by (simp add: jsAdd_def fl_scale_up[where n=53] rne_def)
  have a2: "jsAdd (6265007481630957 / 2 ^ 53) (297268850403865 / 2 ^ 48)
              = 3944402673638659 / 2 ^ 51"
    by (simp add: jsAdd_def fl_scale_up[where n=52] rne_def)
  have s: "jsSub (7888805347277319 / 2 ^ 52) (3944402673638659 / 2 ^ 51) = 1 / 2 ^ 52"
    by (simp add: jsSub_def fl_scale_up[where n=104] rne_def)
  have d0: "dayHoursToRemove ?z 515896000 522202000 432000000 h
              = jsAdd h (hoursBetween 515896000 518400000)" for h
    by (simp add: dayHoursToRemove_weekday getDay_def localDay_def setHours_def nextDate_def
          MS_PER_DAY_def MS_PER_HOUR_def)
  have d1: "dayHoursToRemove ?z 515896000 522202000 518400000 h
              = jsAdd h (hoursBetween 518400000 522202000)" for h
    by (simp add: dayHoursToRemove_weekday getDay_def localDay_def setHours_def nextDate_def
          MS_PER_DAY_def MS_PER_HOUR_def)
  have w: "walkDays ?z 515896000 522202000 432000000 h
             = dayHoursToRemove ?z 515896000 522202000 518400000
                 (dayHoursToRemove ?z 515896000 522202000 432000000 h)" for h
    by (simp add: walkDays_step walkDays_stop nextDate_def MS_PER_DAY_def MS_PER_HOUR_def)
  have c: "calculateWorkingHours ?z 515896000 522202000
             = max 0 (jsSub (hoursBetween 515896000 522202000)
                            (walkDays ?z 515896000 522202000 432000000 0))"
    by (simp add: calculateWorkingHours_def setHours_def localDay_def MS_PER_DAY_def
          MS_PER_HOUR_def)
  show ?thesis unfolding c w d0 d1 h1 h2 h3 a1 a2 s by simp
qed
section \<open>Properties of the churn analyzer\<close>

lemma insert_not_Nil: "List.insert x xs \<noteq> []"
  by (cases "x \<in> set xs") (auto simp: List.insert_def)

lemma churnFile_inv:
  assumes "noEmptySeen st"
  shows "noEmptySeen (churnFile idx st f)"
  using assms
  by (auto simp: noEmptySeen_def churnFile_def Let_def update_conv' insert_not_Nil
      split: if_splits option.splits)

lemma churnFile_names: "seenNames (churnFile idx st f) = insert (filename f) (seenNames st)"
  by (auto simp: seenNames_def churnFile_def Let_def update_conv' split: if_splits option.splits)

lemma churnFile_total:
  "churnTotalAdditions (churnFile idx st f) = churnTotalAdditions st + additions f"
  by (simp add: churnFile_def Let_def)

lemma churnFile_rework:
  "noEmptySeen st \<Longrightarrow> reWorkAdditions (churnFile idx st f) =
     reWorkAdditions st + (if filename f \<in> seenNames st then additions f else 0)"
  by (auto simp: noEmptySeen_def seenNames_def churnFile_def Let_def update_conv'
      split: if_splits option.splits)

text \<open>One commit whose file names are pairwise different: every file is judged against the
  names seen before the commit.\<close>

lemma foldl_churnFile:
  "noEmptySeen st \<Longrightarrow> distinct (map filename fs) \<Longrightarrow>
   noEmptySeen (foldl (churnFile idx) st fs) \<and>
   seenNames (foldl (churnFile idx) st fs) = seenNames st \<union> filename ` set fs \<and>
   churnTotalAdditions (foldl (churnFile idx) st fs)
     = churnTotalAdditions st + (\<Sum>f\<leftarrow>fs. additions f) \<and>
   reWorkAdditions (foldl (churnFile idx) st fs) =
     reWorkAdditions st + (\<Sum>f\<leftarrow>fs. if filename f \<in> seenNames st then additions f else 0)"
proof (induction fs arbitrary: st)
  case Nil
  then show ?case by simp
next
  case (Cons f fs)
  have d: "\<forall>g\<in>set fs. filename g \<noteq> filename f" "distinct (map filename fs)"
    using Cons.prems(2) by (auto simp: image_iff)
  have eq: "(\<Sum>g\<leftarrow>fs. if filename g \<in> insert (filename f) (seenNames st) then additions g else 0)
         = (\<Sum>g\<leftarrow>fs. if filename g \<in> seenNames st then additions g else 0)"
    using d(1) by (intro arg_cong[where f=sum_list] map_cong) auto
  show ?case
    using Cons.IH[OF churnFile_inv[OF Cons.prems(1), where idx=idx and f=f] d(2)] eq
    by (simp add: churnFile_names churnFile_total churnFile_rework[OF Cons.prems(1)])
qed

lemma foldl_churnCommit:
  "noEmptySeen st \<Longrightarrow> \<forall>c\<in>set cs. distinct (map filename (files c)) \<Longrightarrow>
   churnTotalAdditions (foldl churnCommit st (enumerate n cs))
     = churnTotalAdditions st + totalAdditionsSpec cs \<and>
   reWorkAdditions (foldl churnCommit st (enumerate n cs)) =
     reWorkAdditions st +
     (\<Sum>i\<leftarrow>[0..<length cs]. \<Sum>f\<leftarrow>files (cs ! i).
        if filename f \<in> seenNames st \<or> touchedBefore cs i (filename f) then additions f else 0)"
proof (induction cs arbitrary: st n)
  case Nil
  then show ?case by (simp add: totalAdditionsSpec_def)
next
  case (Cons c cs)
  let ?st = "churnCommit st (n, c)"
  have fc: "noEmptySeen ?st" "seenNames ?st = seenNames st \<union> filename ` set (files c)"
    "churnTotalAdditions ?st = churnTotalAdditions st + (\<Sum>f\<leftarrow>files c. additions f)"
    "reWorkAdditions ?st = reWorkAdditions st
       + (\<Sum>f\<leftarrow>files c. if filename f \<in> seenNames st then additions f else 0)"
    using foldl_churnFile[OF Cons.prems(1), of "files c" n] Cons.prems(2)
    by (simp_all add: churnCommit_def)
  have ih: "churnTotalAdditions (foldl churnCommit ?st (enumerate (Suc n) cs))
              = churnTotalAdditions ?st + totalAdditionsSpec cs"
    "reWorkAdditions (foldl churnCommit ?st (enumerate (Suc n) cs)) =
     reWorkAdditions ?st +
     (\<Sum>i\<leftarrow>[0..<length cs]. \<Sum>f\<leftarrow>files (cs ! i).
        if filename f \<in> seenNames ?st \<or> touchedBefore cs i (filename f)
        then additions f else 0)"
    using Cons.IH[OF fc(1), of "Suc n"] Cons.prems(2) by simp_all
  have up: "[0..<length (c # cs)] = 0 # map Suc [0..<length cs]"
    by (simp add: upt_conv_Cons map_Suc_upt del: upt_Suc)
  have tb: "touchedBefore (c # cs) (Suc i) name \<longleftrightarrow>
            name \<in> filename ` set (files c) \<or> touchedBefore cs i name" for i name
    by (auto simp: touchedBefore_def)
  have tb0: "\<not> touchedBefore (c # cs) 0 name" for name
    by (simp add: touchedBefore_def)
  show ?case
    apply (simp only: enumerate_simps foldl_Cons up)
    apply (simp add: ih fc totalAdditionsSpec_def tb tb0 comp_def del: upt_Suc)
    done
qed

lemma churnWalk_spec:
  assumes "\<forall>c\<in>set cs. distinct (map filename (files c))"
  shows "churnTotalAdditions (churnWalk cs) = totalAdditionsSpec cs"
    and "reWorkAdditions (churnWalk cs) = reworkAdditionsSpec cs"
  using foldl_churnCommit[OF _ assms,
      of "\<lparr> fileSeenInCommit = [], churnTotalAdditions = 0, reWorkAdditions = 0 \<rparr>" 0]
  by (simp_all add: churnWalk_def noEmptySeen_def seenNames_def reworkAdditionsSpec_def)

text \<open>
  \<^bold>\<open>C3\<close>, as amended.  \<open>calculateChurnMetrics\<close> returns \<open>{0, 0}\<close> for an absent list and
  for a list of at most one commit.  For a longer list in which no single commit lists the
  same file name twice, a file's additions are added to \<open>reWorkAdditions\<close> exactly when an
  earlier commit of the list touched that file name, \<open>totalAdditions\<close> is the sum of all
  additions, and \<open>churnPercentage\<close> is 0 when \<open>totalAdditions\<close> is 0 and otherwise the double
  nearest to the one-decimal rounding of the number that \<open>reWorkAdditions / totalAdditions
  * 100\<close> yields in double arithmetic (the quotient rounded to a double, its hundredfold
  rounded to a double), which need not be the one-decimal rounding of the exact percentage.
\<close>

theorem calculateChurnMetrics_rework:
  "calculateChurnMetrics None = \<lparr> cm_churnPercentage = 0, cm_fileChurnCount = 0 \<rparr> \<and>
   (length cs \<le> 1 \<longrightarrow>
      calculateChurnMetrics (Some cs) = \<lparr> cm_churnPercentage = 0, cm_fileChurnCount = 0 \<rparr>) \<and>
   (1 < length cs \<and> (\<forall>c\<in>set cs. distinct (map filename (files c))) \<longrightarrow>
      reWorkAdditions (churnWalk cs) = reworkAdditionsSpec cs \<and>
      churnTotalAdditions (churnWalk cs) = totalAdditionsSpec cs \<and>
      cm_churnPercentage (calculateChurnMetrics (Some cs)) =
        (if totalAdditionsSpec cs > 0
         then parseFloat (toFixedNum 1
                (fl (fl (real_of_int (reworkAdditionsSpec cs)
                           / real_of_int (totalAdditionsSpec cs)) * 100)))
         else 0))"
  by (auto simp: calculateChurnMetrics_def Let_def churnWalk_spec jsMul_def jsDiv_def)

text \<open>On \<open>thirdReworked\<close> the rounding shows at each step: 1 of 3 added lines is rework, the
  quotient is the double just below a third, its hundredfold the double
  \<open>33.33333333333333\<close>, and the percentage is the double nearest to 33.3.\<close>

lemma third_percent: "fl (fl (1 / 3) * 100) = 4691249611844266 / 2 ^ 47"
proof -
  have 1: "fl (1 / 3) = 6004799503160661 / 2 ^ 54"
    by (simp add: fl_scale_up[where n=54] rne_def)
  have 2: "fl (6004799503160661 / 2 ^ 54 * 100) = 4691249611844266 / 2 ^ 47"
    by (simp add: fl_scale_up[where n=47] rne_def)
  show ?thesis unfolding 1 2 ..
qed

theorem calculateChurnMetrics_rework_witness:
  "1 < length thirdReworked \<and> reworkAdditionsSpec thirdReworked = 1 \<and>
   totalAdditionsSpec thirdReworked = 3 \<and>
   reWorkAdditions (churnWalk thirdReworked) = 1 \<and>
   fl (fl (1 / 3) * 100) = 4691249611844266 / 2 ^ 47 \<and>
   cm_churnPercentage (calculateChurnMetrics (Some thirdReworked)) = parseFloat (333 / 10) \<and>
   calculateChurnMetrics (Some [hd thirdReworked])
     = \<lparr> cm_churnPercentage = 0, cm_fileChurnCount = 0 \<rparr>"
  using calculateChurnMetrics_rework [of thirdReworked]
        calculateChurnMetrics_rework [of "[hd thirdReworked]"]
  by (simp add: thirdReworked_def reworkAdditionsSpec_def totalAdditionsSpec_def
      touchedBefore_def upt_conv_Cons third_percent toFixedNum_def)

text \<open>The claim as first stated fails on \<open>reworked23of80\<close>.  There 23 of 80 added lines are
  rework, which is 28.75 percent, and 28.8 when rounded to one decimal.  In double
  arithmetic \<open>23 / 80 * 100\<close> is \<open>28.749999999999996\<close>, so \<open>toFixed(1)\<close> prints 28.7 and the
  function returns the double nearest to 28.7.\<close>

lemma percent_23_of_80: "fl (fl (23 / 80) * 100) = 8092405580431359 / 2 ^ 48"
proof -
  have 1: "fl (23 / 80) = 5179139571476070 / 2 ^ 54"
    by (simp add: fl_scale_up[where n=54] rne_def)
  have 2: "fl (5179139571476070 / 2 ^ 54 * 100) = 8092405580431359 / 2 ^ 48"
    by (simp add: fl_scale_up[where n=48] rne_def)
  show ?thesis unfolding 1 2 ..
qed

lemma fl_287_tenths: "fl (287 / 10) = 8078331831595827 / 2 ^ 48"
  by (simp add: fl_scale_up[where n=48] rne_def)

theorem calculateChurnMetrics_rounding_counterexample:
  "1 < length reworked23of80 \<and>
   list_all (\<lambda>c. distinct (map filename (files c))) reworked23of80 \<and>
   reworkAdditionsSpec reworked23of80 = 23 \<and>
   totalAdditionsSpec reworked23of80 = 80 \<and>
   toFixedNum 1 (23 / 80 * 100) = 288 / 10 \<and>
   cm_churnPercentage (calculateChurnMetrics (Some reworked23of80)) = parseFloat (287 / 10) \<and>
   cm_churnPercentage (calculateChurnMetrics (Some reworked23of80)) < 288 / 10 - 9 / 100"
  by (simp add: reworked23of80_def reworkAdditionsSpec_def totalAdditionsSpec_def
      touchedBefore_def calculateChurnMetrics_def churnWalk_def churnCommit_def churnFile_def
      Let_def enumerate_eq_zip upt_conv_Cons jsDiv_def jsMul_def parseFloat_def
      percent_23_of_80 toFixedNum_def fl_287_tenths)

text \<open>A commit that lists one file name twice is outside the amended statement.  On
  \<open>repeatedName\<close> no earlier commit touched file \<open>a\<close>, yet the loop counts the 3 additions of
  the second entry as rework and reports 37.5: the test \<open>seen.size > 0\<close> comes before the
  index of the current commit is added, so it also succeeds for an entry that the same
  commit has listed before.\<close>

lemma calculateChurnMetrics_repeated_name:
  "1 < length repeatedName \<and> reworkAdditionsSpec repeatedName = 0 \<and>
   totalAdditionsSpec repeatedName = 8 \<and>
   reWorkAdditions (churnWalk repeatedName) = 3 \<and>
   cm_churnPercentage (calculateChurnMetrics (Some repeatedName)) = 37.5"
proof -
  have 1: "fl (3 / 8) = 3 / 8" using fl_dyadic[of 3 3] by simp
  have 2: "fl (3 / 8 * 100) = 75 / 2" using fl_dyadic[of 75 1] by simp
  have 3: "fl (fl (3 / 8) * 100) = 75 / 2" unfolding 1 2 ..
  have 4: "fl (75 / 2) = 75 / 2" using fl_dyadic[of 75 1] by simp
  show ?thesis
    by (simp add: 3 4 repeatedName_def reworkAdditionsSpec_def totalAdditionsSpec_def
        touchedBefore_def calculateChurnMetrics_def churnWalk_def churnCommit_def churnFile_def
        toFixedNum_def Let_def enumerate_eq_zip upt_conv_Cons jsDiv_def jsMul_def
        parseFloat_def)
qed

section \<open>Properties of the change classifier\<close>

text \<open>What one pass of the loop keeps: the two buckets add up to the totals, and the two
  file counters together lag behind \<open>filesChanged\<close> by the number of files still to come.\<close>

lemma foldl_classifyFile:
  "fm_prodAdditions (foldl classifyFile r fs) + fm_testAdditions (foldl classifyFile r fs)
     - fm_totalAdditions (foldl classifyFile r fs)
     = fm_prodAdditions r + fm_testAdditions r - fm_totalAdditions r \<and>
   fm_prodDeletions (foldl classifyFile r fs) + fm_testDeletions (foldl classifyFile r fs)
     - fm_totalDeletions (foldl classifyFile r fs)
     = fm_prodDeletions r + fm_testDeletions r - fm_totalDeletions r \<and>
   fm_prodFilesChanged (foldl classifyFile r fs) + fm_testFilesChanged (foldl classifyFile r fs)
     = fm_prodFilesChanged r + fm_testFilesChanged r + int (length fs) \<and>
   fm_filesChanged (foldl classifyFile r fs) = fm_filesChanged r"
proof (induction fs arbitrary: r)
  case Nil
  show ?case by simp
next
  case (Cons f fs)
  show ?case
    using Cons.IH[of "classifyFile r f"]
    by (simp add: classifyFile_def Let_def)
qed

text \<open>Each bucket holds exactly the files that \<open>isTestFile\<close> sends to it.\<close>

lemma foldl_classifyFile_buckets:
  "fm_testFilesChanged (foldl classifyFile r fs)
     = fm_testFilesChanged r + int (length (filter (\<lambda>f. isTestFile (filename f)) fs)) \<and>
   fm_prodFilesChanged (foldl classifyFile r fs)
     = fm_prodFilesChanged r + int (length (filter (\<lambda>f. \<not> isTestFile (filename f)) fs)) \<and>
   fm_testAdditions (foldl classifyFile r fs)
     = fm_testAdditions r + (\<Sum>f\<leftarrow>filter (\<lambda>f. isTestFile (filename f)) fs. additions f) \<and>
   fm_prodAdditions (foldl classifyFile r fs)
     = fm_prodAdditions r
       + (\<Sum>f\<leftarrow>filter (\<lambda>f. \<not> isTestFile (filename f)) fs. additions f) \<and>
   fm_testDeletions (foldl classifyFile r fs)
     = fm_testDeletions r + (\<Sum>f\<leftarrow>filter (\<lambda>f. isTestFile (filename f)) fs. deletions f) \<and>
   fm_prodDeletions (foldl classifyFile r fs)
     = fm_prodDeletions r
       + (\<Sum>f\<leftarrow>filter (\<lambda>f. \<not> isTestFile (filename f)) fs. deletions f)"
proof (induction fs arbitrary: r)
  case Nil
  show ?case by simp
next
  case (Cons f fs)
  show ?case
    using Cons.IH[of "classifyFile r f"]
    by (simp add: classifyFile_def Let_def)
qed

text \<open>
  \<^bold>\<open>C4\<close> (classifier completeness).  For every list of file changes the result of
  \<open>classifyFileChanges\<close> satisfies \<open>prodFilesChanged + testFilesChanged = filesChanged\<close>,
  \<open>prodAdditions + testAdditions = totalAdditions\<close> and
  \<open>prodDeletions + testDeletions = totalDeletions\<close>: every file is counted in exactly one of
  the two buckets, the test bucket when \<open>isTestFile\<close> holds of its name and the production
  bucket otherwise.
\<close>

theorem classifyFileChanges_complete:
  "fm_prodFilesChanged (classifyFileChanges fs) + fm_testFilesChanged (classifyFileChanges fs)
     = fm_filesChanged (classifyFileChanges fs) \<and>
   fm_prodAdditions (classifyFileChanges fs) + fm_testAdditions (classifyFileChanges fs)
     = fm_totalAdditions (classifyFileChanges fs) \<and>
   fm_prodDeletions (classifyFileChanges fs) + fm_testDeletions (classifyFileChanges fs)
     = fm_totalDeletions (classifyFileChanges fs) \<and>
   fm_filesChanged (classifyFileChanges fs) = int (length fs) \<and>
   fm_testFilesChanged (classifyFileChanges fs)
     = int (length (filter (\<lambda>f. isTestFile (filename f)) fs)) \<and>
   fm_prodFilesChanged (classifyFileChanges fs)
     = int (length (filter (\<lambda>f. \<not> isTestFile (filename f)) fs))"
  unfolding classifyFileChanges_def
  using foldl_classifyFile [of "\<lparr> fm_totalAdditions = 0, fm_totalDeletions = 0,
      fm_prodAdditions = 0, fm_prodDeletions = 0, fm_testAdditions = 0, fm_testDeletions = 0,
      fm_filesChanged = int (length fs), fm_testFilesChanged = 0,
      fm_prodFilesChanged = 0 \<rparr>" fs]
    foldl_classifyFile_buckets [of "\<lparr> fm_totalAdditions = 0, fm_totalDeletions = 0,
      fm_prodAdditions = 0, fm_prodDeletions = 0, fm_testAdditions = 0, fm_testDeletions = 0,
      fm_filesChanged = int (length fs), fm_testFilesChanged = 0,
      fm_prodFilesChanged = 0 \<rparr>" fs]
  by simp

section \<open>Properties of the review activity reducer\<close>

lemma tsOf_addConversationComment:
  "tsOf (addConversationComment m c) u =
     (if cc_user c = Some u \<and> u \<noteq> [] then tsOf m u @ [cc_created_at c] else tsOf m u)"
  by (auto simp: tsOf_def addConversationComment_def truthyStr_def update_conv'
      split: option.splits)

lemma distinct_addConversationComment:
  "distinct (map fst m) \<Longrightarrow> distinct (map fst (addConversationComment m c))"
  by (simp add: addConversationComment_def distinct_update split: option.splits)

lemma foldl_addConversationComment:
  "set (tsOf (foldl addConversationComment m conv) u)
     = set (tsOf m u) \<union> conversationTimesOf conv u"
proof (induction conv arbitrary: m)
  case Nil
  show ?case by (simp add: conversationTimesOf_def)
next
  case (Cons c conv)
  show ?case
    by (auto simp: Cons.IH tsOf_addConversationComment conversationTimesOf_def)
qed

lemma distinct_foldl_addConversationComment:
  "distinct (map fst m) \<Longrightarrow> distinct (map fst (foldl addConversationComment m conv))"
  by (induction conv arbitrary: m) (simp_all add: distinct_addConversationComment)

lemma conversationTimestampsMap_tsOf:
  "set (tsOf (conversationTimestampsMap conv) u) = conversationTimesOf conv u"
  by (simp add: conversationTimestampsMap_def foldl_addConversationComment) (simp add: tsOf_def)

lemma conversationTimestampsMap_distinct: "distinct (map fst (conversationTimestampsMap conv))"
  by (simp add: conversationTimestampsMap_def distinct_foldl_addConversationComment)

lemma set_nonAuthor:
  assumes "distinct (map fst m)"
  shows "set (concat (map snd (filter (\<lambda>entry. fst entry \<noteq> a) m)))
       = {t. \<exists>u. u \<noteq> a \<and> t \<in> set (tsOf m u)}"
proof -
  have "(u, ts) \<in> set m \<longleftrightarrow> map_of m u = Some ts" for u ts
    using assms by simp
  then show ?thesis
    by (fastforce simp: tsOf_def split: option.splits)
qed

lemma set_reviewerActivityTimestamps:
  "set (reviewerActivityTimestamps (conversationTimestampsMap conv) u r)
     = reviewActivitySpec conv u r"
  using conversationTimestampsMap_tsOf[of conv u]
  by (auto simp: reviewerActivityTimestamps_def reviewActivitySpec_def tsOf_def
      split: option.splits)

lemma reviewLoop_timestamps:
  "reviewLoop a m rs acc = Inr res \<Longrightarrow>
   set (snd res) = set (snd acc) \<union>
     {t. \<exists>r\<in>set rs. \<exists>u. rr_user r = Some u \<and> u \<noteq> a
            \<and> t \<in> set (reviewerActivityTimestamps m u r)}"
proof (induction rs arbitrary: acc)
  case Nil
  then show ?case by auto
next
  case (Cons r rs)
  then obtain u where u: "rr_user r = Some u" by (cases "rr_user r") auto
  show ?case
    using Cons.prems u Cons.IH[of "(fst acc @ [processReview m u r],
             if u \<noteq> a then snd acc @ sort (reviewerActivityTimestamps m u r) else snd acc)"]
    by auto
qed

text \<open>The loop fails exactly when some review has no user.\<close>

lemma reviewLoop_ok:
  "(\<exists>res. reviewLoop a m rs acc = Inr res) \<longleftrightarrow> (\<forall>r\<in>set rs. rr_user r \<noteq> None)"
  by (induction rs arbitrary: acc) (auto split: option.splits)

lemma earliest_Min:
  assumes "xs \<noteq> []"
  shows "earliest xs = Some (Min (set xs))"
proof -
  obtain y ys where s: "sort xs = y # ys"
    using assms by (cases "sort xs") (auto dest: arg_cong[where f=length])
  have "sorted (sort xs)" "set (sort xs) = set xs"
    by simp_all
  then have "sorted (y # ys)" "set (y # ys) = set xs"
    by (simp_all only: s)
  then have "Min (set xs) = y"
    by (intro Min_eqI) auto
  then show ?thesis by (simp add: earliest_def s)
qed

lemma set_allResponseTimestamps:
  assumes "reviewLoop a (conversationTimestampsMap conv) rs
             ([], concat (map snd (filter (\<lambda>entry. fst entry \<noteq> a)
                                     (conversationTimestampsMap conv)))) = Inr res"
  shows "set (snd res) = responseTimestampsSpec a conv rs"
proof -
  have init: "set (concat (map snd (filter (\<lambda>entry. fst entry \<noteq> a)
                                     (conversationTimestampsMap conv))))
              = {t. \<exists>u. u \<noteq> a \<and> t \<in> conversationTimesOf conv u}"
    by (simp only: set_nonAuthor[OF conversationTimestampsMap_distinct]
        conversationTimestampsMap_tsOf)
  show ?thesis
    using reviewLoop_timestamps[OF assms]
    unfolding snd_conv init set_reviewerActivityTimestamps responseTimestampsSpec_def
    by simp
qed

lemma processPR_firstResponseAt:
  assumes "processPR pr fs rs conv commits = Inr d"
  shows "firstResponseAt d =
          (if responseTimestampsSpec (pr_author pr) conv rs = {} then None
           else Some (Min (responseTimestampsSpec (pr_author pr) conv rs)))"
proof -
  let ?m = "conversationTimestampsMap conv"
  let ?init = "([], concat (map snd (filter (\<lambda>entry. fst entry \<noteq> pr_author pr) ?m)))"
  obtain processed allTs
    where loop: "reviewLoop (pr_author pr) ?m rs ?init = Inr (processed, allTs)"
    using assms by (auto simp: processPR_def Let_def split: sum.splits)
  have d: "firstResponseAt d = (if length allTs > 0 then earliest allTs else None)"
    using assms loop by (auto simp: processPR_def Let_def)
  have s: "set allTs = responseTimestampsSpec (pr_author pr) conv rs"
    using set_allResponseTimestamps[OF loop] by simp
  show ?thesis
  proof (cases "allTs = []")
    case True
    then show ?thesis using d s by simp
  next
    case False
    then show ?thesis using d s earliest_Min[OF False] by auto
  qed
qed

text \<open>The comments and reviews of the author do not enter the set of response
  timestamps.\<close>

lemma responseTimestampsSpec_filter:
  "responseTimestampsSpec a (filter (\<lambda>c. cc_user c \<noteq> Some a) conv)
      (filter (\<lambda>r. rr_user r \<noteq> Some a) rs) = responseTimestampsSpec a conv rs"
proof -
  have c: "conversationTimesOf (filter (\<lambda>c. cc_user c \<noteq> Some a) conv) u
             = conversationTimesOf conv u" if "u \<noteq> a" for u
    using that by (auto simp: conversationTimesOf_def)
  have r: "reviewActivitySpec (filter (\<lambda>c. cc_user c \<noteq> Some a) conv) u review
             = reviewActivitySpec conv u review" if "u \<noteq> a" for u review
    using that by (simp add: reviewActivitySpec_def c)
  show ?thesis
    unfolding responseTimestampsSpec_def
  proof (intro arg_cong2[where f="(\<union>)"] Collect_cong)
    fix t
    show "(\<exists>user. user \<noteq> a
             \<and> t \<in> conversationTimesOf (filter (\<lambda>c. cc_user c \<noteq> Some a) conv) user)
        = (\<exists>user. user \<noteq> a \<and> t \<in> conversationTimesOf conv user)"
      using c by auto
    show "(\<exists>review\<in>set (filter (\<lambda>r. rr_user r \<noteq> Some a) rs).
             \<exists>user. rr_user review = Some user \<and> user \<noteq> a
             \<and> t \<in> reviewActivitySpec (filter (\<lambda>c. cc_user c \<noteq> Some a) conv) user review)
        = (\<exists>review\<in>set rs. \<exists>user. rr_user review = Some user \<and> user \<noteq> a
             \<and> t \<in> reviewActivitySpec conv user review)"
      (is "?L = ?R")
    proof
      assume ?L
      then obtain review user
        where "review \<in> set rs" "rr_user review = Some user" "user \<noteq> a"
          "t \<in> reviewActivitySpec (filter (\<lambda>c. cc_user c \<noteq> Some a) conv) user review"
        by auto
      then show ?R using r[of user review] by blast
    next
      assume ?R
      then obtain review user
        where "review \<in> set rs" "rr_user review = Some user" "user \<noteq> a"
          "t \<in> reviewActivitySpec conv user review"
        by auto
      then show ?L using r[of user review] by force
    qed
  qed
qed

text \<open>\<open>processPR\<close> yields an enriched record exactly when every review has a user.\<close>

lemma processPR_ok:
  "(\<exists>d. processPR pr fs rs conv commits = Inr d) \<longleftrightarrow> (\<forall>r\<in>set rs. rr_user r \<noteq> None)"
proof -
  let ?m = "conversationTimestampsMap conv"
  let ?init = "([], concat (map snd (filter (\<lambda>entry. fst entry \<noteq> pr_author pr) ?m)))"
  have "(\<exists>d. processPR pr fs rs conv commits = Inr d)
          \<longleftrightarrow> (\<exists>res. reviewLoop (pr_author pr) ?m rs ?init = Inr res)"
    by (auto simp: processPR_def Let_def split: sum.splits)
  also have "\<dots> \<longleftrightarrow> (\<forall>r\<in>set rs. rr_user r \<noteq> None)"
    by (rule reviewLoop_ok)
  finally show ?thesis .
qed

text \<open>
  \<^bold>\<open>C5\<close> (first response).  For every pull request whose reviews all have a user (so
  that \<open>processPR\<close> yields an enriched record \<open>d\<close>), \<open>firstResponseAt\<close> of \<open>d\<close> is the minimum
  of the response timestamps \<open>responseTimestampsSpec\<close> -- the activity timestamps of the
  reviews and the conversation-comment timestamps of every login other than the author's --
  and is \<open>null\<close> when there is none.  In particular the author's own comments and reviews
  never determine it: processing the pull request without them yields the same
  \<open>firstResponseAt\<close>.
\<close>

theorem processPR_firstResponseAt_min:
  assumes "\<forall>r\<in>set rs. rr_user r \<noteq> None"
  shows "\<exists>d d'. processPR pr fs rs conv commits = Inr d
       \<and> firstResponseAt d =
          (if responseTimestampsSpec (pr_author pr) conv rs = {} then None
           else Some (Min (responseTimestampsSpec (pr_author pr) conv rs)))
       \<and> processPR pr fs (filter (\<lambda>r. rr_user r \<noteq> Some (pr_author pr)) rs)
                   (filter (\<lambda>c. cc_user c \<noteq> Some (pr_author pr)) conv) commits = Inr d'
       \<and> firstResponseAt d' = firstResponseAt d"
proof -
  let ?rs = "filter (\<lambda>r. rr_user r \<noteq> Some (pr_author pr)) rs"
  let ?conv = "filter (\<lambda>c. cc_user c \<noteq> Some (pr_author pr)) conv"
  obtain d where d: "processPR pr fs rs conv commits = Inr d"
    using assms processPR_ok[of pr fs rs conv commits] by blast
  have "\<forall>r\<in>set ?rs. rr_user r \<noteq> None"
    using assms by simp
  then obtain d' where d': "processPR pr fs ?rs ?conv commits = Inr d'"
    using processPR_ok[of pr fs ?rs ?conv commits] by blast
  have "firstResponseAt d' = firstResponseAt d"
    using processPR_firstResponseAt[OF d] processPR_firstResponseAt[OF d']
    by (simp add: responseTimestampsSpec_filter)
  then show ?thesis
    using processPR_firstResponseAt[OF d] d d' by blast
qed

text \<open>On \<open>selfCommentPR\<close> the author's comment at 100 and the author's review at 200 come
  first, and \<open>firstResponseAt\<close> is 300, the time of the first comment by someone else.\<close>

theorem processPR_firstResponseAt_min_witness:
  "\<exists>d. processPR selfCommentPR [] selfCommentReviews selfCommentConversation [] = Inr d
       \<and> firstResponseAt d = Some 300
       \<and> Min (responseTimestampsSpec ''ann'' selfCommentConversation selfCommentReviews) = 300"
proof -
  have users: "\<forall>r\<in>set selfCommentReviews. rr_user r \<noteq> None"
    by (simp add: selfCommentReviews_def)
  obtain d where d: "processPR selfCommentPR [] selfCommentReviews selfCommentConversation []
                       = Inr d"
    and m: "firstResponseAt d =
          (if responseTimestampsSpec (pr_author selfCommentPR) selfCommentConversation
                selfCommentReviews = {} then None
           else Some (Min (responseTimestampsSpec (pr_author selfCommentPR)
                             selfCommentConversation selfCommentReviews)))"
    using processPR_firstResponseAt_min[OF users, of selfCommentPR "[]"
        selfCommentConversation "[]"] by blast
  have f: "firstResponseAt d = Some 300"
    using d
    by (auto simp: processPR_def selfCommentPR_def selfCommentReviews_def
        selfCommentConversation_def conversationTimestampsMap_def addConversationComment_def
        truthyStr_def reviewerActivityTimestamps_def earliest_def Let_def)
  show ?thesis
    using m f d by (auto simp: selfCommentPR_def split: if_splits)
qed

section \<open>Properties of the quality score\<close>

text \<open>The four weights as doubles, and the products of the full score 100 with them.\<close>

lemma lit_weights:
  "lit (35 / 100) = 3152519739159347 / 2 ^ 53"
  "lit (30 / 100) = 5404319552844595 / 2 ^ 54"
  "lit (20 / 100) = 3602879701896397 / 2 ^ 54"
  "lit (15 / 100) = 5404319552844595 / 2 ^ 55"
  by (simp_all add: lit_def fl_scale_up[where n=54] fl_scale_up[where n=55] rne_def)

lemma full_weights:
  "fl (100 * (3152519739159347 / 2 ^ 53)) = 35"
  "fl (100 * (5404319552844595 / 2 ^ 54)) = 30"
  "fl (100 * (3602879701896397 / 2 ^ 54)) = 20"
  "fl (100 * (5404319552844595 / 2 ^ 55)) = 15"
  by (simp_all add: fl_scale_up[where n=47] fl_scale_up[where n=48] fl_scale_up[where n=49]
        rne_def)

text \<open>A product of a score and a weight: its range and its distance from the exact
  product.\<close>

lemma weighted_product:
  assumes "0 \<le> s" and "s \<le> 100" and "0 \<le> c" and "fl (100 * c) = cap" and "cap \<le> 35"
    and "\<bar>c - w\<bar> \<le> 1 / 2 ^ 55"
  shows "0 \<le> jsMul s c" and "jsMul s c \<le> cap"
    and "\<bar>jsMul s c - s * w\<bar> \<le> 1 / 10 ^ 14"
proof -
  show lo: "0 \<le> jsMul s c" unfolding jsMul_def using assms(1,3) by (intro fl_nonneg) simp
  have "s * c \<le> 100 * c" using assms(2,3) by (simp add: mult_right_mono)
  then show hi: "jsMul s c \<le> cap" unfolding jsMul_def using fl_mono assms(4) by metis
  have "100 * c < 64"
  proof (rule ccontr)
    assume "\<not> 100 * c < 64"
    then have "fl 64 \<le> fl (100 * c)" by (intro fl_mono) simp
    then show False using assms(4,5) by simp
  qed
  then have "\<bar>s * c\<bar> < 2 ^ 6"
    using \<open>s * c \<le> 100 * c\<close> assms(1,3) by (simp add: abs_mult)
  then have "\<bar>fl (s * c) - s * c\<bar> \<le> 2 ^ 6 / 2 ^ 54" by (rule fl_error)
  moreover have "\<bar>s * c - s * w\<bar> \<le> 100 * (1 / 2 ^ 55)"
  proof -
    have "\<bar>s * c - s * w\<bar> = s * \<bar>c - w\<bar>"
      using assms(1) by (simp add: abs_mult flip: right_diff_distrib)
    also have "\<dots> \<le> 100 * (1 / 2 ^ 55)"
      using assms(1,2,6) by (intro mult_mono) simp_all
    finally show ?thesis .
  qed
  ultimately have "\<bar>fl (s * c) - s * w\<bar> \<le> 2 ^ 6 / 2 ^ 54 + 100 * (1 / 2 ^ 55)"
    by linarith
  also have "\<dots> \<le> 1 / 10 ^ 14" by simp
  finally show "\<bar>jsMul s c - s * w\<bar> \<le> 1 / 10 ^ 14"
    unfolding jsMul_def .
qed


lemma subscores_range:
  "0 \<le> linesScore dev" "linesScore dev \<le> 100" "0 \<le> filesScore dev" "filesScore dev \<le> 100"
  "0 \<le> closeTimeScore dev" "closeTimeScore dev \<le> 100"
  "0 \<le> iterationScore dev" "iterationScore dev \<le> 100" "0 \<le> churnScore dev"
  by (simp_all add: linesScore_def filesScore_def closeTimeScore_def iterationScore_def
      churnScore_def split: option.splits)

lemma churnScore_le:
  assumes "0 \<le> churnPct dev"
  shows "churnScore dev \<le> 100"
proof -
  have "0 \<le> jsDiv (churnPct dev) 50" unfolding jsDiv_def using assms by (intro fl_nonneg) simp
  then have "jsSub 1 (jsDiv (churnPct dev) 50) \<le> fl 1" unfolding jsSub_def by (intro fl_mono) simp
  then have "100 * jsSub 1 (jsDiv (churnPct dev) 50) \<le> 100" by simp
  then have "jsMul 100 (jsSub 1 (jsDiv (churnPct dev) 50)) \<le> fl 100"
    unfolding jsMul_def by (rule fl_mono)
  then show ?thesis by (simp add: churnScore_def)
qed

lemma sizeScore_range: "0 \<le> sizeScore dev" "sizeScore dev \<le> 100"
proof -
  have s: "0 \<le> linesScore dev + filesScore dev" "linesScore dev + filesScore dev \<le> 200"
    using subscores_range(1-4)[of dev] by simp_all
  have a: "0 \<le> jsAdd (linesScore dev) (filesScore dev)"
    unfolding jsAdd_def using s(1) by (rule fl_nonneg)
  have "jsAdd (linesScore dev) (filesScore dev) \<le> fl 200"
    unfolding jsAdd_def using s(2) by (rule fl_mono)
  then have b: "jsAdd (linesScore dev) (filesScore dev) \<le> 200" by simp
  show "0 \<le> sizeScore dev"
    unfolding sizeScore_def jsDiv_def using a by (intro fl_nonneg) simp
  have "jsDiv (jsAdd (linesScore dev) (filesScore dev)) 2 \<le> fl 100"
    unfolding jsDiv_def using b by (intro fl_mono) simp
  then show "sizeScore dev \<le> 100" by (simp add: sizeScore_def)
qed

text \<open>The sum of the four products, as the source adds them.\<close>

lemma weighted_sum:
  assumes s1: "0 \<le> s1" "s1 \<le> 100" and s2: "0 \<le> s2" "s2 \<le> 100"
    and s3: "0 \<le> s3" "s3 \<le> 100" and s4: "0 \<le> s4" "s4 \<le> 100"
  defines "t \<equiv> jsAdd (jsAdd (jsAdd (jsMul s1 (lit (35 / 100))) (jsMul s2 (lit (30 / 100))))
                          (jsMul s3 (lit (20 / 100))))
                   (jsMul s4 (lit (15 / 100)))"
  shows "0 \<le> t" and "t \<le> 100"
    and "\<bar>t - (s1 * (35 / 100) + s2 * (30 / 100) + s3 * (20 / 100) + s4 * (15 / 100))\<bar>
           \<le> 1 / 10 ^ 13"
proof -
  define p1 p2 p3 p4 where "p1 = jsMul s1 (lit (35 / 100))" and "p2 = jsMul s2 (lit (30 / 100))"
    and "p3 = jsMul s3 (lit (20 / 100))" and "p4 = jsMul s4 (lit (15 / 100))"
  have P1: "0 \<le> p1" "p1 \<le> 35" "\<bar>p1 - s1 * (35 / 100)\<bar> \<le> 1 / 10 ^ 14"
    unfolding p1_def lit_weights
    by (rule weighted_product[where w="35 / 100", OF s1 _ full_weights(1)]; simp)+
  have P2: "0 \<le> p2" "p2 \<le> 30" "\<bar>p2 - s2 * (30 / 100)\<bar> \<le> 1 / 10 ^ 14"
    unfolding p2_def lit_weights
    by (rule weighted_product[where w="30 / 100", OF s2 _ full_weights(2)]; simp)+
  have P3: "0 \<le> p3" "p3 \<le> 20" "\<bar>p3 - s3 * (20 / 100)\<bar> \<le> 1 / 10 ^ 14"
    unfolding p3_def lit_weights
    by (rule weighted_product[where w="20 / 100", OF s3 _ full_weights(3)]; simp)+
  have P4: "0 \<le> p4" "p4 \<le> 15" "\<bar>p4 - s4 * (15 / 100)\<bar> \<le> 1 / 10 ^ 14"
    unfolding p4_def lit_weights
    by (rule weighted_product[where w="15 / 100", OF s4 _ full_weights(4)]; simp)+
  define a b where "a = jsAdd p1 p2" and "b = jsAdd a p3"
  have t: "t = jsAdd b p4" by (simp add: t_def a_def b_def p1_def p2_def p3_def p4_def)
  have A: "0 \<le> a" "a \<le> 65" "\<bar>a - (p1 + p2)\<bar> \<le> 2 ^ 7 / 2 ^ 54"
  proof -
    show "0 \<le> a" unfolding a_def jsAdd_def using P1(1) P2(1) by (intro fl_nonneg) simp
    have "fl (p1 + p2) \<le> fl 65" using P1(2) P2(2) by (intro fl_mono) simp
    then show "a \<le> 65" by (simp add: a_def jsAdd_def)
    show "\<bar>a - (p1 + p2)\<bar> \<le> 2 ^ 7 / 2 ^ 54"
      unfolding a_def jsAdd_def using P1(1,2) P2(1,2) by (intro fl_error) simp
  qed
  have B: "0 \<le> b" "b \<le> 85" "\<bar>b - (a + p3)\<bar> \<le> 2 ^ 7 / 2 ^ 54"
  proof -
    show "0 \<le> b" unfolding b_def jsAdd_def using A(1) P3(1) by (intro fl_nonneg) simp
    have "fl (a + p3) \<le> fl 85" using A(2) P3(2) by (intro fl_mono) simp
    then show "b \<le> 85" by (simp add: b_def jsAdd_def)
    show "\<bar>b - (a + p3)\<bar> \<le> 2 ^ 7 / 2 ^ 54"
      unfolding b_def jsAdd_def using A(1,2) P3(1,2) by (intro fl_error) simp
  qed
  show "0 \<le> t" unfolding t jsAdd_def using B(1) P4(1) by (intro fl_nonneg) simp
  have "fl (b + p4) \<le> fl 100" using B(2) P4(2) by (intro fl_mono) simp
  then show "t \<le> 100" by (simp add: t jsAdd_def)
  have T: "\<bar>t - (b + p4)\<bar> \<le> 2 ^ 7 / 2 ^ 54"
    unfolding t jsAdd_def using B(1,2) P4(1,2) by (intro fl_error) simp
  have "\<bar>t - (s1 * (35 / 100) + s2 * (30 / 100) + s3 * (20 / 100) + s4 * (15 / 100))\<bar>
          \<le> 3 * (2 ^ 7 / 2 ^ 54) + 4 * (1 / 10 ^ 14)"
    using T B(3) A(3) P1(3) P2(3) P3(3) P4(3) by linarith
  also have "\<dots> \<le> 1 / 10 ^ 13" by simp
  finally show "\<bar>t - (s1 * (35 / 100) + s2 * (30 / 100) + s3 * (20 / 100) + s4 * (15 / 100))\<bar>
                  \<le> 1 / 10 ^ 13" .
qed

lemma Math_round_error: "\<bar>real_of_int (Math_round x) - x\<bar> \<le> 1 / 2"
  unfolding Math_round_def by linarith


text \<open>The clamped linear formula of the source is the ramp of the specification.\<close>

lemma ramp_clamp:
  assumes "lo < hi"
  shows "ramp lo hi x = max 0 (min 100 (100 * (1 - (x - lo) / (hi - lo))))"
proof -
  define t where "t = (x - lo) / (hi - lo)"
  define y where "y = 100 * (1 - t)"
  have w: "0 < hi - lo" using assms by simp
  have eq: "y = 100 * (hi - x) / (hi - lo)"
    unfolding y_def t_def using w by (simp add: field_simps)
  consider "x \<le> lo" | "hi \<le> x" | "lo < x" "x < hi" by linarith
  then have "ramp lo hi x = max 0 (min 100 y)"
  proof cases
    case 1
    then have "t \<le> 0" unfolding t_def using w by (simp add: divide_le_0_iff)
    then have "100 \<le> y" unfolding y_def by (simp add: algebra_simps)
    then show ?thesis using 1 by (simp add: ramp_def)
  next
    case 2
    then have "1 \<le> t" unfolding t_def using w by (simp add: le_divide_eq)
    then have "y \<le> 0" unfolding y_def by (simp add: algebra_simps)
    then show ?thesis using 2 assms by (simp add: ramp_def)
  next
    case 3
    define u where "u = (hi - x) / (hi - lo)"
    have u: "0 < u" "u < 1" unfolding u_def using 3 w by (simp_all add: divide_less_eq)
    have "y = 100 * u" unfolding eq u_def by simp
    then have "0 < y" "y < 100" using u by simp_all
    then show ?thesis using 3 eq by (simp add: ramp_def)
  qed
  then show ?thesis by (simp only: y_def t_def)
qed

lemma clamp_close:
  fixes a b :: real
  shows "\<bar>max 0 (min 100 a) - max 0 (min 100 b)\<bar> \<le> \<bar>a - b\<bar>"
  by (simp add: max_def min_def abs_if)

lemma max0_close:
  fixes a b :: real
  shows "\<bar>max 0 a - max 0 b\<bar> \<le> \<bar>a - b\<bar>"
  by (simp add: max_def abs_if)

text \<open>The part of a sub-score after the subtraction: \<open>d\<close> is the computed and \<open>e\<close> the exact
  argument of the linear formula, \<open>w\<close> the width of the ramp.\<close>

lemma ramp_tail:
  assumes w: "1 \<le> w" "w \<le> 300" and e: "- 100 \<le> e"
    and big: "4 * w \<le> e \<Longrightarrow> 3 * w \<le> d"
    and small: "e < 4 * w \<Longrightarrow> \<bar>d - e\<bar> \<le> 1 / 2 ^ 43"
  shows "\<bar>max 0 (min 100 (fl (100 * fl (1 - fl (d / w)))))
          - max 0 (min 100 (100 * (1 - e / w)))\<bar> \<le> 1 / 10 ^ 10"
proof (cases "4 * w \<le> e")
  case True
  then have "3 * w \<le> d" by (rule big)
  then have "3 \<le> d / w" using w(1) by (simp add: le_divide_eq)
  then have "fl 3 \<le> fl (d / w)" by (rule fl_mono)
  then have "1 - fl (d / w) \<le> - 2" by simp
  then have "fl (1 - fl (d / w)) \<le> fl (- 2)" by (rule fl_mono)
  then have "100 * fl (1 - fl (d / w)) \<le> - 200" by (simp add: fl_minus)
  then have "fl (100 * fl (1 - fl (d / w))) \<le> fl (- 200)" by (rule fl_mono)
  then have 1: "fl (100 * fl (1 - fl (d / w))) \<le> 0" by (simp add: fl_minus)
  have "4 \<le> e / w" using True w(1) by (simp add: le_divide_eq)
  then have 2: "100 * (1 - e / w) \<le> 0" by simp
  show ?thesis using 1 2 by simp
next
  case False
  define eps :: real where "eps = 1 / 2 ^ 43"
  have eps: "0 < eps" "eps \<le> 1" "656 * eps \<le> 1 / 10 ^ 10" by (simp_all add: eps_def)
  have e': "e < 1200" "\<bar>d - e\<bar> \<le> eps" using False w(2) small by (simp_all add: eps_def)
  define a b q r m x where "a = d / w" and "b = e / w" and "q = fl a" and "r = fl (1 - q)"
    and "m = fl (100 * r)" and "x = 100 * (1 - b)"
  have d: "\<bar>d\<bar> < 1201" using e e' eps by linarith
  have "\<bar>a\<bar> \<le> \<bar>d\<bar>"
    unfolding a_def using w(1) by (simp add: divide_le_eq abs_mult mult_le_cancel_left1)
  then have dw: "\<bar>a\<bar> < 2 ^ 11" using d by simp
  then have "\<bar>q - a\<bar> \<le> 2 ^ 11 / 2 ^ 54" unfolding q_def by (rule fl_error)
  then have Q: "\<bar>q - a\<bar> \<le> eps" by (simp add: eps_def)
  have "\<bar>a - b\<bar> = \<bar>d - e\<bar> / w"
    unfolding a_def b_def using w(1) by (simp flip: diff_divide_distrib)
  also have "\<dots> \<le> \<bar>d - e\<bar>" using w(1) by (simp add: divide_le_eq mult_le_cancel_left1)
  finally have ab: "\<bar>a - b\<bar> \<le> eps" using e'(2) by simp
  have Q': "\<bar>q - b\<bar> \<le> 2 * eps" using Q ab by linarith
  have "\<bar>a\<bar> < 2048" using dw by simp
  then have "\<bar>1 - q\<bar> < 4096" using Q eps by linarith
  then have "\<bar>1 - q\<bar> < 2 ^ 12" by simp
  then have "\<bar>r - (1 - q)\<bar> \<le> 2 ^ 12 / 2 ^ 54" unfolding r_def by (rule fl_error)
  then have R: "\<bar>r - (1 - q)\<bar> \<le> 2 * eps" by (simp add: eps_def)
  have R': "\<bar>r - (1 - b)\<bar> \<le> 4 * eps" using R Q' by linarith
  have "\<bar>r\<bar> < 4099" using R \<open>\<bar>1 - q\<bar> < 4096\<close> eps by linarith
  then have "\<bar>100 * r\<bar> < 2 ^ 19" by (simp add: abs_mult)
  then have "\<bar>m - 100 * r\<bar> \<le> 2 ^ 19 / 2 ^ 54" unfolding m_def by (rule fl_error)
  then have M: "\<bar>m - 100 * r\<bar> \<le> 256 * eps" by (simp add: eps_def)
  have "100 * r - x = 100 * (r - (1 - b))" by (simp add: x_def algebra_simps)
  then have E: "\<bar>100 * r - x\<bar> = 100 * \<bar>r - (1 - b)\<bar>" by (simp only: abs_mult)
  have "100 * \<bar>r - (1 - b)\<bar> \<le> 100 * (4 * eps)" using R' by (intro mult_left_mono) simp_all
  then have "\<bar>100 * r - x\<bar> \<le> 400 * eps" unfolding E by simp
  then have "\<bar>m - x\<bar> \<le> 656 * eps" using M by linarith
  then have "\<bar>m - x\<bar> \<le> 1 / 10 ^ 10" using eps(3) by linarith
  then have "\<bar>max 0 (min 100 m) - max 0 (min 100 x)\<bar> \<le> 1 / 10 ^ 10"
    using clamp_close[of m x] by linarith
  then show ?thesis by (simp only: m_def r_def q_def a_def x_def b_def)
qed


text \<open>A sub-score of the source against the ramp of the specification.\<close>

lemma ramp_score:
  assumes x: "0 \<le> x" and lo: "0 \<le> lo" "lo \<le> 100" and w: "1 \<le> w" "w \<le> 300"
    and rep: "3 * w \<le> fl (4 * w)"
  shows "\<bar>max 0 (min 100 (jsMul 100 (jsSub 1 (jsDiv (jsSub x lo) w)))) - ramp lo (lo + w) x\<bar>
           \<le> 1 / 10 ^ 10"
proof -
  have big: "3 * w \<le> fl (x - lo)" if "4 * w \<le> x - lo"
    using fl_mono[OF that] rep by simp
  have small: "\<bar>fl (x - lo) - (x - lo)\<bar> \<le> 1 / 2 ^ 43" if "x - lo < 4 * w"
  proof -
    have "\<bar>x - lo\<bar> < 2 ^ 11" using that x lo w by simp
    then have "\<bar>fl (x - lo) - (x - lo)\<bar> \<le> 2 ^ 11 / 2 ^ 54" by (rule fl_error)
    then show ?thesis by simp
  qed
  have "- 100 \<le> x - lo" using x lo by simp
  then have "\<bar>max 0 (min 100 (fl (100 * fl (1 - fl (fl (x - lo) / w)))))
          - max 0 (min 100 (100 * (1 - (x - lo) / w)))\<bar> \<le> 1 / 10 ^ 10"
    using w big small by (intro ramp_tail) simp_all
  moreover have "ramp lo (lo + w) x = max 0 (min 100 (100 * (1 - (x - lo) / (lo + w - lo))))"
    using w by (intro ramp_clamp) simp
  ultimately show ?thesis by (simp add: jsMul_def jsSub_def jsDiv_def)
qed

lemma linesScore_spec:
  "0 \<le> avgSrcSize dev \<Longrightarrow> \<bar>linesScore dev - ramp 100 400 (avgSrcSize dev)\<bar> \<le> 1 / 10 ^ 10"
  using ramp_score[of "avgSrcSize dev" 100 300] by (simp add: linesScore_def)

lemma filesScore_spec:
  "0 \<le> avgSrcFiles dev \<Longrightarrow> \<bar>filesScore dev - ramp 4 10 (avgSrcFiles dev)\<bar> \<le> 1 / 10 ^ 10"
  using ramp_score[of "avgSrcFiles dev" 4 6] by (simp add: filesScore_def)

lemma closeTimeScore_spec:
  assumes "case avgWorkingHoursToClose dev of None \<Rightarrow> True | Some h \<Rightarrow> 0 \<le> h"
  shows "\<bar>closeTimeScore dev - closeTimeScoreSpec dev\<bar> \<le> 1 / 10 ^ 10"
proof (cases "avgWorkingHoursToClose dev")
  case None
  then show ?thesis by (simp add: closeTimeScore_def closeTimeScoreSpec_def)
next
  case (Some h)
  then have "0 \<le> h" using assms by simp
  then show ?thesis
    using ramp_score[of h 2 6] Some by (simp add: closeTimeScore_def closeTimeScoreSpec_def)
qed

lemma iterationScore_spec:
  assumes "0 \<le> avgIterations dev"
  shows "\<bar>iterationScore dev - iterationScoreSpec dev\<bar> \<le> 1 / 10 ^ 10"
proof -
  define x where "x = avgIterations dev"
  have x: "0 \<le> x" using assms by (simp add: x_def)
  define d e where "d = max 0 (fl (x - 1))" and "e = max 0 (x - 1)"
  have big: "3 * 3 \<le> d" if "4 * 3 \<le> e"
  proof -
    have "12 \<le> x - 1" using that by (simp add: e_def)
    then have "fl 12 \<le> fl (x - 1)" by (rule fl_mono)
    then show ?thesis by (simp add: d_def)
  qed
  have small: "\<bar>d - e\<bar> \<le> 1 / 2 ^ 43" if "e < 4 * 3"
  proof -
    have "\<bar>x - 1\<bar> < 2 ^ 11" using that x by (simp add: e_def)
    then have "\<bar>fl (x - 1) - (x - 1)\<bar> \<le> 2 ^ 11 / 2 ^ 54" by (rule fl_error)
    then have "\<bar>fl (x - 1) - (x - 1)\<bar> \<le> 1 / 2 ^ 43" by simp
    then show ?thesis
      unfolding d_def e_def using max0_close[of "fl (x - 1)" "x - 1"] by linarith
  qed
  have "- 100 \<le> e" by (simp add: e_def)
  then have 1: "\<bar>max 0 (min 100 (fl (100 * fl (1 - fl (d / 3)))))
          - max 0 (min 100 (100 * (1 - e / 3)))\<bar> \<le> 1 / 10 ^ 10"
    using big small by (intro ramp_tail) simp_all
  have 2: "ramp 1 4 x = max 0 (min 100 (100 * (1 - e / 3)))"
  proof (cases "x \<le> 1")
    case True
    then show ?thesis by (simp add: ramp_def e_def)
  next
    case False
    then have "e = x - 1" by (simp add: e_def)
    then show ?thesis using ramp_clamp[of 1 4 x] by simp
  qed
  show ?thesis
    using 1 unfolding 2[symmetric]
    by (simp add: iterationScore_def iterationScoreSpec_def d_def x_def
        jsMul_def jsSub_def jsDiv_def)
qed

lemma churnScore_spec:
  assumes "0 \<le> churnPct dev"
  shows "\<bar>churnScore dev - churnScoreSpec dev\<bar> \<le> 1 / 10 ^ 10"
proof -
  define x where "x = churnPct dev"
  have x: "0 \<le> x" using assms by (simp add: x_def)
  define v where "v = fl (100 * fl (1 - fl (x / 50)))"
  have v: "churnScore dev = max 0 v"
    by (simp add: churnScore_def v_def x_def jsMul_def jsSub_def jsDiv_def)
  have "max 0 v \<le> 100" using churnScore_le[OF assms] v by simp
  then have m: "max 0 (min 100 v) = max 0 v" by (simp add: max_def min_def split: if_splits)
  have big: "3 * 50 \<le> x" if "4 * 50 \<le> x" using that by simp
  have small: "\<bar>x - x\<bar> \<le> 1 / 2 ^ 43" by simp
  have "\<bar>max 0 (min 100 (fl (100 * fl (1 - fl (x / 50)))))
          - max 0 (min 100 (100 * (1 - x / 50)))\<bar> \<le> 1 / 10 ^ 10"
    using x big small by (intro ramp_tail) simp_all
  moreover have "ramp 0 50 x = max 0 (min 100 (100 * (1 - (x - 0) / (50 - 0))))"
    by (intro ramp_clamp) simp
  ultimately show ?thesis
    using m by (simp add: v churnScoreSpec_def v_def x_def)
qed

lemma sizeScore_spec:
  assumes "0 \<le> avgSrcSize dev" and "0 \<le> avgSrcFiles dev"
  shows "\<bar>sizeScore dev - sizeScoreSpec dev\<bar> \<le> 2 / 10 ^ 10"
proof -
  define l f a where "l = linesScore dev" and "f = filesScore dev" and "a = fl (l + f)"
  define lE fE where "lE = ramp 100 400 (avgSrcSize dev)" and "fE = ramp 4 10 (avgSrcFiles dev)"
  have L: "\<bar>l - lE\<bar> \<le> 1 / 10 ^ 10" unfolding l_def lE_def using assms(1) by (rule linesScore_spec)
  have F: "\<bar>f - fE\<bar> \<le> 1 / 10 ^ 10" unfolding f_def fE_def using assms(2) by (rule filesScore_spec)
  have r: "0 \<le> l" "l \<le> 100" "0 \<le> f" "f \<le> 100"
    using subscores_range(1-4)[of dev] by (simp_all add: l_def f_def)
  have "\<bar>l + f\<bar> < 2 ^ 8" using r by simp
  then have A: "\<bar>a - (l + f)\<bar> \<le> 2 ^ 8 / 2 ^ 54" unfolding a_def by (rule fl_error)
  have "0 \<le> a" unfolding a_def using r by (intro fl_nonneg) simp
  moreover have "fl (l + f) \<le> fl 200" using r by (intro fl_mono) simp
  ultimately have "\<bar>a / 2\<bar> < 2 ^ 7" by (simp add: a_def)
  then have S: "\<bar>fl (a / 2) - a / 2\<bar> \<le> 2 ^ 7 / 2 ^ 54" by (rule fl_error)
  define dl :: real where "dl = 1 / 10 ^ 10"
  have "\<bar>fl (a / 2) - a / 2\<bar> \<le> dl / 2" "\<bar>a - (l + f)\<bar> \<le> dl / 2"
       "\<bar>l - lE\<bar> \<le> dl" "\<bar>f - fE\<bar> \<le> dl"
    using S A L F by (simp_all add: dl_def)
  moreover have "0 < dl" by (simp add: dl_def)
  ultimately have "\<bar>fl (a / 2) - (lE + fE) / 2\<bar> \<le> 2 * dl" by argo
  then have "\<bar>fl (a / 2) - (lE + fE) / 2\<bar> \<le> 2 / 10 ^ 10" by (simp add: dl_def)
  then show ?thesis
    by (simp add: sizeScore_def sizeScoreSpec_def jsDiv_def jsAdd_def a_def l_def f_def
        lE_def fE_def)
qed


text \<open>
  \<^bold>\<open>C8\<close>, as amended.  For non-negative \<open>avgSrcSize\<close>, \<open>avgSrcFiles\<close>, \<open>avgIterations\<close> and
  \<open>churnPct\<close>, and \<open>avgWorkingHoursToClose\<close> either \<open>null\<close> or non-negative,
  \<open>calculateQualityScore\<close> returns an integer between 0 and 100 inclusive.  It is
  \<open>Math.round\<close> of the weighted sum as double arithmetic evaluates it, which lies within
  \<open>10\<^sup>-\<^sup>9\<close> of the weighted sum \<open>sizeScore*0.35 + closeTimeScore*0.30 + iterationScore*0.20 +
  churnScore*0.15\<close> of the specification; so the score is within \<open>1/2 + 10\<^sup>-\<^sup>9\<close> of that sum,
  and is its rounding unless the sum lies that close to a tie.  \<open>closeTimeScore\<close> is 50 when
  \<open>avgWorkingHoursToClose\<close> is \<open>null\<close>.
\<close>

theorem calculateQualityScore_bounds:
  assumes "0 \<le> avgSrcSize dev" and "0 \<le> avgSrcFiles dev" and "0 \<le> avgIterations dev"
    and "0 \<le> churnPct dev"
    and "case avgWorkingHoursToClose dev of None \<Rightarrow> True | Some h \<Rightarrow> 0 \<le> h"
  shows "0 \<le> calculateQualityScore dev teamAvg \<and> calculateQualityScore dev teamAvg \<le> 100 \<and>
    \<bar>real_of_int (calculateQualityScore dev teamAvg) - weightedSumSpec dev\<bar>
      \<le> 1 / 2 + 1 / 10 ^ 9 \<and>
    (avgWorkingHoursToClose dev = None \<longrightarrow> closeTimeScore dev = 50)"
proof -
  define t where
    "t = jsAdd (jsAdd (jsAdd (jsMul (sizeScore dev) (lit (35 / 100)))
                             (jsMul (closeTimeScore dev) (lit (30 / 100))))
                      (jsMul (iterationScore dev) (lit (20 / 100))))
               (jsMul (churnScore dev) (lit (15 / 100)))"
  define x where
    "x = sizeScore dev * (35 / 100) + closeTimeScore dev * (30 / 100)
           + iterationScore dev * (20 / 100) + churnScore dev * (15 / 100)"
  have score: "calculateQualityScore dev teamAvg = Math_round t"
    by (simp add: calculateQualityScore_def t_def)
  have T: "0 \<le> t" "t \<le> 100" "\<bar>t - x\<bar> \<le> 1 / 10 ^ 13"
    unfolding t_def x_def
    by (rule weighted_sum[OF sizeScore_range subscores_range(5,6) subscores_range(7,8)
          subscores_range(9) churnScore_le[OF assms(4)]])+
  have "0 \<le> \<lfloor>t + 1 / 2\<rfloor>" using T(1) by simp
  moreover have "\<lfloor>t + 1 / 2\<rfloor> \<le> 100" using T(2) by (simp add: floor_le_iff)
  ultimately have range: "0 \<le> Math_round t" "Math_round t \<le> 100"
    by (simp_all add: Math_round_def)
  define dl :: real where "dl = 1 / 10 ^ 10"
  have S: "\<bar>sizeScore dev - sizeScoreSpec dev\<bar> \<le> 2 * dl"
    using sizeScore_spec[OF assms(1,2)] by (simp add: dl_def)
  have C: "\<bar>closeTimeScore dev - closeTimeScoreSpec dev\<bar> \<le> dl"
    using closeTimeScore_spec[OF assms(5)] by (simp add: dl_def)
  have I: "\<bar>iterationScore dev - iterationScoreSpec dev\<bar> \<le> dl"
    using iterationScore_spec[OF assms(3)] by (simp add: dl_def)
  have U: "\<bar>churnScore dev - churnScoreSpec dev\<bar> \<le> dl"
    using churnScore_spec[OF assms(4)] by (simp add: dl_def)
  have dl: "0 < dl" "\<bar>t - x\<bar> \<le> dl" using T(3) by (simp_all add: dl_def)
  have "\<bar>x - weightedSumSpec dev\<bar> \<le> 2 * dl"
    unfolding x_def weightedSumSpec_def using S C I U dl(1) by argo
  then have "\<bar>t - weightedSumSpec dev\<bar> \<le> 3 * dl" using dl(2) by argo
  moreover have "\<bar>real_of_int (Math_round t) - t\<bar> \<le> 1 / 2" by (rule Math_round_error)
  ultimately have "\<bar>real_of_int (Math_round t) - weightedSumSpec dev\<bar> \<le> 1 / 2 + 3 * dl"
    by argo
  moreover have "3 * dl \<le> 1 / 10 ^ 9" by (simp add: dl_def)
  ultimately have close: "\<bar>real_of_int (Math_round t) - weightedSumSpec dev\<bar>
                            \<le> 1 / 2 + 1 / 10 ^ 9" by linarith
  show ?thesis
    unfolding score using range close by (simp add: closeTimeScore_def)
qed

text \<open>Evaluations of the score, rounding by rounding.\<close>

lemma tieDev_score:
  "linesScore tieDev = 80" "filesScore tieDev = 100" "sizeScore tieDev = 90"
  "closeTimeScore tieDev = 0" "iterationScore tieDev = 0" "churnScore tieDev = 0"
  "calculateQualityScore tieDev sampleBaseline = 31"
proof -
  have sel: "avgSrcSize tieDev = 160" "avgSrcFiles tieDev = 4" "avgIterations tieDev = 4"
    "avgWorkingHoursToClose tieDev = Some 8" "churnPct tieDev = 50"
    by (simp_all add: tieDev_def)
  have e1: "jsSub 160 100 = 60"
    by (simp add: jsSub_def)
  have e2: "jsDiv 60 300 = 3602879701896397 / 2 ^ 54"
    by (simp add: jsDiv_def fl_scale_up[where n=55] rne_def)
  have e3: "jsSub 1 (3602879701896397 / 2 ^ 54) = 3602879701896397 / 2 ^ 52"
    by (simp add: jsSub_def fl_scale_up[where n=53] rne_def)
  have e4: "jsMul 100 (3602879701896397 / 2 ^ 52) = 80"
    by (simp add: jsMul_def fl_scale_up[where n=46] rne_def)
  have e5: "jsSub 4 4 = 0"
    by (simp add: jsSub_def)
  have e6: "jsDiv 0 6 = 0"
    by (simp add: jsDiv_def)
  have e7: "jsSub 1 0 = 1"
    by (simp add: jsSub_def)
  have e8: "jsMul 100 1 = 100"
    by (simp add: jsMul_def)
  have e9: "jsAdd 80 100 = 180"
    by (simp add: jsAdd_def)
  have e10: "jsDiv 180 2 = 90"
    by (simp add: jsDiv_def fl_scale_up[where n=46] rne_def)
  have e11: "jsSub 8 2 = 6"
    by (simp add: jsSub_def)
  have e12: "jsDiv 6 6 = 1"
    by (simp add: jsDiv_def fl_scale_up[where n=52] rne_def)
  have e13: "jsSub 1 1 = 0"
    by (simp add: jsSub_def)
  have e14: "jsMul 100 0 = 0"
    by (simp add: jsMul_def)
  have e15: "jsSub 4 1 = 3"
    by (simp add: jsSub_def)
  have e16: "max 0 3 = (3::real)"
    by simp
  have e17: "jsDiv 3 3 = 1"
    by (simp add: jsDiv_def fl_scale_up[where n=52] rne_def)
  have e18: "jsSub 1 1 = 0"
    by (simp add: jsSub_def)
  have e19: "jsMul 100 0 = 0"
    by (simp add: jsMul_def)
  have e20: "jsDiv 50 50 = 1"
    by (simp add: jsDiv_def fl_scale_up[where n=52] rne_def)
  have e21: "jsSub 1 1 = 0"
    by (simp add: jsSub_def)
  have e22: "jsMul 100 0 = 0"
    by (simp add: jsMul_def)
  have e23: "jsMul 90 (3152519739159347 / 2 ^ 53) = 8866461766385663 / 2 ^ 48"
    by (simp add: jsMul_def fl_scale_up[where n=48] rne_def)
  have e24: "jsMul 0 (5404319552844595 / 2 ^ 54) = 0"
    by (simp add: jsMul_def)
  have e25: "jsMul 0 (3602879701896397 / 2 ^ 54) = 0"
    by (simp add: jsMul_def)
  have e26: "jsMul 0 (5404319552844595 / 2 ^ 55) = 0"
    by (simp add: jsMul_def)
  have e27: "jsAdd (8866461766385663 / 2 ^ 48) 0 = 8866461766385663 / 2 ^ 48"
    by (simp add: jsAdd_def fl_scale_up[where n=48] rne_def)
  have e28: "jsAdd (8866461766385663 / 2 ^ 48) 0 = 8866461766385663 / 2 ^ 48"
    by (simp add: jsAdd_def fl_scale_up[where n=48] rne_def)
  have e29: "jsAdd (8866461766385663 / 2 ^ 48) 0 = 8866461766385663 / 2 ^ 48"
    by (simp add: jsAdd_def fl_scale_up[where n=48] rne_def)
  show l: "linesScore tieDev = 80"
    unfolding linesScore_def sel e1 e2 e3 e4 by simp
  show f: "filesScore tieDev = 100"
    unfolding filesScore_def sel e5 e6 e7 e8 by simp
  show s: "sizeScore tieDev = 90"
    unfolding sizeScore_def l f e9 e10 ..
  show c: "closeTimeScore tieDev = 0"
    unfolding closeTimeScore_def sel option.case e11 e12 e13 e14 by simp
  show i: "iterationScore tieDev = 0"
    unfolding iterationScore_def sel e15 e16 e17 e18 e19 by simp
  show u: "churnScore tieDev = 0"
    unfolding churnScore_def sel e20 e21 e22 by simp
  show "calculateQualityScore tieDev sampleBaseline = 31"
    unfolding calculateQualityScore_def s c i u lit_weights e23 e24 e25 e26 e27 e28 e29
    by (simp add: Math_round_def)
qed

lemma nearTieDev_score:
  "linesScore nearTieDev = 6802311937174187 / 2 ^ 46" "filesScore nearTieDev = 2932031007402667 / 2 ^ 45" "sizeScore nearTieDev = 90"
  "closeTimeScore nearTieDev = 2345624805922133 / 2 ^ 47" "iterationScore nearTieDev = 100" "churnScore nearTieDev = 40"
  "calculateQualityScore nearTieDev sampleBaseline = 62"
proof -
  have sel: "avgSrcSize nearTieDev = 110" "avgSrcFiles nearTieDev = 5" "avgIterations nearTieDev = 1"
    "avgWorkingHoursToClose nearTieDev = Some 7" "churnPct nearTieDev = 30"
    by (simp_all add: nearTieDev_def)
  have e1: "jsSub 110 100 = 10"
    by (simp add: jsSub_def)
  have e2: "jsDiv 10 300 = 4803839602528529 / 2 ^ 57"
    by (simp add: jsDiv_def fl_scale_up[where n=57] rne_def)
  have e3: "jsSub 1 (4803839602528529 / 2 ^ 57) = 8706959279582959 / 2 ^ 53"
    by (simp add: jsSub_def fl_scale_up[where n=53] rne_def)
  have e4: "jsMul 100 (8706959279582959 / 2 ^ 53) = 6802311937174187 / 2 ^ 46"
    by (simp add: jsMul_def fl_scale_up[where n=46] rne_def)
  have e5: "jsSub 5 4 = 1"
    by (simp add: jsSub_def)
  have e6: "jsDiv 1 6 = 6004799503160661 / 2 ^ 55"
    by (simp add: jsDiv_def fl_scale_up[where n=55] rne_def)
  have e7: "jsSub 1 (6004799503160661 / 2 ^ 55) = 7505999378950827 / 2 ^ 53"
    by (simp add: jsSub_def fl_scale_up[where n=53] rne_def)
  have e8: "jsMul 100 (7505999378950827 / 2 ^ 53) = 2932031007402667 / 2 ^ 45"
    by (simp add: jsMul_def fl_scale_up[where n=46] rne_def)
  have e9: "jsAdd (6802311937174187 / 2 ^ 46) (2932031007402667 / 2 ^ 45) = 180"
    by (simp add: jsAdd_def fl_scale_up[where n=45] rne_def)
  have e10: "jsDiv 180 2 = 90"
    by (simp add: jsDiv_def fl_scale_up[where n=46] rne_def)
  have e11: "jsSub 7 2 = 5"
    by (simp add: jsSub_def)
  have e12: "jsDiv 5 6 = 7505999378950827 / 2 ^ 53"
    by (simp add: jsDiv_def fl_scale_up[where n=53] rne_def)
  have e13: "jsSub 1 (7505999378950827 / 2 ^ 53) = 1501199875790165 / 2 ^ 53"
    by (simp add: jsSub_def fl_scale_up[where n=55] rne_def)
  have e14: "jsMul 100 (1501199875790165 / 2 ^ 53) = 2345624805922133 / 2 ^ 47"
    by (simp add: jsMul_def fl_scale_up[where n=48] rne_def)
  have e15: "jsSub 1 1 = 0"
    by (simp add: jsSub_def)
  have e16: "max 0 0 = (0::real)"
    by simp
  have e17: "jsDiv 0 3 = 0"
    by (simp add: jsDiv_def)
  have e18: "jsSub 1 0 = 1"
    by (simp add: jsSub_def)
  have e19: "jsMul 100 1 = 100"
    by (simp add: jsMul_def)
  have e20: "jsDiv 30 50 = 5404319552844595 / 2 ^ 53"
    by (simp add: jsDiv_def fl_scale_up[where n=53] rne_def)
  have e21: "jsSub 1 (5404319552844595 / 2 ^ 53) = 3602879701896397 / 2 ^ 53"
    by (simp add: jsSub_def fl_scale_up[where n=54] rne_def)
  have e22: "jsMul 100 (3602879701896397 / 2 ^ 53) = 40"
    by (simp add: jsMul_def fl_scale_up[where n=47] rne_def)
  have e23: "jsMul 90 (3152519739159347 / 2 ^ 53) = 8866461766385663 / 2 ^ 48"
    by (simp add: jsMul_def fl_scale_up[where n=48] rne_def)
  have e24: "jsMul (2345624805922133 / 2 ^ 47) (5404319552844595 / 2 ^ 54) = 5629499534213119 / 2 ^ 50"
    by (simp add: jsMul_def fl_scale_up[where n=50] rne_def)
  have e25: "jsMul 100 (3602879701896397 / 2 ^ 54) = 20"
    by (simp add: jsMul_def fl_scale_up[where n=48] rne_def)
  have e26: "jsMul 40 (5404319552844595 / 2 ^ 55) = 6"
    by (simp add: jsMul_def fl_scale_up[where n=50] rne_def)
  have e27: "jsAdd (8866461766385663 / 2 ^ 48) (5629499534213119 / 2 ^ 50) = 5136918324969471 / 2 ^ 47"
    by (simp add: jsAdd_def fl_scale_up[where n=47] rne_def)
  have e28: "jsAdd (5136918324969471 / 2 ^ 47) 20 = 7951668092076031 / 2 ^ 47"
    by (simp add: jsAdd_def fl_scale_up[where n=47] rne_def)
  have e29: "jsAdd (7951668092076031 / 2 ^ 47) 6 = 8796093022207999 / 2 ^ 47"
    by (simp add: jsAdd_def fl_scale_up[where n=47] rne_def)
  show l: "linesScore nearTieDev = 6802311937174187 / 2 ^ 46"
    unfolding linesScore_def sel e1 e2 e3 e4 by simp
  show f: "filesScore nearTieDev = 2932031007402667 / 2 ^ 45"
    unfolding filesScore_def sel e5 e6 e7 e8 by simp
  show s: "sizeScore nearTieDev = 90"
    unfolding sizeScore_def l f e9 e10 ..
  show c: "closeTimeScore nearTieDev = 2345624805922133 / 2 ^ 47"
    unfolding closeTimeScore_def sel option.case e11 e12 e13 e14 by simp
  show i: "iterationScore nearTieDev = 100"
    unfolding iterationScore_def sel e15 e16 e17 e18 e19 by simp
  show u: "churnScore nearTieDev = 40"
    unfolding churnScore_def sel e20 e21 e22 by simp
  show "calculateQualityScore nearTieDev sampleBaseline = 62"
    unfolding calculateQualityScore_def s c i u lit_weights e23 e24 e25 e26 e27 e28 e29
    by (simp add: Math_round_def)
qed

lemma sampleDev_score:
  "linesScore sampleDev = 50" "filesScore sampleDev = 50" "sizeScore sampleDev = 50"
  "closeTimeScore sampleDev = 50" "iterationScore sampleDev = 4691249611844267 / 2 ^ 46" "churnScore sampleDev = 80"
  "calculateQualityScore sampleDev sampleBaseline = 58"
proof -
  have sel: "avgSrcSize sampleDev = 250" "avgSrcFiles sampleDev = 7" "avgIterations sampleDev = 2"
    "avgWorkingHoursToClose sampleDev = None" "churnPct sampleDev = 10"
    by (simp_all add: sampleDev_def)
  have e1: "jsSub 250 100 = 150"
    by (simp add: jsSub_def)
  have e2: "jsDiv 150 300 = 1 / 2 ^ 1"
    by (simp add: jsDiv_def fl_scale_up[where n=53] rne_def)
  have e3: "jsSub 1 (1 / 2 ^ 1) = 1 / 2 ^ 1"
    by (simp add: jsSub_def fl_scale_up[where n=53] rne_def)
  have e4: "jsMul 100 (1 / 2 ^ 1) = 50"
    by (simp add: jsMul_def fl_scale_up[where n=47] rne_def)
  have e5: "jsSub 7 4 = 3"
    by (simp add: jsSub_def)
  have e6: "jsDiv 3 6 = 1 / 2 ^ 1"
    by (simp add: jsDiv_def fl_scale_up[where n=53] rne_def)
  have e7: "jsSub 1 (1 / 2 ^ 1) = 1 / 2 ^ 1"
    by (simp add: jsSub_def fl_scale_up[where n=53] rne_def)
  have e8: "jsMul 100 (1 / 2 ^ 1) = 50"
    by (simp add: jsMul_def fl_scale_up[where n=47] rne_def)
  have e9: "jsAdd 50 50 = 100"
    by (simp add: jsAdd_def)
  have e10: "jsDiv 100 2 = 50"
    by (simp add: jsDiv_def fl_scale_up[where n=47] rne_def)
  have e11: "jsSub 2 1 = 1"
    by (simp add: jsSub_def)
  have e12: "max 0 1 = (1::real)"
    by simp
  have e13: "jsDiv 1 3 = 6004799503160661 / 2 ^ 54"
    by (simp add: jsDiv_def fl_scale_up[where n=54] rne_def)
  have e14: "jsSub 1 (6004799503160661 / 2 ^ 54) = 3002399751580331 / 2 ^ 52"
    by (simp add: jsSub_def fl_scale_up[where n=53] rne_def)
  have e15: "jsMul 100 (3002399751580331 / 2 ^ 52) = 4691249611844267 / 2 ^ 46"
    by (simp add: jsMul_def fl_scale_up[where n=46] rne_def)
  have e16: "jsDiv 10 50 = 3602879701896397 / 2 ^ 54"
    by (simp add: jsDiv_def fl_scale_up[where n=55] rne_def)
  have e17: "jsSub 1 (3602879701896397 / 2 ^ 54) = 3602879701896397 / 2 ^ 52"
    by (simp add: jsSub_def fl_scale_up[where n=53] rne_def)
  have e18: "jsMul 100 (3602879701896397 / 2 ^ 52) = 80"
    by (simp add: jsMul_def fl_scale_up[where n=46] rne_def)
  have e19: "jsMul 50 (3152519739159347 / 2 ^ 53) = 35 / 2 ^ 1"
    by (simp add: jsMul_def fl_scale_up[where n=48] rne_def)
  have e20: "jsMul 50 (5404319552844595 / 2 ^ 54) = 15"
    by (simp add: jsMul_def fl_scale_up[where n=49] rne_def)
  have e21: "jsMul (4691249611844267 / 2 ^ 46) (3602879701896397 / 2 ^ 54) = 1876499844737707 / 2 ^ 47"
    by (simp add: jsMul_def fl_scale_up[where n=49] rne_def)
  have e22: "jsMul 80 (5404319552844595 / 2 ^ 55) = 12"
    by (simp add: jsMul_def fl_scale_up[where n=49] rne_def)
  have e23: "jsAdd (35 / 2 ^ 1) 15 = 65 / 2 ^ 1"
    by (simp add: jsAdd_def fl_scale_up[where n=47] rne_def)
  have e24: "jsAdd (65 / 2 ^ 1) (1876499844737707 / 2 ^ 47) = 6450468216285867 / 2 ^ 47"
    by (simp add: jsAdd_def fl_scale_up[where n=47] rne_def)
  have e25: "jsAdd (6450468216285867 / 2 ^ 47) 12 = 8139318076549803 / 2 ^ 47"
    by (simp add: jsAdd_def fl_scale_up[where n=47] rne_def)
  show l: "linesScore sampleDev = 50"
    unfolding linesScore_def sel e1 e2 e3 e4 by simp
  show f: "filesScore sampleDev = 50"
    unfolding filesScore_def sel e5 e6 e7 e8 by simp
  show s: "sizeScore sampleDev = 50"
    unfolding sizeScore_def l f e9 e10 ..
  show c: "closeTimeScore sampleDev = 50"
    unfolding closeTimeScore_def sel by simp
  show i: "iterationScore sampleDev = 4691249611844267 / 2 ^ 46"
    unfolding iterationScore_def sel e11 e12 e13 e14 e15 by simp
  show u: "churnScore sampleDev = 80"
    unfolding churnScore_def sel e16 e17 e18 by simp
  show "calculateQualityScore sampleDev sampleBaseline = 58"
    unfolding calculateQualityScore_def s c i u lit_weights e19 e20 e21 e22 e23 e24 e25
    by (simp add: Math_round_def)
qed


text \<open>For \<open>sampleDev\<close> the four sub-scores are 50, 50 (no close-time data), the double next
  to \<open>200/3\<close> and 80; the weighted sum \<open>57.833333333333336\<close> rounds to 58.\<close>

theorem calculateQualityScore_bounds_witness:
  "0 \<le> avgSrcSize sampleDev \<and> 0 \<le> avgSrcFiles sampleDev \<and> 0 \<le> avgIterations sampleDev \<and>
   0 \<le> churnPct sampleDev \<and> avgWorkingHoursToClose sampleDev = None \<and>
   closeTimeScore sampleDev = 50 \<and>
   calculateQualityScore sampleDev sampleBaseline = 58 \<and>
   \<bar>58 - weightedSumSpec sampleDev\<bar> \<le> 1 / 2 + 1 / 10 ^ 9"
  using calculateQualityScore_bounds [of sampleDev sampleBaseline]
  by (simp add: sampleDev_score(7)) (simp add: sampleDev_def)

text \<open>The claim as first stated fails on \<open>tieDev\<close>.  The sub-scores are 90, 0, 0 and 0 in the
  source and in the specification alike, the weighted sum of the specification is 31.5 and
  its rounding 32.  In double arithmetic \<open>90 * 0.35\<close> is \<open>31.499999999999996\<close>, and the
  function returns 31.\<close>

theorem calculateQualityScore_rounding_counterexample:
  "0 \<le> avgSrcSize tieDev \<and> 0 \<le> avgSrcFiles tieDev \<and> 0 \<le> avgIterations tieDev \<and>
   0 \<le> churnPct tieDev \<and> avgWorkingHoursToClose tieDev = Some 8 \<and>
   sizeScore tieDev = 90 \<and> closeTimeScore tieDev = 0 \<and> iterationScore tieDev = 0 \<and>
   churnScore tieDev = 0 \<and>
   Math_round (90 * 0.35 + 0 * 0.30 + 0 * 0.20 + 0 * 0.15) = 32 \<and>
   qualityScoreSpec tieDev = 32 \<and>
   calculateQualityScore tieDev sampleBaseline = 31"
  by (simp add: tieDev_score)
     (simp add: tieDev_def qualityScoreSpec_def weightedSumSpec_def sizeScoreSpec_def
        closeTimeScoreSpec_def iterationScoreSpec_def churnScoreSpec_def ramp_def Math_round_def)

text \<open>On \<open>nearTieDev\<close> the sum of the specification is 62.5 and its rounding 63; the close-time
  score is the double \<open>16.666666666666664\<close>, the sum comes out as \<open>62.49999999999999\<close> and the
  function returns 62.\<close>

lemma calculateQualityScore_nearTie:
  "qualityScoreSpec nearTieDev = 63 \<and> calculateQualityScore nearTieDev sampleBaseline = 62"
  by (simp add: nearTieDev_score)
     (simp add: nearTieDev_def qualityScoreSpec_def weightedSumSpec_def sizeScoreSpec_def
        closeTimeScoreSpec_def iterationScoreSpec_def churnScoreSpec_def ramp_def Math_round_def)

section \<open>Properties of the aggregators\<close>

text \<open>Rules that run the day walk on concrete timestamps.\<close>

lemmas wh_eval = calculateWorkingHours_def walkDays_stop walkDays_step dayHoursToRemove_def
  setHours_def localDay_def getDay_def nextDate_def hoursBetween_def jsAdd_def jsSub_def
  jsDiv_def MS_PER_DAY_def MS_PER_HOUR_def Let_def

lemma wh_thursday:
  "calculateWorkingHours (fixedZone 0) 36000000 39600000 = 1"
  "calculateWorkingHours (fixedZone 0) 36000000 43200000 = 2"
  by (simp_all add: wh_eval)

lemma wh_saturday:
  "calculateWorkingHours (fixedZone 0) 216000000 219600000 = 0"
  "calculateWorkingHours (fixedZone 0) 216000000 223200000 = 0"
  by (simp_all add: wh_eval)

lemmas reviewer_eval = collectReviewerStats_def reviewerPR_def reviewerReview_def
  countState_def addResponseTime_def addPrSamples_def bumpRepo_def newReviewerStats_def
  truthyStr_def approvalBy_def Let_def

lemmas author_eval = collectAuthorStats_def authorPR_def bumpRepo_def newAuthorStats_def
  truthyStr_def commitCountOr1_def churnPercentageOr0_def fileChurnCountOr0_def Let_def

lemma stats_same_number:
  "collectReviewerStats (fixedZone 0) [prFrontend12, prBackend12] =
     [(''bob'',
       \<lparr> st_reviewer = ''bob'', st_totalReviews = 2, st_approvals = 2,
         st_changesRequested = 0, st_commentOnlyReviews = 0, st_noCommentApprovals = 2,
         st_totalInlineComments = 0, st_totalConversationComments = 0,
         st_responseTimes = [1, 1], st_prSizesReviewed = [30],
         st_prProdLinesReviewed = [30], st_prTestLinesReviewed = [0],
         st_iterationsPerPr = [1], st_prsReviewed = [12],
         st_prsByRepo = [(''fe-redesign'', 1)], st_reviewedPrCloseTimes = [2] \<rparr>)]"
  by (simp add: reviewer_eval prFrontend12_def prBackend12_def wh_thursday)

text \<open>
  \<^bold>\<open>C6\<close> (one sample per pull request and reviewer), evaluated where it fails.
  \<open>prFrontend12\<close> and \<open>prBackend12\<close> are two different pull requests -- different
  repositories, same number -- and \<open>bob\<close> reviewed both.  The guard
  \<open>stats.prsReviewed.has(pr.number)\<close> looks at the number alone, so the second pull request
  contributes no PR-level sample: \<open>bob\<close>'s row counts 2 reviews but 1 pull request, an
  average size of 30 lines (that of the first alone, the two average 215) and one
  repository.
\<close>

theorem calculateReviewerSummary_number_collision:
  "repo prFrontend12 \<noteq> repo prBackend12 \<and> number prFrontend12 = number prBackend12 \<and>
   map (\<lambda>s. (length (st_prSizesReviewed s), length (st_prProdLinesReviewed s),
              length (st_prTestLinesReviewed s), length (st_iterationsPerPr s),
              length (st_reviewedPrCloseTimes s)))
     (map snd (collectReviewerStats (fixedZone 0) [prFrontend12, prBackend12])) = [(1, 1, 1, 1, 1)] \<and>
   map (\<lambda>row. (rs_reviewer row, rs_totalReviews row, rs_prsReviewedCount row,
                rs_avgPrSizeReviewed row, rs_prsByRepo row))
     (calculateReviewerSummary (fixedZone 0) [prFrontend12, prBackend12])
     = [(''bob'', 2, 1, 30, [(''fe-redesign'', 1)])]"
  by (simp add: calculateReviewerSummary_def stats_same_number reviewerRow_def avg_def
        Math_round_def Let_def jsAdd_def jsDiv_def)
     (simp add: prFrontend12_def prBackend12_def)

text \<open>Records whose error field is truthy are skipped by every loop.\<close>

lemma foldl_reviewerPR_filter:
  "foldl (reviewerPR z) acc (filter (\<lambda>p. error p = None \<or> error p = Some []) prs)
     = foldl (reviewerPR z) acc prs"
  by (induction prs arbitrary: acc)
     (auto simp: reviewerPR_def truthyStr_def split: option.splits)

lemma authorPR_skip: "truthyStr (error p) \<Longrightarrow> authorPR z acc p = acc"
  by (simp add: authorPR_def)

lemma not_truthyStr: "(\<not> truthyStr e) = (e = None \<or> e = Some [])"
  by (cases e) (auto simp: truthyStr_def)

lemma foldl_authorPR_filter:
  "foldl (authorPR z) acc (filter (\<lambda>p. error p = None \<or> error p = Some []) prs)
     = foldl (authorPR z) acc prs"
proof (induction prs arbitrary: acc)
  case Nil
  show ?case by simp
next
  case (Cons p prs)
  show ?case
  proof (cases "truthyStr (error p)")
    case True
    then show ?thesis
      using Cons.IH by (simp add: authorPR_skip not_truthyStr[symmetric])
  next
    case False
    then show ?thesis
      using Cons.IH by (simp add: not_truthyStr[symmetric])
  qed
qed

lemma validPRs_filter:
  "filter (\<lambda>p. \<not> truthyStr (error p))
     (filter (\<lambda>p. error p = None \<or> error p = Some []) prs)
     = filter (\<lambda>p. \<not> truthyStr (error p)) prs"
  by (simp add: not_truthyStr)

lemma calculateTeamSummary_filter:
  "calculateTeamSummary z authors reviewers
       (filter (\<lambda>p. error p = None \<or> error p = Some []) prDetails)
     = calculateTeamSummary z authors reviewers prDetails"
  unfolding calculateTeamSummary_def validPRs_filter ..

lemma computeTeamSummaryFallback_filter:
  "computeTeamSummaryFallback z
       (data \<lparr> details := filter (\<lambda>p. error p = None \<or> error p = Some []) (details data) \<rparr>)
     = computeTeamSummaryFallback z data"
proof -
  let ?data = "data \<lparr> details := filter (\<lambda>p. error p = None \<or> error p = Some [])
                                    (details data) \<rparr>"
  have sel: "details ?data = filter (\<lambda>p. error p = None \<or> error p = Some []) (details data)"
    "authorSummary ?data = authorSummary data" "summary ?data = summary data"
    by simp_all
  show ?thesis
    unfolding computeTeamSummaryFallback_def sel validPRs_filter ..
qed

text \<open>
  \<^bold>\<open>C7\<close>, as amended (aggregator exclusion).  For every batch, no record whose error
  field holds a non-empty string contributes to the reviewer summary, the author summary or
  the team summary (of the collector and of the dashboard's fallback): each summary of the
  batch equals the summary of the batch without those records.
\<close>

theorem aggregators_skip_error_records:
  "calculateReviewerSummary z (filter (\<lambda>p. error p = None \<or> error p = Some []) prDetails)
     = calculateReviewerSummary z prDetails \<and>
   calculateAuthorSummary z (filter (\<lambda>p. error p = None \<or> error p = Some []) prDetails)
     = calculateAuthorSummary z prDetails \<and>
   calculateTeamSummary z authors reviewers
       (filter (\<lambda>p. error p = None \<or> error p = Some []) prDetails)
     = calculateTeamSummary z authors reviewers prDetails \<and>
   computeTeamSummaryFallback z
       (data \<lparr> details := filter (\<lambda>p. error p = None \<or> error p = Some []) (details data) \<rparr>)
     = computeTeamSummaryFallback z data"
proof -
  have "calculateReviewerSummary z
          (filter (\<lambda>p. error p = None \<or> error p = Some []) prDetails)
        = calculateReviewerSummary z prDetails"
    by (simp only: calculateReviewerSummary_def collectReviewerStats_def
        foldl_reviewerPR_filter)
  moreover have "calculateAuthorSummary z
          (filter (\<lambda>p. error p = None \<or> error p = Some []) prDetails)
        = calculateAuthorSummary z prDetails"
    by (simp only: calculateAuthorSummary_def collectAuthorStats_def foldl_authorPR_filter)
  ultimately show ?thesis
    using calculateTeamSummary_filter computeTeamSummaryFallback_filter by blast
qed

text \<open>The failed record \<open>prFailed\<close> in front of \<open>prFrontend12\<close> changes no summary.\<close>

theorem aggregators_skip_error_records_witness:
  "calculateReviewerSummary (fixedZone 0) [prFailed, prFrontend12]
     = calculateReviewerSummary (fixedZone 0) [prFrontend12] \<and>
   calculateAuthorSummary (fixedZone 0) [prFailed, prFrontend12] = calculateAuthorSummary (fixedZone 0) [prFrontend12] \<and>
   calculateTeamSummary (fixedZone 0) [] [] [prFailed, prFrontend12]
     = calculateTeamSummary (fixedZone 0) [] [] [prFrontend12]"
  using aggregators_skip_error_records [of "fixedZone 0" "[prFailed, prFrontend12]" "[]" "[]"]
  by (simp add: prFailed_def prFrontend12_def)

text \<open>The claim as first stated, for every record carrying an error field, fails on
  \<open>prEmptyError\<close>: its error field is present but holds the empty string, which
  \<open>if (pr.error)\<close> takes for false, and the record is counted by all three aggregators.\<close>

theorem aggregators_empty_error_counterexample:
  "error prEmptyError \<noteq> None \<and>
   calculateReviewerSummary (fixedZone 0) [prEmptyError] \<noteq> calculateReviewerSummary (fixedZone 0) [] \<and>
   calculateAuthorSummary (fixedZone 0) [prEmptyError] \<noteq> calculateAuthorSummary (fixedZone 0) [] \<and>
   ta_totalPRs (authored (calculateTeamSummary (fixedZone 0) [] [] [prEmptyError])) = 1 \<and>
   ta_totalPRs (authored (calculateTeamSummary (fixedZone 0) [] [] [])) = 0"
  by (simp add: calculateReviewerSummary_def calculateAuthorSummary_def reviewer_eval
      author_eval calculateTeamSummary_def prEmptyError_def prFrontend12_def)

text \<open>
  \<^bold>\<open>C9\<close> (the two team summaries), evaluated where they differ.  For the batch
  \<open>[prWeekend]\<close> with its own reviewer and author summaries, the first response comes after
  0 working hours.  The collector keeps the response times \<open>t > 0\<close>, finds none and reports
  \<open>medianResponseTime\<close> \<open>null\<close>; the dashboard's fallback keeps the times \<open>h >= 0\<close> and
  reports 0.
\<close>

theorem teamSummary_fallback_differs:
  "tr_medianResponseTime (reviewed (calculateTeamSummary (fixedZone 0) (authorSummary weekendData)
       (summary weekendData) (details weekendData))) = None \<and>
   tr_medianResponseTime (reviewed (computeTeamSummaryFallback (fixedZone 0) weekendData)) = Some 0"
  by (simp add: weekendData_def calculateTeamSummary_def computeTeamSummaryFallback_def
      truthyStr_def calculateWorkingHours_utils_eq median_def toFixedNum_def parseFloat_def
      prWeekend_def prFrontend12_def wh_saturday Let_def)

text \<open>Apart from \<open>medianResponseTime\<close> the two implementations agree on every batch.\<close>

lemma teamSummary_fallback_agrees_elsewhere:
  "authored (computeTeamSummaryFallback z data)
     = authored (calculateTeamSummary z (authorSummary data) (summary data) (details data)) \<and>
   (reviewed (computeTeamSummaryFallback z data)) \<lparr> tr_medianResponseTime := x \<rparr>
     = (reviewed (calculateTeamSummary z (authorSummary data) (summary data) (details data)))
         \<lparr> tr_medianResponseTime := x \<rparr>"
  by (simp add: calculateTeamSummary_def computeTeamSummaryFallback_def
      calculateWorkingHours_utils_eq Let_def)

text \<open>They agree on \<open>medianResponseTime\<close> too when no pull request of the batch has its
  first response after exactly 0 working hours: then both pools hold the same samples.\<close>

lemma calculateWorkingHours_ge0: "0 \<le> calculateWorkingHours z s e"
  by (simp add: calculateWorkingHours_def Let_def)

lemma responsePools_agree:
  assumes "\<forall>p\<in>set prs. \<forall>fr. firstResponseAt p = Some fr
             \<longrightarrow> calculateWorkingHours z (createdAt p) fr \<noteq> 0"
  shows "filter (\<lambda>h. h \<ge> 0)
           (map (\<lambda>p. calculateWorkingHours_utils z (Some (createdAt p)) (firstResponseAt p))
              (filter (\<lambda>p. firstResponseAt p \<noteq> None)
                 (filter (\<lambda>p. \<not> truthyStr (error p)) prs)))
       = filter (\<lambda>t. t > 0)
           (map (\<lambda>p. calculateWorkingHours z (createdAt p)
                       (case firstResponseAt p of Some fr \<Rightarrow> fr | None \<Rightarrow> 0))
              (filter (\<lambda>p. firstResponseAt p \<noteq> None)
                 (filter (\<lambda>p. \<not> truthyStr (error p)) prs)))"
  using assms
proof (induction prs)
  case Nil
  show ?case by simp
next
  case (Cons p prs)
  have ih: "filter (\<lambda>h. h \<ge> 0)
           (map (\<lambda>p. calculateWorkingHours_utils z (Some (createdAt p)) (firstResponseAt p))
              (filter (\<lambda>p. firstResponseAt p \<noteq> None)
                 (filter (\<lambda>p. \<not> truthyStr (error p)) prs)))
       = filter (\<lambda>t. t > 0)
           (map (\<lambda>p. calculateWorkingHours z (createdAt p)
                       (case firstResponseAt p of Some fr \<Rightarrow> fr | None \<Rightarrow> 0))
              (filter (\<lambda>p. firstResponseAt p \<noteq> None)
                 (filter (\<lambda>p. \<not> truthyStr (error p)) prs)))"
    using Cons by simp
  show ?case
  proof (cases "firstResponseAt p")
    case None
    then show ?thesis using ih by simp
  next
    case (Some fr)
    have "calculateWorkingHours z (createdAt p) fr \<noteq> 0"
      using Cons.prems Some by simp
    then have "0 < calculateWorkingHours z (createdAt p) fr"
      using calculateWorkingHours_ge0[of z "createdAt p" fr] by linarith
    then show ?thesis
      using ih Some by (simp add: calculateWorkingHours_utils_eq)
  qed
qed

lemma teamSummary_fallback_agrees:
  assumes "\<forall>p\<in>set (details data). \<forall>fr. firstResponseAt p = Some fr
             \<longrightarrow> calculateWorkingHours z (createdAt p) fr \<noteq> 0"
  shows "computeTeamSummaryFallback z data
       = calculateTeamSummary z (authorSummary data) (summary data) (details data)"
  unfolding computeTeamSummaryFallback_def calculateTeamSummary_def Let_def
    responsePools_agree[OF assms] calculateWorkingHours_utils_eq ..

text \<open>
  \<^bold>\<open>C10\<close> (a zero statistic is printed as \<open>null\<close>).  Every row of the reviewer summary
  is printed from the accumulator of one reviewer; whenever that reviewer's median, 90th
  percentile or fastest response time, or the average close time of the reviewed pull
  requests, is exactly 0, the corresponding field of the row is \<open>null\<close> (not the text
  \<open>0.00\<close> that \<open>toFixed(2)\<close> would print).
\<close>

theorem reviewerSummary_zero_is_null:
  assumes "row \<in> set (calculateReviewerSummary z prDetails)"
  shows "\<exists>entry\<in>set (collectReviewerStats z prDetails). row = reviewerRow entry \<and>
     (medianResponse (snd entry) = Some 0 \<longrightarrow> rs_medianResponseHours row = None) \<and>
     (p90Response (snd entry) = Some 0 \<longrightarrow> rs_p90ResponseHours row = None) \<and>
     (fastestResponse (snd entry) = Some 0 \<longrightarrow> rs_fastestResponseHours row = None) \<and>
     (avg (st_reviewedPrCloseTimes (snd entry)) = 0
        \<longrightarrow> rs_avgReviewedPrCloseTime row = None)"
proof -
  obtain entry
    where e: "entry \<in> set (collectReviewerStats z prDetails)" "row = reviewerRow entry"
    using assms by (auto simp: calculateReviewerSummary_def Let_def)
  have "(medianResponse (snd entry) = Some 0 \<longrightarrow> rs_medianResponseHours row = None) \<and>
     (p90Response (snd entry) = Some 0 \<longrightarrow> rs_p90ResponseHours row = None) \<and>
     (fastestResponse (snd entry) = Some 0 \<longrightarrow> rs_fastestResponseHours row = None) \<and>
     (avg (st_reviewedPrCloseTimes (snd entry)) = 0
        \<longrightarrow> rs_avgReviewedPrCloseTime row = None)"
    by (simp add: e(2) reviewerRow_def Let_def fixed2OrNull_def truthyNum_def
        avgReviewedPrCloseTime_def)
  then show ?thesis using e by blast
qed

text \<open>The index \<open>Math.floor(sorted.length * 0.9)\<close> for a single sample.\<close>

lemma p90_of_one: "\<lfloor>jsMul 1 (lit (9 / 10))\<rfloor> = 0"
proof -
  have 1: "fl (9 / 10) = 8106479329266893 / 2 ^ 53"
    by (simp add: fl_scale_up[where n=53] rne_def)
  have 2: "fl (8106479329266893 / 2 ^ 53) = 8106479329266893 / 2 ^ 53"
    using fl_dyadic[of 8106479329266893 53] by simp
  have 3: "jsMul 1 (lit (9 / 10)) = 8106479329266893 / 2 ^ 53"
    unfolding jsMul_def lit_def mult_1 1 2 ..
  show ?thesis unfolding 3 by simp
qed

lemma stats_weekend:
  "collectReviewerStats (fixedZone 0) [prWeekend] =
     [(''bob'',
       \<lparr> st_reviewer = ''bob'', st_totalReviews = 1, st_approvals = 1,
         st_changesRequested = 0, st_commentOnlyReviews = 0, st_noCommentApprovals = 1,
         st_totalInlineComments = 0, st_totalConversationComments = 0,
         st_responseTimes = [0], st_prSizesReviewed = [30],
         st_prProdLinesReviewed = [30], st_prTestLinesReviewed = [0],
         st_iterationsPerPr = [1], st_prsReviewed = [12],
         st_prsByRepo = [(''fe-redesign'', 1)], st_reviewedPrCloseTimes = [0] \<rparr>)]"
  by (simp add: reviewer_eval prFrontend12_def prWeekend_def wh_saturday)

text \<open>For \<open>prWeekend\<close> all four statistics of \<open>bob\<close> are exactly 0, and all four fields of
  that row are \<open>null\<close>.\<close>

theorem reviewerSummary_zero_is_null_witness:
  "medianResponse (snd (hd (collectReviewerStats (fixedZone 0) [prWeekend]))) = Some 0 \<and>
   p90Response (snd (hd (collectReviewerStats (fixedZone 0) [prWeekend]))) = Some 0 \<and>
   fastestResponse (snd (hd (collectReviewerStats (fixedZone 0) [prWeekend]))) = Some 0 \<and>
   avg (st_reviewedPrCloseTimes (snd (hd (collectReviewerStats (fixedZone 0) [prWeekend])))) = 0 \<and>
   rs_medianResponseHours (hd (calculateReviewerSummary (fixedZone 0) [prWeekend])) = None \<and>
   rs_p90ResponseHours (hd (calculateReviewerSummary (fixedZone 0) [prWeekend])) = None \<and>
   rs_fastestResponseHours (hd (calculateReviewerSummary (fixedZone 0) [prWeekend])) = None \<and>
   rs_avgReviewedPrCloseTime (hd (calculateReviewerSummary (fixedZone 0) [prWeekend])) = None \<and>
   toFixed 2 0 = ''0.00''"
proof -
  have row: "hd (calculateReviewerSummary (fixedZone 0) [prWeekend])
               \<in> set (calculateReviewerSummary (fixedZone 0) [prWeekend])"
    by (simp add: calculateReviewerSummary_def stats_weekend)
  have st: "medianResponse (snd (hd (collectReviewerStats (fixedZone 0) [prWeekend]))) = Some 0"
    "p90Response (snd (hd (collectReviewerStats (fixedZone 0) [prWeekend]))) = Some 0"
    "fastestResponse (snd (hd (collectReviewerStats (fixedZone 0) [prWeekend]))) = Some 0"
    "avg (st_reviewedPrCloseTimes (snd (hd (collectReviewerStats (fixedZone 0) [prWeekend])))) = 0"
    by (simp_all add: stats_weekend medianResponse_def p90Response_def fastestResponse_def
        median_def percentile_def Math_min_def avg_def jsAdd_def jsDiv_def p90_of_one)
  have tf: "toFixed 2 0 = ''0.00''"
    by (simp add: toFixed_def showNat.simps numeral_2_eq_2)
  show ?thesis
    using reviewerSummary_zero_is_null[OF row] st tf
    by (auto simp: stats_weekend)
qed


end
